theory Spec2Isabelle
  imports Main "HOL-Library.Word"
begin

unbundle bit_operations_syntax

section \<open>Python strings and regular expressions\<close>

text \<open>
  The classifier and the resolver of \<^verbatim>\<open>wsjtx_msg_server.py\<close> work on Python \<^verbatim>\<open>str\<close>
  values.  They are modelled as \<^typ>\<open>string\<close>: a list of characters with code points
  0..255.  On this range \<^verbatim>\<open>\d\<close> of the \<^verbatim>\<open>re\<close> module is exactly the ten ASCII digits
  and \<^verbatim>\<open>str.split()\<close> separates at the twelve characters of \<open>isspace\<close> below.
\<close>

definition isspace :: "char \<Rightarrow> bool" where
  "isspace c \<longleftrightarrow> (of_char c :: nat) \<in> {9, 10, 11, 12, 13, 28, 29, 30, 31, 32, 133, 160}"

definition isdigit :: "char \<Rightarrow> bool" where
  "isdigit c \<longleftrightarrow> c \<in> set ''0123456789''"

definition isupper_AZ :: "char \<Rightarrow> bool" where
  "isupper_AZ c \<longleftrightarrow> c \<in> set ''ABCDEFGHIJKLMNOPQRSTUVWXYZ''"

definition isupper_AR :: "char \<Rightarrow> bool" where
  "isupper_AR c \<longleftrightarrow> c \<in> set ''ABCDEFGHIJKLMNOPQR''"

text \<open>\<^verbatim>\<open>str.split()\<close> without arguments: runs of whitespace separate, no empty token.\<close>

fun split_from :: "string \<Rightarrow> string \<Rightarrow> string list" where
  "split_from cur [] = (if cur = [] then [] else [cur])"
| "split_from cur (c # cs) =
     (if isspace c then (if cur = [] then split_from [] cs else cur # split_from [] cs)
      else split_from (cur @ [c]) cs)"

definition split :: "string \<Rightarrow> string list" where
  "split s = split_from [] s"

text \<open>\<^verbatim>\<open>str.split(sep)\<close> with a one-character separator: empty pieces are kept.\<close>

fun split_at_from :: "char \<Rightarrow> string \<Rightarrow> string \<Rightarrow> string list" where
  "split_at_from sep cur [] = [cur]"
| "split_at_from sep cur (c # cs) =
     (if c = sep then cur # split_at_from sep [] cs else split_at_from sep (cur @ [c]) cs)"

definition split_at :: "char \<Rightarrow> string \<Rightarrow> string list" where
  "split_at sep s = split_at_from sep [] s"

definition startswith :: "string \<Rightarrow> string \<Rightarrow> bool" where
  "startswith s p \<longleftrightarrow> take (length p) s = p"

text \<open>
  Regular expressions without groups, matched by derivatives.  \<open>Sym P\<close> is a character
  class, given by its membership test.
\<close>

datatype rexp =
    Zero
  | Eps
  | Sym "char \<Rightarrow> bool"
  | Alt rexp rexp
  | Seq rexp rexp
  | Star rexp

primrec nullable :: "rexp \<Rightarrow> bool" where
  "nullable Zero = False"
| "nullable Eps = True"
| "nullable (Sym P) = False"
| "nullable (Alt r s) = (nullable r \<or> nullable s)"
| "nullable (Seq r s) = (nullable r \<and> nullable s)"
| "nullable (Star r) = True"

primrec deriv :: "char \<Rightarrow> rexp \<Rightarrow> rexp" where
  "deriv c Zero = Zero"
| "deriv c Eps = Zero"
| "deriv c (Sym P) = (if P c then Eps else Zero)"
| "deriv c (Alt r s) = Alt (deriv c r) (deriv c s)"
| "deriv c (Seq r s) =
     Alt (Seq (deriv c r) s) (if nullable r then deriv c s else Zero)"
| "deriv c (Star r) = Seq (deriv c r) (Star r)"

primrec fullmatch :: "rexp \<Rightarrow> string \<Rightarrow> bool" where
  "fullmatch r [] = nullable r"
| "fullmatch r (c # cs) = fullmatch (deriv c r) cs"

text \<open>The postfix operators of the patterns: \<^verbatim>\<open>?\<close>, \<^verbatim>\<open>+\<close>, \<^verbatim>\<open>{n}\<close> and \<^verbatim>\<open>{0,n}\<close>.\<close>

definition Opt :: "rexp \<Rightarrow> rexp" where
  "Opt r = Alt r Eps"

definition Plus :: "rexp \<Rightarrow> rexp" where
  "Plus r = Seq r (Star r)"

primrec Times :: "nat \<Rightarrow> rexp \<Rightarrow> rexp" where
  "Times 0 r = Eps"
| "Times (Suc n) r = Seq r (Times n r)"

primrec Upto :: "nat \<Rightarrow> rexp \<Rightarrow> rexp" where
  "Upto 0 r = Eps"
| "Upto (Suc n) r = Opt (Seq r (Upto n r))"

text \<open>
  \<^verbatim>\<open>pattern.match(s)\<close> for a pattern of the shape \<^verbatim>\<open>^r$\<close>: the whole of \<open>s\<close> matches
  \<open>r\<close>, or \<open>s\<close> ends in a newline and the rest matches (\<^verbatim>\<open>$\<close> also matches just before
  a final newline).
\<close>

definition match_anchored :: "rexp \<Rightarrow> string \<Rightarrow> bool" where
  "match_anchored r s \<longleftrightarrow>
     fullmatch r s \<or> (s \<noteq> [] \<and> last s = CHR 0x0A \<and> fullmatch r (butlast s))"

text \<open>The classes \<^verbatim>\<open>(\d|[A-Z])\<close>, \<^verbatim>\<open>[A-Z0-9]\<close> and \<^verbatim>\<open>\/\<close>.\<close>

definition alnum :: rexp where
  "alnum = Sym (\<lambda>c. isdigit c \<or> isupper_AZ c)"

definition slash :: rexp where
  "slash = Sym (\<lambda>c. c = CHR ''/'')"

text \<open>
  \<^verbatim>\<open>re_full_callsign = ^((\d|[A-Z])+\/)?([A-Z0-9]{1,3}[0-9][A-Z0-9]{0,3}[A-Z])(\/(\d|[A-Z])+)?(\/(\d|[A-Z])+)?$\<close>
\<close>

definition re_full_callsign :: rexp where
  "re_full_callsign =
     Seq (Opt (Seq (Plus alnum) slash))
      (Seq (Seq (Seq alnum (Upto 2 alnum))
             (Seq (Sym isdigit) (Seq (Upto 3 alnum) (Sym isupper_AZ))))
        (Seq (Opt (Seq slash (Plus alnum))) (Opt (Seq slash (Plus alnum)))))"

text \<open>\<^verbatim>\<open>re_indicator = ^(\d{3})$|^([A-Z]{1,4})$\<close>\<close>

definition re_indicator :: rexp where
  "re_indicator =
     Alt (Times 3 (Sym isdigit)) (Seq (Sym isupper_AZ) (Upto 3 (Sym isupper_AZ)))"

text \<open>\<^verbatim>\<open>re_grid = ^[A-R][A-R]\d{2}$\<close>\<close>

definition re_grid :: rexp where
  "re_grid = Seq (Sym isupper_AR) (Seq (Sym isupper_AR) (Times 2 (Sym isdigit)))"

section \<open>Country/zone resolver: class CTY\<close>

text \<open>
  The dictionaries of the class are association lists in insertion order, read with
  \<^const>\<open>map_of\<close>; a key is only ever added when it is absent.  The three \<^verbatim>\<open>float\<close>
  entries are carried unchanged from the country line to the result, so their type is
  the parameter \<open>'f\<close>.
\<close>

record 'f country_data =
  cd_cq :: string
  cd_itu :: string
  cd_continent :: string
  cd_lat :: 'f
  cd_lon :: 'f
  cd_gmtoff :: 'f
  cd_pfx :: string

record 'f info_data =
  country :: string
  cq :: string
  itu :: string
  continent :: string
  lat :: 'f
  lon :: 'f
  gmtoff :: 'f

record 'f CTY =
  exact_callsign :: "(string \<times> 'f info_data) list"
  prefix :: "(string \<times> 'f info_data) list"
  prf_max :: nat
  countries :: "(string \<times> 'f country_data) list"

datatype py_error =
    AssertionError
  | KeyError
  | IndexError
  | ZeroDivisionError
  | OverflowError
  | ValueError string
  | TypeError
  | AttributeError
  | StructError
  | UnicodeDecodeError
  | UnicodeEncodeError

text \<open>The tables of \<^verbatim>\<open>__init__\<close> before the first line of the file is read.\<close>

definition CTY_init :: "'f CTY" where
  "CTY_init = \<lparr>exact_callsign = [], prefix = [], prf_max = 0, countries = []\<rparr>"

text \<open>
  \<^verbatim>\<open>re_callsign = (\=)?([A-Z0-9/]+)(\(\d+\))?(\[\d+\])?\<close>, matched at the start of
  a token with \<^verbatim>\<open>match\<close>; the result is the four groups.  \<open>bracketed\<close> reads one of
  the two optional groups: an opening character, one or more digits, the closing one.
\<close>

definition bracketed :: "char \<Rightarrow> char \<Rightarrow> string \<Rightarrow> string option \<times> string" where
  "bracketed opn cls s =
     (case s of
        [] \<Rightarrow> (None, s)
      | c # r \<Rightarrow>
          (if c = opn then
             (let ds = takeWhile isdigit r; r' = dropWhile isdigit r
              in (case r' of
                    [] \<Rightarrow> (None, s)
                  | e # r'' \<Rightarrow>
                      (if ds \<noteq> [] \<and> e = cls then (Some (opn # ds @ [cls]), r'') else (None, s))))
           else (None, s)))"

definition callsign_char :: "char \<Rightarrow> bool" where
  "callsign_char c \<longleftrightarrow> isupper_AZ c \<or> isdigit c \<or> c = CHR ''/''"

definition re_callsign_match ::
  "string \<Rightarrow> (string option \<times> string \<times> string option \<times> string option) option" where
  "re_callsign_match s =
     (let (full_callsign, s1) =
            (case s of c # r \<Rightarrow> if c = CHR ''='' then (Some ''='', r) else (None, s)
                     | [] \<Rightarrow> (None, s));
          callsign = takeWhile callsign_char s1;
          s2 = dropWhile callsign_char s1
      in if callsign = [] then None
         else (let (g_cq, s3) = bracketed (CHR ''('') (CHR '')'') s2;
                   (g_itu, s4) = bracketed (CHR ''['') (CHR '']'') s3
               in Some (full_callsign, callsign, g_cq, g_itu)))"

text \<open>The slice \<^verbatim>\<open>g[1:-1]\<close>.\<close>

definition strip_brackets :: "string \<Rightarrow> string" where
  "strip_brackets g = butlast (tl g)"

text \<open>The body of the loop of \<^verbatim>\<open>parse_alias_line\<close> for one token \<open>pfx\<close>.\<close>

definition new_entry ::
  "string \<Rightarrow> 'f country_data \<Rightarrow> string option \<Rightarrow> string option \<Rightarrow> 'f info_data" where
  "new_entry cname c_data g_cq g_itu =
     \<lparr>country = cname,
      cq = (case g_cq of None \<Rightarrow> cd_cq c_data | Some g \<Rightarrow> strip_brackets g),
      itu = (case g_itu of None \<Rightarrow> cd_itu c_data | Some g \<Rightarrow> strip_brackets g),
      continent = cd_continent c_data,
      lat = cd_lat c_data,
      lon = cd_lon c_data,
      gmtoff = cd_gmtoff c_data\<rparr>"

definition add_alias ::
  "string \<Rightarrow> 'f country_data \<Rightarrow> 'f CTY \<Rightarrow> string \<Rightarrow> py_error + 'f CTY" where
  "add_alias cname c_data self pfx =
     (case re_callsign_match pfx of
        None \<Rightarrow> Inl AssertionError
      | Some (full_callsign, callsign, g_cq, g_itu) \<Rightarrow>
          (let l = length callsign;
               self1 = (if l > prf_max self then self\<lparr>prf_max := l\<rparr> else self)
           in if full_callsign \<noteq> None then
                (if map_of (exact_callsign self1) callsign = None then
                   Inr (self1\<lparr>exact_callsign :=
                          exact_callsign self1 @ [(callsign, new_entry cname c_data g_cq g_itu)]\<rparr>)
                 else Inr self1)
              else
                (if map_of (prefix self1) callsign = None then
                   Inr (self1\<lparr>prefix :=
                          prefix self1 @ [(callsign, new_entry cname c_data g_cq g_itu)]\<rparr>)
                 else Inr self1)))"

fun add_aliases ::
  "string \<Rightarrow> 'f country_data \<Rightarrow> 'f CTY \<Rightarrow> string list \<Rightarrow> py_error + 'f CTY" where
  "add_aliases cname c_data self [] = Inr self"
| "add_aliases cname c_data self (pfx # pfxs) =
     (case add_alias cname c_data self pfx of
        Inl e \<Rightarrow> Inl e
      | Inr self' \<Rightarrow> add_aliases cname c_data self' pfxs)"

definition parse_alias_line :: "'f CTY \<Rightarrow> string \<Rightarrow> string \<Rightarrow> py_error + 'f CTY" where
  "parse_alias_line self cname line_text =
     (case map_of (countries self) cname of
        None \<Rightarrow> Inl KeyError
      | Some c_data \<Rightarrow> add_aliases cname c_data self (split_at (CHR '','') line_text))"

text \<open>
  \<^verbatim>\<open>callsign_lookup\<close>: the exact table first, then the prefixes \<^verbatim>\<open>callsign[:n+1]\<close> for
  \<open>n\<close> in \<^verbatim>\<open>reversed(range(prf_max))\<close>.
\<close>

fun prefix_scan :: "(string \<times> 'f info_data) list \<Rightarrow> string \<Rightarrow> nat list \<Rightarrow> 'f info_data option" where
  "prefix_scan tbl callsign [] = None"
| "prefix_scan tbl callsign (n # ns) =
     (case map_of tbl (take (n + 1) callsign) of
        Some e \<Rightarrow> Some e
      | None \<Rightarrow> prefix_scan tbl callsign ns)"

definition callsign_lookup :: "'f CTY \<Rightarrow> string \<Rightarrow> 'f info_data option" where
  "callsign_lookup self callsign =
     (case map_of (exact_callsign self) callsign of
        Some e \<Rightarrow> Some e
      | None \<Rightarrow> prefix_scan (prefix self) callsign (rev [0..<prf_max self]))"

text \<open>
  \<^verbatim>\<open>__init__\<close> reads the file line by line; \<^verbatim>\<open>parse_country_line\<close> converts three
  fields with \<^verbatim>\<open>float\<close>, here the parameter \<open>float\<close> (\<open>None\<close> where Python raises
  ValueError).  Python's message goes on with the text of the field that is not a number;
  the error value here carries the fixed part of the message.
\<close>

fun dict_set :: "'k \<Rightarrow> 'v \<Rightarrow> ('k \<times> 'v) list \<Rightarrow> ('k \<times> 'v) list" where
  "dict_set k v [] = [(k, v)]"
| "dict_set k v ((k', v') # d) = (if k' = k then (k, v) # d else (k', v') # dict_set k v d)"

definition lstrip :: "string \<Rightarrow> string" where
  "lstrip s = dropWhile isspace s"

definition rstrip :: "string \<Rightarrow> string" where
  "rstrip s = rev (dropWhile isspace (rev s))"

definition strip :: "string \<Rightarrow> string" where
  "strip s = lstrip (rstrip s)"

definition rstrip_char :: "char \<Rightarrow> string \<Rightarrow> string" where
  "rstrip_char c s = rev (dropWhile (\<lambda>x. x = c) (rev s))"

definition endswith :: "string \<Rightarrow> char \<Rightarrow> bool" where
  "endswith s c \<longleftrightarrow> s \<noteq> [] \<and> last s = c"

definition parse_country_line ::
  "(string \<Rightarrow> 'f option) \<Rightarrow> string \<Rightarrow> py_error + (string \<times> 'f country_data)" where
  "parse_country_line float line_text =
     (let l = map lstrip (split_at (CHR '':'') line_text);
          bad = Inl (ValueError ''could not convert string to float'')
      in if length l < 5 then Inl IndexError
         else (case float (l ! 4) of
                 None \<Rightarrow> bad
               | Some la \<Rightarrow>
                   if length l < 6 then Inl IndexError
                   else (case float (l ! 5) of
                           None \<Rightarrow> bad
                         | Some lo \<Rightarrow>
                             if length l < 7 then Inl IndexError
                             else (case float (l ! 6) of
                                     None \<Rightarrow> bad
                                   | Some off \<Rightarrow>
                                       if length l < 8 then Inl IndexError
                                       else Inr (l ! 0,
                                              \<lparr>cd_cq = l ! 1, cd_itu = l ! 2,
                                               cd_continent = l ! 3, cd_lat = la, cd_lon = lo,
                                               cd_gmtoff = off, cd_pfx = l ! 7\<rparr>)))))"

fun read_lines ::
  "(string \<Rightarrow> 'f option) \<Rightarrow> 'f CTY \<Rightarrow> string option \<Rightarrow> string \<Rightarrow> string list \<Rightarrow> py_error + 'f CTY" where
  "read_lines float self current_country alias_lines [] = Inr self"
| "read_lines float self current_country alias_lines (line0 # f) =
     (let line = strip line0
      in case current_country of
           None \<Rightarrow>
             if \<not> endswith line (CHR '':'') then Inl AssertionError
             else (case parse_country_line float (rstrip_char (CHR '':'') line) of
                     Inl e \<Rightarrow> Inl e
                   | Inr (cname, cdata) \<Rightarrow>
                       read_lines float (self\<lparr>countries := dict_set cname cdata (countries self)\<rparr>)
                         (Some cname) alias_lines f)
         | Some cname \<Rightarrow>
             if endswith line (CHR '':'') then Inl AssertionError
             else if endswith line (CHR '';'') then
               (case parse_alias_line self cname (alias_lines @ rstrip_char (CHR '';'') line) of
                  Inl e \<Rightarrow> Inl e
                | Inr self' \<Rightarrow> read_lines float self' None [] f)
             else if \<not> endswith line (CHR '','') then Inl AssertionError
             else read_lines float self current_country (alias_lines @ line) f)"

definition CTY_new :: "(string \<Rightarrow> 'f option) \<Rightarrow> string list \<Rightarrow> py_error + 'f CTY" where
  "CTY_new float f = read_lines float CTY_init None [] f"

section \<open>Message classifier: \<^verbatim>\<open>CTY.parse_wsjtx_decode_msg\<close>\<close>

text \<open>The dictionary \<^verbatim>\<open>pm\<close> the classifier returns.\<close>

record 'f parsed_msg =
  ERROR :: "string option"
  raw_message :: "string option"
  mtype :: string
  caller :: "string option"
  pm_country :: "string option"
  zone_cq :: "string option"
  zone_itu :: "string option"
  pm_continent :: "string option"
  pm_lat :: "'f option"
  pm_lon :: "'f option"
  pm_gmtoff :: "'f option"
  grid :: "string option"
  peer :: "string option"

definition pm_init :: "string option \<Rightarrow> 'f parsed_msg" where
  "pm_init msg =
     \<lparr>ERROR = None, raw_message = msg, mtype = ''UNKNOWN'', caller = None,
      pm_country = None, zone_cq = None, zone_itu = None, pm_continent = None,
      pm_lat = None, pm_lon = None, pm_gmtoff = None, grid = None, peer = None\<rparr>"

definition unknown_message :: "string \<Rightarrow> 'f parsed_msg \<Rightarrow> 'f parsed_msg" where
  "unknown_message msg pm = pm\<lparr>ERROR := Some (''Unknown message: '' @ msg)\<rparr>"

text \<open>The caller and, when the resolver knows it, the seven entries of its record.\<close>

definition set_caller :: "'f CTY \<Rightarrow> string \<Rightarrow> 'f parsed_msg \<Rightarrow> 'f parsed_msg" where
  "set_caller self c pm =
     (let pm1 = pm\<lparr>caller := Some c\<rparr>
      in case callsign_lookup self c of
           None \<Rightarrow> pm1
         | Some info \<Rightarrow>
             pm1\<lparr>pm_country := Some (country info), zone_cq := Some (cq info),
                 zone_itu := Some (itu info), pm_continent := Some (continent info),
                 pm_lat := Some (lat info), pm_lon := Some (lon info),
                 pm_gmtoff := Some (gmtoff info)\<rparr>)"

text \<open>Lines 260 to 286: \<open>l\<close> is what is left after the keyword and the indicator.\<close>

definition parse_call_tail :: "'f CTY \<Rightarrow> string \<Rightarrow> 'f parsed_msg \<Rightarrow> string list \<Rightarrow> 'f parsed_msg" where
  "parse_call_tail self msg pm l =
     (case l of
        [] \<Rightarrow> unknown_message msg pm
      | c # l1 \<Rightarrow>
          (if match_anchored re_full_callsign c then
             (let pm1 = set_caller self c pm
              in case l1 of
                   [] \<Rightarrow> pm1
                 | p # l2 \<Rightarrow>
                     (if match_anchored re_full_callsign p then
                        (let pm2 = pm1\<lparr>peer := Some p\<rparr>
                         in case l2 of
                              [] \<Rightarrow> pm2
                            | g # _ \<Rightarrow> if match_anchored re_grid g then pm2\<lparr>grid := Some g\<rparr> else pm2)
                      else if match_anchored re_grid p then pm1\<lparr>grid := Some p\<rparr>
                      else pm1))
           else unknown_message msg pm))"

text \<open>Lines 247 to 259: the keyword, then an optional indicator.\<close>

definition parse_call :: "'f CTY \<Rightarrow> string \<Rightarrow> 'f parsed_msg \<Rightarrow> string \<Rightarrow> string list \<Rightarrow> 'f parsed_msg" where
  "parse_call self msg pm kw l =
     (let pm1 = pm\<lparr>mtype := kw\<rparr>
      in case l of
           [] \<Rightarrow> unknown_message msg pm1
         | i # l1 \<Rightarrow>
             (if match_anchored re_indicator i then
                (if l1 = [] then unknown_message msg pm1
                 else parse_call_tail self msg pm1 l1)
              else parse_call_tail self msg pm1 (i # l1)))"

text \<open>Lines 288 to 315: a reply, or free text.\<close>

definition parse_reply :: "'f CTY \<Rightarrow> 'f parsed_msg \<Rightarrow> string list \<Rightarrow> 'f parsed_msg" where
  "parse_reply self pm l =
     (case l of
        c # p # l2 \<Rightarrow>
          (if match_anchored re_full_callsign c then
             (let pm1 = set_caller self c pm
              in if match_anchored re_full_callsign p then
                   (let pm2 = pm1\<lparr>peer := Some p, mtype := ''REPLAY''\<rparr>
                    in case l2 of
                         [] \<Rightarrow> pm2
                       | g # _ \<Rightarrow>
                           if match_anchored re_grid g \<and> g \<noteq> ''RR73''
                           then pm2\<lparr>grid := Some g\<rparr> else pm2)
                 else if match_anchored re_grid p then pm1\<lparr>grid := Some p\<rparr>
                 else pm1)
           else pm)
      | _ \<Rightarrow> pm)"

text \<open>Lines 238 to 240: the marginal-decode token at the end is dropped.\<close>

definition strip_marginal :: "string list \<Rightarrow> string list" where
  "strip_marginal l =
     (if l \<noteq> [] \<and> (startswith (last l) ''a'' \<or> last l = ''?'') then butlast l else l)"

definition parse_wsjtx_decode_msg :: "'f CTY \<Rightarrow> string option \<Rightarrow> 'f parsed_msg" where
  "parse_wsjtx_decode_msg self msg0 =
     (let pm = pm_init msg0
      in case msg0 of
           None \<Rightarrow> pm\<lparr>ERROR := Some ''empty message''\<rparr>
         | Some msg \<Rightarrow>
             if length msg = 0 then pm\<lparr>ERROR := Some ''empty message''\<rparr>
             else if CHR '';'' \<in> set msg then unknown_message msg pm
             else if length (split msg) < 1 then unknown_message msg pm
             else (case strip_marginal (split msg) of
                     [] \<Rightarrow> unknown_message msg pm
                   | t # l1 \<Rightarrow>
                       if t \<in> set [''CQ'', ''QRZ'', ''DE'']
                       then parse_call self msg pm t l1
                       else parse_reply self pm (t # l1)))"

section \<open>Aggregation engine: \<^verbatim>\<open>Data_Server.save_monitor_data\<close>\<close>

text \<open>
  The dataclasses of \<^verbatim>\<open>data_server.py\<close>.  Field names that other records of this theory
  already use carry a prefix (\<open>msg_\<close>, \<open>mr_\<close>, \<open>hr_\<close>, \<open>g_\<close>).  The \<^verbatim>\<open>float\<close> fields
  are carried unchanged, their type is the parameter \<open>'f\<close>.  \<^verbatim>\<open>Minutes_Record.messages\<close>
  is a JSON string of the message list; it is modelled as the list it encodes.
\<close>

record 'f Monitor_Message =
  gtime :: int
  raw :: string
  msg_snr :: int
  dt :: 'f
  df :: int
  lf :: bool
  msg_mtype :: string
  msg_caller :: "string option"
  msg_country :: "string option"
  msg_cq :: "string option"
  msg_itu :: "string option"
  msg_continent :: "string option"
  msg_lat :: "'f option"
  msg_lon :: "'f option"
  msg_gmtoff :: "'f option"
  msg_grid :: "string option"
  msg_peer :: "string option"

record 'f Minutes_Record =
  mr_ctime :: int
  mr_monitor :: string
  mr_band :: string
  mr_messages :: "'f Monitor_Message list"
  mr_total :: int
  mr_snr :: int
  mr_countries :: "(string \<times> int) list"
  mr_cqs :: "(string \<times> int) list"
  mr_callers :: "(string \<times> int) list"

record Hours_Record =
  hr_ctime :: int
  hr_monitor :: string
  hr_band :: string
  hr_total :: int
  hr_snr :: int
  hr_countries :: "(string \<times> int) list"
  hr_cqs :: "(string \<times> int) list"

text \<open>The dictionary \<^verbatim>\<open>minutes[mt]\<close> that \<^verbatim>\<open>save_monitor_data\<close> builds per minute.\<close>

record 'f minute_group =
  g_messages :: "'f Monitor_Message list"
  g_total :: int
  g_snr :: int
  g_countries :: "(string \<times> int) list"
  g_cqs :: "(string \<times> int) list"
  g_callers :: "(string \<times> int) list"

text \<open>
  The persistence port.  The four \<^verbatim>\<open>db_\<close> methods are abstract in \<^verbatim>\<open>Data_Server\<close>; they
  are modelled after their docstrings on two tables of rows: an upsert replaces the row
  with the same time, monitor and band or adds a row, a read returns the rows of the
  monitor and band whose time lies in the closed interval.  Storage errors are not
  modelled.
\<close>

record 'f Data_Server =
  tb_minutes :: "'f Minutes_Record list"
  tb_hours :: "Hours_Record list"

text \<open>
  \<^verbatim>\<open>round(a / b)\<close> for integers \<open>a\<close> and \<open>b\<close>, in the two steps that Python takes.

  The division \<^verbatim>\<open>a / b\<close> raises ZeroDivisionError for \<open>b = 0\<close>.  Otherwise its result is
  the double nearest to the quotient, a tie going to the even significand, and
  OverflowError if that double would be \<open>2 ^ 1024\<close> or more.  A double is \<open>m * 2 ^ e\<close> with
  an integer \<open>m\<close> of at most 53 bits and \<open>- 1074 \<le> e\<close>: with \<open>k\<close> the binary exponent of
  the quotient, \<open>2 ^ k \<le> \<bar>a\<bar> / \<bar>b\<bar> < 2 ^ (k + 1)\<close>, the exponent of the last place is
  \<open>e = max (k - 52) (- 1074)\<close> and \<open>m\<close> is the quotient divided by \<open>2 ^ e\<close>, rounded.

  Then \<^verbatim>\<open>round\<close> returns the integer nearest to that double, a tie going to the even
  integer.

  \<open>round_half_even n d\<close> is the integer nearest to \<open>n / d\<close> for \<open>0 < d\<close>, a tie going to
  the even one; \<open>bit_length\<close> is \<^verbatim>\<open>int.bit_length\<close> on the positive integers.
\<close>

definition round_half_even :: "int \<Rightarrow> int \<Rightarrow> int" where
  "round_half_even n d =
     (let q = n div d; r = n mod d
      in if 2 * r < d then q
         else if 2 * r > d then q + 1
         else if even q then q else q + 1)"

function bit_length :: "int \<Rightarrow> nat" where
  "bit_length n = (if n \<le> 0 then 0 else Suc (bit_length (n div 2)))"
  by pat_completeness auto
termination
  by (relation "measure nat") auto

declare bit_length.simps [simp del]

definition py_round_div :: "int \<Rightarrow> int \<Rightarrow> py_error + int" where
  "py_round_div a b =
     (if b = 0 then Inl ZeroDivisionError
      else if a = 0 then Inr 0
      else
        (let n = \<bar>a\<bar>; d = \<bar>b\<bar>;
             s = (if (a < 0) \<noteq> (b < 0) then - 1 else 1);
             k0 = int (bit_length n) - int (bit_length d);
             k = (if n * 2 ^ nat (- k0) < d * 2 ^ nat k0 then k0 - 1 else k0);
             e = max (k - 52) (- 1074);
             m = round_half_even (n * 2 ^ nat (- e)) (d * 2 ^ nat e)
         in if 0 \<le> e then
              (if 2 ^ 1024 \<le> m * 2 ^ nat e then Inl OverflowError
               else Inr (s * (m * 2 ^ nat e)))
            else Inr (s * round_half_even m (2 ^ nat (- e)))))"

definition db_upsert_minute ::
  "string \<Rightarrow> string \<Rightarrow> 'f Minutes_Record \<Rightarrow> 'f Data_Server \<Rightarrow> 'f Data_Server" where
  "db_upsert_minute monitor band data self =
     (let same = (\<lambda>row. mr_ctime row = mr_ctime data \<and> mr_monitor row = mr_monitor data \<and>
                         mr_band row = mr_band data)
      in if list_ex same (tb_minutes self)
         then self\<lparr>tb_minutes := map (\<lambda>row. if same row then data else row) (tb_minutes self)\<rparr>
         else self\<lparr>tb_minutes := tb_minutes self @ [data]\<rparr>)"

definition db_read_minutes ::
  "'f Data_Server \<Rightarrow> string \<Rightarrow> string \<Rightarrow> int \<Rightarrow> int \<Rightarrow> 'f Minutes_Record list" where
  "db_read_minutes self monitor band begin end =
     filter (\<lambda>row. begin \<le> mr_ctime row \<and> mr_ctime row \<le> end \<and>
                    mr_monitor row = monitor \<and> mr_band row = band) (tb_minutes self)"

definition db_upsert_hour ::
  "string \<Rightarrow> string \<Rightarrow> Hours_Record \<Rightarrow> 'f Data_Server \<Rightarrow> 'f Data_Server" where
  "db_upsert_hour monitor band data self =
     (let same = (\<lambda>row. hr_ctime row = hr_ctime data \<and> hr_monitor row = hr_monitor data \<and>
                         hr_band row = hr_band data)
      in if list_ex same (tb_hours self)
         then self\<lparr>tb_hours := map (\<lambda>row. if same row then data else row) (tb_hours self)\<rparr>
         else self\<lparr>tb_hours := tb_hours self @ [data]\<rparr>)"

definition db_read_hours ::
  "'f Data_Server \<Rightarrow> string \<Rightarrow> string \<Rightarrow> int \<Rightarrow> int \<Rightarrow> Hours_Record list" where
  "db_read_hours self monitor band begin end =
     filter (\<lambda>row. begin \<le> hr_ctime row \<and> hr_ctime row \<le> end \<and>
                    hr_monitor row = monitor \<and> hr_band row = band) (tb_hours self)"

definition fetch_in_minutes ::
  "'f Data_Server \<Rightarrow> string \<Rightarrow> string \<Rightarrow> int \<Rightarrow> int \<Rightarrow> 'f Minutes_Record list" where
  "fetch_in_minutes self monitor band begin end =
     db_read_minutes self monitor band
       (if begin mod 60 = 0 then begin else begin - begin mod 60)
       (if end mod 60 = 0 then end else end - end mod 60)"

definition fetch_in_hours ::
  "'f Data_Server \<Rightarrow> string \<Rightarrow> string \<Rightarrow> int \<Rightarrow> int \<Rightarrow> Hours_Record list" where
  "fetch_in_hours self monitor band begin end =
     db_read_hours self monitor band
       (if begin mod 3600 = 0 then begin else begin - begin mod 3600)
       (if end mod 3600 = 0 then end else end - end mod 3600)"

text \<open>
  Counter updates: \<^verbatim>\<open>d[k] = 1 if d.get(k) is None else d[k] + 1\<close>, the same under
  \<^verbatim>\<open>if k is not None\<close>, and the loop
  \<^verbatim>\<open>for k, n in items: d[k] = n if d.get(k) is None else d[k] + n\<close>.
\<close>

definition count_one :: "string \<Rightarrow> (string \<times> int) list \<Rightarrow> (string \<times> int) list" where
  "count_one k d = dict_set k (case map_of d k of None \<Rightarrow> 1 | Some n \<Rightarrow> n + 1) d"

definition count_opt :: "string option \<Rightarrow> (string \<times> int) list \<Rightarrow> (string \<times> int) list" where
  "count_opt k d = (case k of None \<Rightarrow> d | Some k' \<Rightarrow> count_one k' d)"

fun add_counts :: "(string \<times> int) list \<Rightarrow> (string \<times> int) list \<Rightarrow> (string \<times> int) list" where
  "add_counts [] d = d"
| "add_counts ((k, n) # items) d =
     add_counts items (dict_set k (case map_of d k of None \<Rightarrow> n | Some m \<Rightarrow> m + n) d)"

text \<open>Lines 106 to 130: the messages with a caller, grouped by minute.\<close>

definition group_message ::
  "'f Monitor_Message \<Rightarrow> (int \<times> 'f minute_group) list \<times> int \<times> int \<Rightarrow>
     (int \<times> 'f minute_group) list \<times> int \<times> int" where
  "group_message msg st =
     (case st of (minutes, m_begin, m_end) \<Rightarrow>
        (case msg_caller msg of
           None \<Rightarrow> st
         | Some c \<Rightarrow>
             (let mt = gtime msg - gtime msg mod 60;
                  m_begin' = (if m_begin = 0 then mt else min m_begin mt);
                  m_end' = (if m_end = 0 then mt else max m_end mt)
              in case map_of minutes mt of
                   None \<Rightarrow>
                     (minutes @
                        [(mt, \<lparr>g_messages = [msg], g_total = 1, g_snr = msg_snr msg,
                                g_countries = count_opt (msg_country msg) [],
                                g_cqs = count_opt (msg_cq msg) [],
                                g_callers = count_one c []\<rparr>)],
                      m_begin', m_end')
                 | Some d \<Rightarrow>
                     (dict_set mt
                        (d\<lparr>g_messages := g_messages d @ [msg], g_total := g_total d + 1,
                            g_snr := g_snr d + msg_snr msg,
                            g_callers := count_one c (g_callers d),
                            g_countries := count_opt (msg_country msg) (g_countries d),
                            g_cqs := count_opt (msg_cq msg) (g_cqs d)\<rparr>) minutes,
                      m_begin', m_end'))))"

definition group_messages ::
  "'f Monitor_Message list \<Rightarrow> (int \<times> 'f minute_group) list \<times> int \<times> int" where
  "group_messages data = foldl (\<lambda>st msg. group_message msg st) ([], 0, 0) data"

text \<open>Lines 132 to 184: the minutes table.  \<open>merge_minute\<close> is lines 168 to 182.\<close>

definition idle_minute :: "string \<Rightarrow> string \<Rightarrow> int \<Rightarrow> 'f Minutes_Record" where
  "idle_minute monitor band t =
     \<lparr>mr_ctime = t, mr_monitor = monitor, mr_band = band, mr_messages = [], mr_total = 0,
      mr_snr = 0, mr_countries = [], mr_cqs = [], mr_callers = []\<rparr>"

definition merge_minute :: "'f Minutes_Record \<Rightarrow> 'f minute_group \<Rightarrow> py_error + 'f Minutes_Record" where
  "merge_minute dbrec r =
     (case py_round_div (mr_snr dbrec * mr_total dbrec + g_snr r * g_total r)
             (mr_total dbrec + g_total r) of
        Inl e \<Rightarrow> Inl e
      | Inr snr \<Rightarrow>
          Inr (dbrec\<lparr>
            mr_messages := mr_messages dbrec @ g_messages r,
            mr_snr := snr,
            mr_total := mr_total dbrec + g_total r,
            mr_countries := add_counts (g_countries r) (mr_countries dbrec),
            mr_cqs := add_counts (g_cqs r) (mr_cqs dbrec),
            mr_callers := add_counts (g_callers r) (mr_callers dbrec)\<rparr>))"

definition save_minute ::
  "string \<Rightarrow> string \<Rightarrow> int \<Rightarrow> 'f minute_group \<Rightarrow> 'f Data_Server \<Rightarrow>
     py_error + ('f minute_group \<times> 'f Data_Server)" where
  "save_minute monitor band mt r0 self =
     (case py_round_div (g_snr r0) (g_total r0) of
        Inl e \<Rightarrow> Inl e
      | Inr snr \<Rightarrow>
        (let r = r0\<lparr>g_snr := snr\<rparr>
         in case fetch_in_minutes self monitor band mt mt of
              [] \<Rightarrow>
                Inr (r, db_upsert_minute monitor band
                          \<lparr>mr_ctime = mt, mr_monitor = monitor, mr_band = band,
                           mr_messages = g_messages r, mr_total = g_total r, mr_snr = g_snr r,
                           mr_countries = g_countries r, mr_cqs = g_cqs r,
                           mr_callers = g_callers r\<rparr> self)
            | dbrec # _ \<Rightarrow>
                (case merge_minute dbrec r of
                   Inl e \<Rightarrow> Inl e
                 | Inr dbrec' \<Rightarrow> Inr (r, db_upsert_minute monitor band dbrec' self))))"

fun save_minutes ::
  "string \<Rightarrow> string \<Rightarrow> (int \<times> 'f minute_group) list \<Rightarrow> 'f Data_Server \<Rightarrow>
     (py_error \<times> 'f Data_Server) + ((int \<times> 'f minute_group) list \<times> 'f Data_Server)" where
  "save_minutes monitor band [] self = Inr ([], self)"
| "save_minutes monitor band ((mt, r0) # items) self =
     (case save_minute monitor band mt r0 self of
        Inl e \<Rightarrow> Inl (e, self)
      | Inr (r, self1) \<Rightarrow>
          (case save_minutes monitor band items self1 of
             Inl x \<Rightarrow> Inl x
           | Inr (rs, self2) \<Rightarrow> Inr ((mt, r) # rs, self2)))"

text \<open>
  Lines 186 to 237: the hours table.  \<open>fold_hour\<close> is the body of the loop that builds
  \<^verbatim>\<open>hr_nm\<close>, \<open>save_hour\<close> the body of the loop that writes it.
\<close>

definition fold_hour ::
  "string \<Rightarrow> string \<Rightarrow> int \<Rightarrow> 'f minute_group \<Rightarrow> (int \<times> Hours_Record) list \<Rightarrow>
     py_error + (int \<times> Hours_Record) list" where
  "fold_hour monitor band mt r hr_nm =
     (let r_hour = mt - mt mod 3600;
          c0 = (case map_of hr_nm r_hour of
                  None \<Rightarrow> \<lparr>hr_ctime = r_hour, hr_monitor = monitor, hr_band = band, hr_total = 0,
                            hr_snr = 0, hr_countries = [], hr_cqs = []\<rparr>
                | Some c \<Rightarrow> c);
          c1 = c0\<lparr>hr_total := hr_total c0 + g_total r\<rparr>
      in case py_round_div (hr_snr c1 * hr_total c1 + g_snr r * g_total r)
                (hr_total c1 + g_total r) of
           Inl e \<Rightarrow> Inl e
         | Inr snr \<Rightarrow>
             Inr (dict_set r_hour
                (c1\<lparr>hr_snr := snr,
                     hr_countries := add_counts (g_countries r) (hr_countries c1),
                     hr_cqs := add_counts (g_cqs r) (hr_cqs c1)\<rparr>) hr_nm))"

fun fold_hours ::
  "string \<Rightarrow> string \<Rightarrow> (int \<times> 'f minute_group) list \<Rightarrow> (int \<times> Hours_Record) list \<Rightarrow>
     py_error + (int \<times> Hours_Record) list" where
  "fold_hours monitor band [] hr_nm = Inr hr_nm"
| "fold_hours monitor band ((mt, r) # items) hr_nm =
     (case fold_hour monitor band mt r hr_nm of
        Inl e \<Rightarrow> Inl e
      | Inr hr_nm' \<Rightarrow> fold_hours monitor band items hr_nm')"

definition save_hour ::
  "string \<Rightarrow> string \<Rightarrow> (int \<times> Hours_Record) list \<Rightarrow> int \<Rightarrow> Hours_Record \<Rightarrow>
     'f Data_Server \<Rightarrow> py_error + 'f Data_Server" where
  "save_hour monitor band hr_db r_hour c self =
     (case map_of hr_db r_hour of
        None \<Rightarrow> Inr (db_upsert_hour monitor band c self)
      | Some rec \<Rightarrow>
          (case py_round_div (hr_snr rec * hr_total rec + hr_snr c * hr_total c)
                  (hr_total rec + hr_total c) of
             Inl e \<Rightarrow> Inl e
           | Inr snr \<Rightarrow>
               Inr (db_upsert_hour monitor band
                 (rec\<lparr>hr_snr := snr,
                      hr_total := hr_total rec + hr_total c,
                      hr_countries := add_counts (hr_countries c) (hr_countries rec),
                      hr_cqs := add_counts (hr_cqs c) (hr_cqs rec)\<rparr>) self)))"

fun save_hours ::
  "string \<Rightarrow> string \<Rightarrow> (int \<times> Hours_Record) list \<Rightarrow> (int \<times> Hours_Record) list \<Rightarrow>
     'f Data_Server \<Rightarrow> py_error option \<times> 'f Data_Server" where
  "save_hours monitor band hr_db [] self = (None, self)"
| "save_hours monitor band hr_db ((r_hour, c) # items) self =
     (case save_hour monitor band hr_db r_hour c self of
        Inl e \<Rightarrow> (Some e, self)
      | Inr self' \<Rightarrow> save_hours monitor band hr_db items self')"

definition save_hours_table ::
  "string \<Rightarrow> string \<Rightarrow> int \<Rightarrow> (int \<times> 'f minute_group) list \<Rightarrow> 'f Data_Server \<Rightarrow>
     py_error option \<times> 'f Data_Server" where
  "save_hours_table monitor band m_begin0 minutes self =
     (let m_begin = m_begin0 - m_begin0 mod 3600;
          m_end = m_begin;
          recs = fetch_in_hours self monitor band m_begin m_end;
          hr_db = foldl (\<lambda>d r. dict_set (hr_ctime r) r d) [] recs
      in case fold_hours monitor band minutes [] of
           Inl e \<Rightarrow> (Some e, self)
         | Inr hr_nm \<Rightarrow>
             if length hr_nm = 0 then
               (if length hr_db = 0 then
                  (None, db_upsert_hour monitor band
                     \<lparr>hr_ctime = m_begin, hr_monitor = monitor, hr_band = band, hr_total = 0,
                      hr_snr = 0, hr_countries = [], hr_cqs = []\<rparr> self)
                else (None, self))
             else save_hours monitor band hr_db hr_nm self)"

text \<open>
  \<^verbatim>\<open>save_monitor_data\<close>; \<open>now\<close> is the value of \<^verbatim>\<open>int(time.time())\<close>.  The result is the
  error the method returns (as text in Python) and the tables it leaves behind.
\<close>

definition save_monitor_data ::
  "int \<Rightarrow> string \<Rightarrow> string \<Rightarrow> 'f Monitor_Message list \<Rightarrow> 'f Data_Server \<Rightarrow>
     py_error option \<times> 'f Data_Server" where
  "save_monitor_data now monitor band data self =
     (case group_messages data of (minutes, m_begin0, m_end0) \<Rightarrow>
        if length minutes = 0 then
          (let current_time = now;
               m_begin = current_time - current_time mod 60;
               m_end = m_begin;
               recs = fetch_in_minutes self monitor band m_begin m_end;
               self1 = (if length recs = 0
                        then db_upsert_minute monitor band (idle_minute monitor band m_begin) self
                        else self)
           in save_hours_table monitor band m_begin minutes self1)
        else
          (case save_minutes monitor band minutes self of
             Inl (e, self1) \<Rightarrow> (Some e, self1)
           | Inr (minutes', self1) \<Rightarrow> save_hours_table monitor band m_begin0 minutes' self1))"

section \<open>Telegram codec\<close>

text \<open>
  The codec of \<^verbatim>\<open>wsjtx_msg_server.py\<close>.  A \<^verbatim>\<open>bytes\<close> object is a list of 8-bit words.
  The values of telegram fields are Python objects: \<^verbatim>\<open>None\<close>, an \<^verbatim>\<open>int\<close>, a \<^verbatim>\<open>float\<close>
  (carried as its 64-bit IEEE pattern, which is all that \<^verbatim>\<open>pack\<close> and \<^verbatim>\<open>unpack\<close> use of
  it), a \<^verbatim>\<open>str\<close> (the list of its code points), a \<^verbatim>\<open>QDateTime\<close> and a \<^verbatim>\<open>QColor\<close>.
\<close>

type_synonym byte = "8 word"

datatype pyval =
    PNone
  | PInt int
  | PFloat "64 word"
  | PStr "nat list"
  | PQDateTime (qd_date: int) (qd_time: int) (qd_timespec: int) (qd_offset: "int option")
  | PQColor (qc_spec: int) (qc_alpha: int) (qc_red: int) (qc_green: int) (qc_blue: int)

text \<open>
  \<^verbatim>\<open>struct.pack\<close> and \<^verbatim>\<open>struct.unpack\<close> for one item in network byte order:
  \<^verbatim>\<open>!B !H !L !Q !l !q !d\<close>.  Both raise \<^verbatim>\<open>struct.error\<close>: \<open>pack\<close> on a value that is
  out of range or not a number, \<open>unpack\<close> on a buffer of the wrong length.  An \<^verbatim>\<open>int\<close>
  packed as \<^verbatim>\<open>!d\<close> is converted first: \<open>double_of_int\<close> is the bit pattern of the double
  nearest to the integer, a tie going to the even significand, and there is none
  (\<^verbatim>\<open>struct.error\<close>) when that double would be \<open>2 ^ 1024\<close> or more.
\<close>

definition double_of_int :: "int \<Rightarrow> 64 word option" where
  "double_of_int i =
     (if i = 0 then Some 0
      else
        (let n = \<bar>i\<bar>;
             k0 = int (bit_length n) - 1;
             m0 = round_half_even (n * 2 ^ nat (52 - k0)) (2 ^ nat (k0 - 52));
             k = (if m0 = 2 ^ 53 then k0 + 1 else k0);
             m = (if m0 = 2 ^ 53 then 2 ^ 52 else m0)
         in if 1024 \<le> k then None
            else Some (word_of_int
                   ((if i < 0 then 2 ^ 63 else 0) + (k + 1023) * 2 ^ 52 + (m - 2 ^ 52)))))"

fun be_bytes :: "nat \<Rightarrow> nat \<Rightarrow> byte list" where
  "be_bytes 0 n = []"
| "be_bytes (Suc k) n = word_of_nat (n div 256 ^ k) # be_bytes k n"

definition be_nat :: "byte list \<Rightarrow> nat" where
  "be_nat bs = foldl (\<lambda>acc b. acc * 256 + unat b) 0 bs"

datatype struct_fmt = Fmt_B | Fmt_H | Fmt_L | Fmt_Q | Fmt_l | Fmt_q | Fmt_d

fun calcsize :: "struct_fmt \<Rightarrow> nat" where
  "calcsize Fmt_B = 1"
| "calcsize Fmt_H = 2"
| "calcsize Fmt_L = 4"
| "calcsize Fmt_Q = 8"
| "calcsize Fmt_l = 4"
| "calcsize Fmt_q = 8"
| "calcsize Fmt_d = 8"

fun is_signed :: "struct_fmt \<Rightarrow> bool" where
  "is_signed Fmt_l = True"
| "is_signed Fmt_q = True"
| "is_signed f = False"

definition pack :: "struct_fmt \<Rightarrow> pyval \<Rightarrow> py_error + byte list" where
  "pack f v =
     (let n = calcsize f
      in case v of
           PInt i \<Rightarrow>
             if f = Fmt_d then
               (case double_of_int i of
                  None \<Rightarrow> Inl StructError
                | Some w \<Rightarrow> Inr (be_bytes n (unat w)))
             else if is_signed f then
               (if - (2 ^ (8 * n - 1)) \<le> i \<and> i < 2 ^ (8 * n - 1)
                then Inr (be_bytes n (nat (i mod 2 ^ (8 * n)))) else Inl StructError)
             else
               (if 0 \<le> i \<and> i < 2 ^ (8 * n) then Inr (be_bytes n (nat i)) else Inl StructError)
         | PFloat w \<Rightarrow> if f = Fmt_d then Inr (be_bytes n (unat w)) else Inl StructError
         | _ \<Rightarrow> Inl StructError)"

definition unpack :: "struct_fmt \<Rightarrow> byte list \<Rightarrow> py_error + pyval" where
  "unpack f bs =
     (let n = calcsize f
      in if length bs \<noteq> n then Inl StructError
         else if f = Fmt_d then Inr (PFloat (word_of_nat (be_nat bs)))
         else if is_signed f \<and> be_nat bs \<ge> 2 ^ (8 * n - 1)
           then Inr (PInt (int (be_nat bs) - 2 ^ (8 * n)))
         else Inr (PInt (int (be_nat bs))))"

text \<open>
  \<^verbatim>\<open>str.encode('utf-8')\<close> and \<^verbatim>\<open>bytes.decode('utf-8')\<close>, both strict: surrogates are
  not encoded, and overlong forms, surrogates and values above 0x10FFFF are not decoded.
\<close>

definition utf8_encode_char :: "nat \<Rightarrow> py_error + byte list" where
  "utf8_encode_char c =
     (if c < 0x80 then Inr [word_of_nat c]
      else if c < 0x800 then Inr [word_of_nat (0xC0 + c div 64), word_of_nat (0x80 + c mod 64)]
      else if c < 0x10000 then
        (if 0xD800 \<le> c \<and> c \<le> 0xDFFF then Inl UnicodeEncodeError
         else Inr [word_of_nat (0xE0 + c div 4096), word_of_nat (0x80 + c div 64 mod 64),
                   word_of_nat (0x80 + c mod 64)])
      else if c < 0x110000 then
        Inr [word_of_nat (0xF0 + c div 262144), word_of_nat (0x80 + c div 4096 mod 64),
             word_of_nat (0x80 + c div 64 mod 64), word_of_nat (0x80 + c mod 64)]
      else Inl UnicodeEncodeError)"

fun utf8_encode :: "nat list \<Rightarrow> py_error + byte list" where
  "utf8_encode [] = Inr []"
| "utf8_encode (c # cs) =
     (case utf8_encode_char c of
        Inl e \<Rightarrow> Inl e
      | Inr bs \<Rightarrow> (case utf8_encode cs of Inl e \<Rightarrow> Inl e | Inr r \<Rightarrow> Inr (bs @ r)))"

definition cont :: "byte \<Rightarrow> bool" where
  "cont b \<longleftrightarrow> 0x80 \<le> unat b \<and> unat b \<le> 0xBF"

definition cbits :: "byte \<Rightarrow> nat" where
  "cbits b = unat b - 0x80"

fun utf8_decode :: "byte list \<Rightarrow> py_error + nat list" where
  "utf8_decode [] = Inr []"
| "utf8_decode (b0 # bs) =
     (if unat b0 < 0x80 then
        (case utf8_decode bs of Inl e \<Rightarrow> Inl e | Inr r \<Rightarrow> Inr (unat b0 # r))
      else if 0xC2 \<le> unat b0 \<and> unat b0 \<le> 0xDF then
        (case bs of
           b1 # r1 \<Rightarrow>
             if cont b1 then
               (case utf8_decode r1 of
                  Inl e \<Rightarrow> Inl e
                | Inr r \<Rightarrow> Inr (((unat b0 - 0xC0) * 64 + cbits b1) # r))
             else Inl UnicodeDecodeError
         | _ \<Rightarrow> Inl UnicodeDecodeError)
      else if 0xE0 \<le> unat b0 \<and> unat b0 \<le> 0xEF then
        (case bs of
           b1 # b2 # r2 \<Rightarrow>
             (let c = (unat b0 - 0xE0) * 4096 + cbits b1 * 64 + cbits b2
              in if cont b1 \<and> cont b2 \<and> 0x800 \<le> c \<and> \<not> (0xD800 \<le> c \<and> c \<le> 0xDFFF) then
                   (case utf8_decode r2 of Inl e \<Rightarrow> Inl e | Inr r \<Rightarrow> Inr (c # r))
                 else Inl UnicodeDecodeError)
         | _ \<Rightarrow> Inl UnicodeDecodeError)
      else if 0xF0 \<le> unat b0 \<and> unat b0 \<le> 0xF4 then
        (case bs of
           b1 # b2 # b3 # r3 \<Rightarrow>
             (let c = (unat b0 - 0xF0) * 262144 + cbits b1 * 4096 + cbits b2 * 64 + cbits b3
              in if cont b1 \<and> cont b2 \<and> cont b3 \<and> 0x10000 \<le> c \<and> c < 0x110000 then
                   (case utf8_decode r3 of Inl e \<Rightarrow> Inl e | Inr r \<Rightarrow> Inr (c # r))
                 else Inl UnicodeDecodeError)
         | _ \<Rightarrow> Inl UnicodeDecodeError)
      else Inl UnicodeDecodeError)"

text \<open>
  Class \<^verbatim>\<open>UTF8_String\<close>.  \<open>pack_s n\<close> is \<^verbatim>\<open>pack('%ds' % n, v)\<close>: exactly \<open>n\<close> bytes,
  cut or filled with zero bytes.  \<^verbatim>\<open>serialize\<close> takes \<open>n\<close> from \<^verbatim>\<open>len(self.value)\<close>, the
  number of characters; \<^verbatim>\<open>serialization_size\<close> counts the encoded bytes.
\<close>

definition pack_s :: "nat \<Rightarrow> byte list \<Rightarrow> byte list" where
  "pack_s n bs = take n bs @ replicate (n - length bs) 0"

definition UTF8_String_deserialize :: "byte list \<Rightarrow> py_error + nat list option" where
  "UTF8_String_deserialize dbytes =
     (case unpack Fmt_L (take 4 dbytes) of
        Inr (PInt len) \<Rightarrow>
          if len = 0xFFFFFFFF then Inr None
          else (let raw = take (nat len) (drop 4 dbytes)
                in if length raw \<noteq> nat len then Inl StructError
                   else (case utf8_decode raw of Inl e \<Rightarrow> Inl e | Inr s \<Rightarrow> Inr (Some s)))
      | Inr _ \<Rightarrow> Inl StructError
      | Inl e \<Rightarrow> Inl e)"

definition UTF8_String_serialize :: "nat list option \<Rightarrow> py_error + byte list" where
  "UTF8_String_serialize val =
     (case val of
        None \<Rightarrow> pack Fmt_L (PInt 0xFFFFFFFF)
      | Some s \<Rightarrow>
          (let len = length s
           in case utf8_encode s of
                Inl e \<Rightarrow> Inl e
              | Inr v \<Rightarrow>
                  (case pack Fmt_L (PInt (int len)) of
                     Inl e \<Rightarrow> Inl e
                   | Inr h \<Rightarrow> Inr (h @ pack_s len v))))"

definition UTF8_String_serialization_size :: "nat list option \<Rightarrow> py_error + nat" where
  "UTF8_String_serialization_size val =
     (case val of
        None \<Rightarrow> Inr 4
      | Some s \<Rightarrow> (case utf8_encode s of Inl e \<Rightarrow> Inl e | Inr v \<Rightarrow> Inr (4 + length v)))"

text \<open>
  Class \<^verbatim>\<open>Optional_Quint\<close>.  Only \<^verbatim>\<open>deserialize\<close> sets the attribute \<^verbatim>\<open>size\<close>; an
  object made by the constructor (\<open>Optional_Quint_new\<close>) has none.
\<close>

definition Optional_Quint_formats :: "nat \<Rightarrow> struct_fmt option" where
  "Optional_Quint_formats n =
     (if n = 1 then Some Fmt_B else if n = 4 then Some Fmt_L else if n = 8 then Some Fmt_Q else None)"

record Optional_Quint =
  oq_value :: pyval
  oq_size :: "nat option"

definition Optional_Quint_deserialize :: "byte list \<Rightarrow> nat \<Rightarrow> py_error + Optional_Quint" where
  "Optional_Quint_deserialize dbytes len =
     (if length dbytes = 0 then Inr \<lparr>oq_value = PNone, oq_size = Some 0\<rparr>
      else (case Optional_Quint_formats len of
              None \<Rightarrow> Inl KeyError
            | Some f \<Rightarrow>
                (case unpack f dbytes of
                   Inl e \<Rightarrow> Inl e
                 | Inr v \<Rightarrow> Inr \<lparr>oq_value = v, oq_size = Some len\<rparr>)))"

definition Optional_Quint_new :: "pyval \<Rightarrow> Optional_Quint" where
  "Optional_Quint_new v = \<lparr>oq_value = v, oq_size = None\<rparr>"

definition Optional_Quint_serialize :: "Optional_Quint \<Rightarrow> py_error + byte list" where
  "Optional_Quint_serialize self =
     (if oq_value self = PNone then Inr []
      else (case oq_size self of
              None \<Rightarrow> Inl AttributeError
            | Some n \<Rightarrow>
                (case Optional_Quint_formats n of
                   None \<Rightarrow> Inl KeyError
                 | Some f \<Rightarrow> pack f (oq_value self))))"

definition Optional_Quint_serialization_size :: "Optional_Quint \<Rightarrow> py_error + nat" where
  "Optional_Quint_serialization_size self =
     (if oq_value self = PNone then Inr 0
      else (case oq_size self of None \<Rightarrow> Inl AttributeError | Some n \<Rightarrow> Inr n))"

text \<open>Class \<^verbatim>\<open>QDateTime\<close>: the constructor (lines 419 to 426), then the methods.\<close>

definition QDateTime_new :: "int \<Rightarrow> int \<Rightarrow> int \<Rightarrow> int option \<Rightarrow> py_error + pyval" where
  "QDateTime_new date dtime timespec offset =
     (if \<not> (offset = None \<or> timespec = 2) then Inl AssertionError
      else if timespec = 2 \<and> offset \<noteq> None
        then Inl (ValueError ''Offset required when timespec=2'')
      else Inr (PQDateTime date dtime timespec offset))"

definition QDateTime_deserialize :: "byte list \<Rightarrow> py_error + pyval" where
  "QDateTime_deserialize dbytes =
     (let h = take 13 dbytes
      in if length h \<noteq> 13 then Inl StructError
         else (case (unpack Fmt_q (take 8 h), unpack Fmt_L (take 4 (drop 8 h)),
                     unpack Fmt_B (drop 12 h)) of
                 (Inr (PInt date), Inr (PInt dtime), Inr (PInt timespec)) \<Rightarrow>
                   if timespec = 2 then
                     (case unpack Fmt_l (take 4 (drop 13 dbytes)) of
                        Inr (PInt offset) \<Rightarrow> QDateTime_new date dtime timespec (Some offset)
                      | _ \<Rightarrow> Inl StructError)
                   else QDateTime_new date dtime timespec None
               | _ \<Rightarrow> Inl StructError))"

fun concat_packed :: "(py_error + byte list) list \<Rightarrow> py_error + byte list" where
  "concat_packed [] = Inr []"
| "concat_packed (x # xs) =
     (case x of
        Inl e \<Rightarrow> Inl e
      | Inr bs \<Rightarrow> (case concat_packed xs of Inl e \<Rightarrow> Inl e | Inr r \<Rightarrow> Inr (bs @ r)))"

definition QDateTime_serialize :: "pyval \<Rightarrow> py_error + byte list" where
  "QDateTime_serialize self =
     concat_packed
       ([pack Fmt_q (PInt (qd_date self)), pack Fmt_L (PInt (qd_time self)),
         pack Fmt_B (PInt (qd_timespec self))] @
        (case qd_offset self of None \<Rightarrow> [] | Some off \<Rightarrow> [pack Fmt_l (PInt off)]))"

definition QDateTime_serialization_size :: "pyval \<Rightarrow> nat" where
  "QDateTime_serialization_size self = (if qd_offset self = None then 13 else 13 + 4)"

text \<open>Class \<^verbatim>\<open>QColor\<close>, format \<^verbatim>\<open>!BHHHHH\<close>: spec, alpha, red, green, blue, 0.\<close>

definition QColor_deserialize :: "byte list \<Rightarrow> py_error + pyval" where
  "QColor_deserialize dbytes =
     (let b = take 11 dbytes
      in if length b \<noteq> 11 then Inl StructError
         else (case (unpack Fmt_B (take 1 b), unpack Fmt_H (take 2 (drop 1 b)),
                     unpack Fmt_H (take 2 (drop 3 b)), unpack Fmt_H (take 2 (drop 5 b)),
                     unpack Fmt_H (take 2 (drop 7 b))) of
                 (Inr (PInt s), Inr (PInt a), Inr (PInt r), Inr (PInt g), Inr (PInt bl)) \<Rightarrow>
                   Inr (PQColor s a r g bl)
               | _ \<Rightarrow> Inl StructError))"

definition QColor_serialize :: "pyval \<Rightarrow> py_error + byte list" where
  "QColor_serialize self =
     concat_packed
       [pack Fmt_B (PInt (qc_spec self)), pack Fmt_H (PInt (qc_alpha self)),
        pack Fmt_H (PInt (qc_red self)), pack Fmt_H (PInt (qc_green self)),
        pack Fmt_H (PInt (qc_blue self)), pack Fmt_H (PInt 0)]"

text \<open>
  A format entry \<^verbatim>\<open>(name, (dformat, length))\<close>: \<open>dformat\<close> is a \<^verbatim>\<open>struct\<close> format string
  or one of the four classes.
\<close>

datatype dformat = Struct struct_fmt | Cls_UTF8_String | Cls_Optional_Quint | Cls_QDateTime | Cls_QColor

type_synonym field_format = "string \<times> dformat \<times> nat"

definition quint8 :: "dformat \<times> nat" where "quint8 = (Struct Fmt_B, 1)"
definition quint32 :: "dformat \<times> nat" where "quint32 = (Struct Fmt_L, 4)"
definition quint64 :: "dformat \<times> nat" where "quint64 = (Struct Fmt_Q, 8)"
definition qint32 :: "dformat \<times> nat" where "qint32 = (Struct Fmt_l, 4)"
definition qbool :: "dformat \<times> nat" where "qbool = quint8"
definition qutf8 :: "dformat \<times> nat" where "qutf8 = (Cls_UTF8_String, 0)"
definition qdouble :: "dformat \<times> nat" where "qdouble = (Struct Fmt_d, 8)"
definition opt_quint8 :: "dformat \<times> nat" where "opt_quint8 = (Cls_Optional_Quint, 1)"
definition qtime :: "dformat \<times> nat" where "qtime = quint32"
definition qdatetime :: "dformat \<times> nat" where "qdatetime = (Cls_QDateTime, 0)"
definition qcolor :: "dformat \<times> nat" where "qcolor = (Cls_QColor, 0)"

text \<open>
  \<^verbatim>\<open>WSJTX_Telegram.deserialize\<close> (lines 610 to 628).  \<open>read_field\<close> is the body of the loop
  for a buffer that is not empty: the value read and the buffer that is left.
  \<open>deserialize_loop\<close> also returns the buffer left at the end of the loop.
\<close>

definition opt_str :: "nat list option \<Rightarrow> pyval" where
  "opt_str v = (case v of None \<Rightarrow> PNone | Some s \<Rightarrow> PStr s)"

definition read_field :: "dformat \<Rightarrow> nat \<Rightarrow> byte list \<Rightarrow> py_error + (pyval \<times> byte list)" where
  "read_field dformat len b =
     (case dformat of
        Struct f \<Rightarrow>
          (case unpack f (take len b) of Inl e \<Rightarrow> Inl e | Inr v \<Rightarrow> Inr (v, drop len b))
      | Cls_UTF8_String \<Rightarrow>
          (case UTF8_String_deserialize b of
             Inl e \<Rightarrow> Inl e
           | Inr v \<Rightarrow>
               (case UTF8_String_serialization_size v of
                  Inl e \<Rightarrow> Inl e
                | Inr n \<Rightarrow> Inr (opt_str v, drop n b)))
      | Cls_Optional_Quint \<Rightarrow>
          (case Optional_Quint_deserialize b len of
             Inl e \<Rightarrow> Inl e
           | Inr v \<Rightarrow>
               (case Optional_Quint_serialization_size v of
                  Inl e \<Rightarrow> Inl e
                | Inr n \<Rightarrow> Inr (oq_value v, drop n b)))
      | Cls_QDateTime \<Rightarrow>
          (case QDateTime_deserialize b of
             Inl e \<Rightarrow> Inl e
           | Inr v \<Rightarrow> Inr (v, drop (QDateTime_serialization_size v) b))
      | Cls_QColor \<Rightarrow>
          (case QColor_deserialize b of Inl e \<Rightarrow> Inl e | Inr v \<Rightarrow> Inr (v, drop 11 b)))"

fun deserialize_loop ::
  "field_format list \<Rightarrow> byte list \<Rightarrow> py_error + ((string \<times> pyval) list \<times> byte list)" where
  "deserialize_loop [] b = Inr ([], b)"
| "deserialize_loop ((name, dformat, len) # fs) b =
     (if length b = 0 then
        (case deserialize_loop fs b of
           Inl e \<Rightarrow> Inl e
         | Inr (kw, b') \<Rightarrow> Inr ((name, PNone) # kw, b'))
      else
        (case read_field dformat len b of
           Inl e \<Rightarrow> Inl e
         | Inr (v, b1) \<Rightarrow>
             (case deserialize_loop fs b1 of
                Inl e \<Rightarrow> Inl e
              | Inr (kw, b') \<Rightarrow> Inr ((name, v) # kw, b'))))"

definition deserialize :: "field_format list \<Rightarrow> byte list \<Rightarrow> py_error + (string \<times> pyval) list" where
  "deserialize fmt dbytes =
     (case deserialize_loop fmt dbytes of Inl e \<Rightarrow> Inl e | Inr (kw, b) \<Rightarrow> Inr kw)"

text \<open>The telegram classes: formats, defaults, constructor, \<^verbatim>\<open>from_bytes\<close>, \<^verbatim>\<open>as_bytes\<close>.\<close>

definition pystr :: "string \<Rightarrow> nat list" where
  "pystr s = map of_char s"

definition magic :: int where
  "magic = 0xadbccbda"

definition schema_version_number :: int where
  "schema_version_number = 3"

definition WSJTX_Telegram_format :: "field_format list" where
  "WSJTX_Telegram_format =
     [(''magic'', quint32), (''version_number'', quint32), (''type'', quint32), (''id'', qutf8)]"

definition WSJTX_Telegram_defaults :: "(string \<times> pyval) list" where
  "WSJTX_Telegram_defaults =
     [(''magic'', PInt magic), (''version_number'', PInt 3), (''id'', PStr (pystr ''wsjt-server''))]"

definition WSJTX_Heartbeat_format :: "field_format list" where
  "WSJTX_Heartbeat_format =
     WSJTX_Telegram_format @
       [(''max_schema'', quint32), (''version'', qutf8), (''revision'', qutf8)]"

definition WSJTX_Status_format :: "field_format list" where
  "WSJTX_Status_format =
     WSJTX_Telegram_format @
       [(''dial_frq'', quint64), (''mode'', qutf8), (''dx_call'', qutf8),
        (''report'', qutf8), (''tx_mode'', qutf8), (''tx_enabled'', qbool),
        (''xmitting'', qbool), (''decoding'', qbool), (''rx_df'', quint32),
        (''tx_df'', quint32), (''de_call'', qutf8), (''de_grid'', qutf8),
        (''dx_grid'', qutf8), (''tx_watchdog'', qbool), (''sub_mode'', qutf8),
        (''fast_mode'', qbool), (''special_op'', quint8), (''frq_tolerance'', quint32),
        (''t_r_period'', quint32), (''config_name'', qutf8), (''tx_message'', qutf8)]"

definition WSJTX_Decode_format :: "field_format list" where
  "WSJTX_Decode_format =
     WSJTX_Telegram_format @
       [(''is_new'', qbool), (''time'', qtime), (''snr'', qint32),
        (''delta_t'', qdouble), (''delta_f'', quint32), (''mode'', qutf8),
        (''message'', qutf8), (''low_confidence'', qbool), (''off_air'', qbool)]"

definition WSJTX_Clear_format :: "field_format list" where
  "WSJTX_Clear_format =
     WSJTX_Telegram_format @
       [(''window'', opt_quint8)]"

definition WSJTX_Reply_format :: "field_format list" where
  "WSJTX_Reply_format =
     WSJTX_Telegram_format @
       [(''time'', qtime), (''snr'', qint32), (''delta_t'', qdouble),
        (''delta_f'', quint32), (''mode'', qutf8), (''message'', qutf8),
        (''low_confidence'', qbool), (''modifiers'', quint8)]"

definition WSJTX_QSO_Logged_format :: "field_format list" where
  "WSJTX_QSO_Logged_format =
     WSJTX_Telegram_format @
       [(''time_off'', qdatetime), (''dx_call'', qutf8), (''dx_grid'', qutf8),
        (''tx_frq'', quint64), (''mode'', qutf8), (''report_sent'', qutf8),
        (''report_recv'', qutf8), (''tx_power'', qutf8), (''comments'', qutf8),
        (''name'', qutf8), (''time_on'', qdatetime), (''operator_call'', qutf8),
        (''my_call'', qutf8), (''my_grid'', qutf8), (''exchange_sent'', qutf8),
        (''exchange_recv'', qutf8), (''adif_propmode'', qutf8)]"

definition WSJTX_Close_format :: "field_format list" where
  "WSJTX_Close_format = WSJTX_Telegram_format"

definition WSJTX_Replay_format :: "field_format list" where
  "WSJTX_Replay_format = WSJTX_Telegram_format"

definition WSJTX_Halt_TX_format :: "field_format list" where
  "WSJTX_Halt_TX_format =
     WSJTX_Telegram_format @
       [(''auto_tx_only'', qbool)]"

definition WSJTX_Free_Text_format :: "field_format list" where
  "WSJTX_Free_Text_format =
     WSJTX_Telegram_format @
       [(''text'', qutf8), (''send'', qbool)]"

definition WSJTX_WSPR_Decode_format :: "field_format list" where
  "WSJTX_WSPR_Decode_format =
     WSJTX_Telegram_format @
       [(''is_new'', qbool), (''time'', qtime), (''snr'', qint32),
        (''delta_t'', qdouble), (''frq'', quint64), (''drift'', qint32),
        (''callsign'', qutf8), (''grid'', qutf8), (''power'', qint32),
        (''off_air'', qbool)]"

definition WSJTX_Location_format :: "field_format list" where
  "WSJTX_Location_format =
     WSJTX_Telegram_format @
       [(''location'', qutf8)]"

definition WSJTX_Logged_ADIF_format :: "field_format list" where
  "WSJTX_Logged_ADIF_format =
     WSJTX_Telegram_format @
       [(''adif_txt'', qutf8)]"

definition WSJTX_Highlight_Call_format :: "field_format list" where
  "WSJTX_Highlight_Call_format =
     WSJTX_Telegram_format @
       [(''callsign'', qutf8), (''bg_color'', qcolor), (''fg_color'', qcolor),
        (''highlight_last'', qbool)]"

definition WSJTX_Switch_Config_format :: "field_format list" where
  "WSJTX_Switch_Config_format =
     WSJTX_Telegram_format @
       [(''adif_txt'', qutf8)]"

definition WSJTX_Configure_format :: "field_format list" where
  "WSJTX_Configure_format =
     WSJTX_Telegram_format @
       [(''mode'', qutf8), (''frq_tolerance'', quint32), (''sub_mode'', qutf8),
        (''fast_mode'', qbool), (''t_r_period'', quint32), (''rx_df'', quint32),
        (''dx_call'', qutf8), (''dx_grid'', qutf8), (''gen_messages'', qbool)]"

text \<open>
  A class is \<open>None\<close> for \<^verbatim>\<open>WSJTX_Telegram\<close> itself and \<open>Some t\<close> for the subclass registered
  under the type \<open>t\<close>; \<^verbatim>\<open>type_registry\<close> holds the types 0 to 15.
\<close>

definition type_registry :: "int \<Rightarrow> nat option" where
  "type_registry t = (if 0 \<le> t \<and> t \<le> 15 then Some (nat t) else None)"

fun class_format :: "nat option \<Rightarrow> field_format list" where
  "class_format None = WSJTX_Telegram_format"
| "class_format (Some t) =
     (if t = 0 then WSJTX_Heartbeat_format
      else if t = 1 then WSJTX_Status_format
      else if t = 2 then WSJTX_Decode_format
      else if t = 3 then WSJTX_Clear_format
      else if t = 4 then WSJTX_Reply_format
      else if t = 5 then WSJTX_QSO_Logged_format
      else if t = 6 then WSJTX_Close_format
      else if t = 7 then WSJTX_Replay_format
      else if t = 8 then WSJTX_Halt_TX_format
      else if t = 9 then WSJTX_Free_Text_format
      else if t = 10 then WSJTX_WSPR_Decode_format
      else if t = 11 then WSJTX_Location_format
      else if t = 12 then WSJTX_Logged_ADIF_format
      else if t = 13 then WSJTX_Highlight_Call_format
      else if t = 14 then WSJTX_Switch_Config_format
      else if t = 15 then WSJTX_Configure_format
      else WSJTX_Telegram_format)"

definition color_black :: pyval where
  "color_black = PQColor 1 0xFFFF 0 0 0"

definition color_white :: pyval where
  "color_white = PQColor 1 0xFFFF 0xFFFF 0xFFFF 0xFFFF"

definition color_red :: pyval where
  "color_red = PQColor 1 0xFFFF 0xFFFF 0 0"

fun class_defaults :: "nat option \<Rightarrow> (string \<times> pyval) list" where
  "class_defaults None = WSJTX_Telegram_defaults"
| "class_defaults (Some t) =
     (if t = 0 then
        [(''max_schema'', PInt 3), (''version'', PStr []), (''revision'', PStr [])] @
        WSJTX_Telegram_defaults
      else if t = 3 then [(''window'', PNone)] @ WSJTX_Telegram_defaults
      else if t = 9 then [(''send'', PInt 0)] @ WSJTX_Telegram_defaults
      else if t = 13 then
        [(''fg_color'', color_black), (''bg_color'', color_white), (''highlight_last'', PInt 0)] @
        WSJTX_Telegram_defaults
      else WSJTX_Telegram_defaults)"

record telegram =
  tel_class :: "nat option"
  tel_attrs :: "(string \<times> pyval) list"

definition class_type :: "nat option \<Rightarrow> pyval" where
  "class_type cls = (case cls of None \<Rightarrow> PNone | Some t \<Rightarrow> PInt (int t))"

fun set_attrs :: "(string \<times> pyval) list \<Rightarrow> field_format list \<Rightarrow> py_error + (string \<times> pyval) list" where
  "set_attrs params [] = Inr []"
| "set_attrs params ((name, f) # fs) =
     (case map_of params name of
        None \<Rightarrow> Inl KeyError
      | Some v \<Rightarrow>
          (case set_attrs params fs of Inl e \<Rightarrow> Inl e | Inr a \<Rightarrow> Inr ((name, v) # a)))"

definition WSJTX_Telegram_new :: "nat option \<Rightarrow> (string \<times> pyval) list \<Rightarrow> py_error + telegram" where
  "WSJTX_Telegram_new cls kw =
     (let params0 = kw @ class_defaults cls;
          params = (if map_of params0 ''type'' = None
                    then params0 @ [(''type'', class_type cls)] else params0)
      in if map_of params ''magic'' \<noteq> Some (PInt magic) then Inl AssertionError
         else (case map_of params ''version_number'' of
                 Some (PInt v) \<Rightarrow>
                   if \<not> schema_version_number \<ge> v then Inl AssertionError
                   else (case set_attrs params (class_format cls) of
                           Inl e \<Rightarrow> Inl e
                         | Inr attrs \<Rightarrow>
                             if cls \<noteq> None \<and> map_of attrs ''type'' \<noteq> Some (class_type cls)
                             then Inl AssertionError
                             else Inr \<lparr>tel_class = cls, tel_attrs = attrs\<rparr>)
               | _ \<Rightarrow> Inl TypeError))"

definition from_bytes :: "byte list \<Rightarrow> py_error + telegram" where
  "from_bytes dbytes =
     (case deserialize (class_format None) dbytes of
        Inl e \<Rightarrow> Inl e
      | Inr kw \<Rightarrow>
          (case WSJTX_Telegram_new None kw of
             Inl e \<Rightarrow> Inl e
           | Inr self \<Rightarrow>
               (case (case map_of kw ''type'' of Some (PInt t) \<Rightarrow> type_registry t | _ \<Rightarrow> None) of
                  None \<Rightarrow> Inr self
                | Some c \<Rightarrow>
                    (case deserialize (class_format (Some c)) dbytes of
                       Inl e \<Rightarrow> Inl e
                     | Inr kw' \<Rightarrow> WSJTX_Telegram_new (Some c) (kw' @ kw)))))"

text \<open>
  \<^verbatim>\<open>as_bytes\<close> (lines 631 to 641): a \<^verbatim>\<open>Protocol_Element\<close> serialises itself, a
  \<^verbatim>\<open>struct\<close> format packs the value, and for a class format a new element is made from
  the value and serialised (\<^verbatim>\<open>QDateTime(v)\<close> lacks arguments, \<^verbatim>\<open>QColor(v)\<close> takes \<open>v\<close> as
  red).
\<close>

definition serialize_field :: "dformat \<Rightarrow> pyval \<Rightarrow> py_error + byte list" where
  "serialize_field fmt v =
     (case v of
        PQDateTime d t ts off \<Rightarrow> QDateTime_serialize v
      | PQColor s a r g b \<Rightarrow> QColor_serialize v
      | _ \<Rightarrow>
          (case fmt of
             Struct f \<Rightarrow> pack f v
           | Cls_UTF8_String \<Rightarrow>
               (case v of
                  PNone \<Rightarrow> UTF8_String_serialize None
                | PStr s \<Rightarrow> UTF8_String_serialize (Some s)
                | _ \<Rightarrow> Inl TypeError)
           | Cls_Optional_Quint \<Rightarrow> Optional_Quint_serialize (Optional_Quint_new v)
           | Cls_QDateTime \<Rightarrow> Inl TypeError
           | Cls_QColor \<Rightarrow> QColor_serialize (PQColor 1 0xFFFF (case v of PInt r \<Rightarrow> r | _ \<Rightarrow> - 1) 0 0)))"

fun as_bytes_loop :: "(string \<times> pyval) list \<Rightarrow> field_format list \<Rightarrow> py_error + byte list" where
  "as_bytes_loop attrs [] = Inr []"
| "as_bytes_loop attrs ((name, fmt, len) # fs) =
     (case map_of attrs name of
        None \<Rightarrow> Inl AttributeError
      | Some v \<Rightarrow>
          (case serialize_field fmt v of
             Inl e \<Rightarrow> Inl e
           | Inr bs \<Rightarrow>
               (case as_bytes_loop attrs fs of Inl e \<Rightarrow> Inl e | Inr r \<Rightarrow> Inr (bs @ r))))"

definition as_bytes :: "telegram \<Rightarrow> py_error + byte list" where
  "as_bytes self = as_bytes_loop (tel_attrs self) (class_format (tel_class self))"

text \<open>The two telegrams of the doctest of \<^verbatim>\<open>WSJTX_Telegram\<close>.\<close>

definition statusmsg :: "byte list" where
  "statusmsg =
     [0xAD, 0xBC, 0xCB, 0xDA, 0x00, 0x00, 0x00, 0x02, 0x00, 0x00, 0x00, 0x01,
      0x00, 0x00, 0x00, 0x14, 0x57, 0x53, 0x4A, 0x54, 0x2D, 0x58, 0x20, 0x2D,
      0x20, 0x54, 0x53, 0x35, 0x39, 0x30, 0x53, 0x2D, 0x6B, 0x6C, 0x62, 0x67,
      0x00, 0x00, 0x00, 0x00, 0x00, 0x6B, 0xF0, 0xD0, 0x00, 0x00, 0x00, 0x03,
      0x46, 0x54, 0x38, 0x00, 0x00, 0x00, 0x06, 0x58, 0x41, 0x4D, 0x50, 0x4C,
      0x45, 0x00, 0x00, 0x00, 0x02, 0x2D, 0x32, 0x00, 0x00, 0x00, 0x03, 0x46,
      0x54, 0x38, 0x00, 0x00, 0x01, 0x00, 0x00, 0x02, 0xCB, 0x00, 0x00, 0x04,
      0x6E, 0x00, 0x00, 0x00, 0x06, 0x4F, 0x45, 0x33, 0x52, 0x53, 0x55, 0x00,
      0x00, 0x00, 0x06, 0x4A, 0x4E, 0x38, 0x38, 0x44, 0x47, 0x00, 0x00, 0x00,
      0x04, 0x4A, 0x4F, 0x32, 0x31, 0x00, 0xFF, 0xFF, 0xFF, 0xFF, 0x00, 0x00,
      0xFF, 0xFF, 0xFF, 0xFF, 0xFF, 0xFF, 0xFF, 0xFF, 0x00, 0x00, 0x00, 0x0B,
      0x54, 0x53, 0x35, 0x39, 0x30, 0x53, 0x2D, 0x6B, 0x6C, 0x62, 0x67, 0x00,
      0x00, 0x00, 0x25, 0x58, 0x41, 0x4D, 0x50, 0x4C, 0x45, 0x20, 0x4F, 0x45,
      0x33, 0x52, 0x53, 0x55, 0x20, 0x37, 0x33, 0x20, 0x20, 0x20, 0x20, 0x20,
      0x20, 0x20, 0x20, 0x20, 0x20, 0x20, 0x20, 0x20, 0x20, 0x20, 0x20, 0x20,
      0x20, 0x20, 0x20, 0x20]"

definition clearmsg :: "byte list" where
  "clearmsg =
     [0xAD, 0xBC, 0xCB, 0xDA, 0x00, 0x00, 0x00, 0x03, 0x00, 0x00, 0x00, 0x03,
      0x00, 0x00, 0x00, 0x14, 0x57, 0x53, 0x4A, 0x54, 0x2D, 0x58, 0x20, 0x2D,
      0x20, 0x54, 0x53, 0x35, 0x39, 0x30, 0x53, 0x2D, 0x6B, 0x6C, 0x62, 0x67]"

text \<open>The fields a decode reports as null for a format.\<close>

definition null_fields :: "field_format list \<Rightarrow> (string \<times> pyval) list" where
  "null_fields fs = map (\<lambda>(name, f). (name, PNone)) fs"

section \<open>Auxiliary notions for the proofs\<close>

text \<open>
  \<open>alpha r c\<close>: some character class of \<open>r\<close> accepts \<open>c\<close>.  \<open>dead r\<close>: \<open>r\<close> matches
  nothing, for a syntactic reason.
\<close>

primrec alpha :: "rexp \<Rightarrow> char \<Rightarrow> bool" where
  "alpha Zero c = False"
| "alpha Eps c = False"
| "alpha (Sym P) c = P c"
| "alpha (Alt r s) c = (alpha r c \<or> alpha s c)"
| "alpha (Seq r s) c = (alpha r c \<or> alpha s c)"
| "alpha (Star r) c = alpha r c"

primrec dead :: "rexp \<Rightarrow> bool" where
  "dead Zero = True"
| "dead Eps = False"
| "dead (Sym P) = False"
| "dead (Alt r s) = (dead r \<and> dead s)"
| "dead (Seq r s) = (dead r \<or> dead s)"
| "dead (Star r) = False"

definition no_identity :: "'f parsed_msg \<Rightarrow> bool" where
  "no_identity pm \<longleftrightarrow>
     caller pm = None \<and> pm_country pm = None \<and> zone_cq pm = None \<and> zone_itu pm = None \<and>
     pm_continent pm = None \<and> pm_lat pm = None \<and> pm_lon pm = None \<and> pm_gmtoff pm = None \<and>
     grid pm = None \<and> peer pm = None"

text \<open>
  What \<^verbatim>\<open>parse_alias_line\<close> maintains: no key of the prefix table is empty or longer
  than \<open>prf_max\<close>.
\<close>

definition cty_inv :: "'f CTY \<Rightarrow> bool" where
  "cty_inv self \<longleftrightarrow> (\<forall>k \<in> set (map fst (prefix self)). k \<noteq> [] \<and> length k \<le> prf_max self)"

text \<open>A small country file, and two of the records it must produce.\<close>

definition example_lines :: "string list" where
  "example_lines =
     [''United States:            05:  08:  NA:   37.53:    91.67:     5.0:  K:'',
      ''    K;'',
      ''Hawaii:                   31:  61:  OC:   21.12:   157.48:    10.0:  KH6:'',
      ''    KH6,'',
      ''    KH6Z(30)[60];'',
      ''Austria:                  15:  28:  EU:   47.33:   -13.33:    -1.0:  OE:'',
      ''    OE,=OE3RSU(14);'']"

definition example_kh6z :: "string info_data" where
  "example_kh6z = \<lparr>country = ''Hawaii'', cq = ''30'', itu = ''60'', continent = ''OC'',
     lat = ''21.12'', lon = ''157.48'', gmtoff = ''10.0''\<rparr>"

definition example_oe3rsu :: "string info_data" where
  "example_oe3rsu = \<lparr>country = ''Austria'', cq = ''14'', itu = ''28'', continent = ''EU'',
     lat = ''47.33'', lon = ''-13.33'', gmtoff = ''-1.0''\<rparr>"

definition example_cty :: "string CTY" where
  "example_cty = (case CTY_new Some example_lines of Inr self \<Rightarrow> self | Inl e \<Rightarrow> CTY_init)"

text \<open>Messages and tables for concrete runs, and the two totals that claim C2 compares.\<close>

definition mk_msg :: "int \<Rightarrow> int \<Rightarrow> string option \<Rightarrow> string option \<Rightarrow> string option \<Rightarrow> unit Monitor_Message" where
  "mk_msg t s c co z =
     \<lparr>gtime = t, raw = [], msg_snr = s, dt = (), df = 0, lf = False, msg_mtype = ''CQ'',
      msg_caller = c, msg_country = co, msg_cq = z, msg_itu = None, msg_continent = None,
      msg_lat = None, msg_lon = None, msg_gmtoff = None, msg_grid = None, msg_peer = None\<rparr>"

definition db0 :: "unit Data_Server" where "db0 = \<lparr>tb_minutes = [], tb_hours = []\<rparr>"

definition hour_total :: "'f Data_Server \<Rightarrow> string \<Rightarrow> string \<Rightarrow> int \<Rightarrow> int" where
  "hour_total self monitor band h = sum_list (map hr_total (db_read_hours self monitor band h h))"

definition minutes_total :: "'f Data_Server \<Rightarrow> string \<Rightarrow> string \<Rightarrow> int \<Rightarrow> int" where
  "minutes_total self monitor band h =
     sum_list (map mr_total (db_read_minutes self monitor band h (h + 3599)))"

text \<open>
  \<open>nearest_even q a b\<close>: the integer \<open>q\<close> is the exact quotient \<open>a / b\<close> rounded to the nearest
  integer, a tie going to the even one.  It says \<open>\<bar>q - a / b\<bar> < 1 / 2\<close>, or
  \<open>\<bar>q - a / b\<bar> = 1 / 2\<close> and \<open>q\<close> even, with both sides multiplied by \<open>2 * \<bar>b\<bar>\<close>.
\<close>

definition nearest_even :: "int \<Rightarrow> int \<Rightarrow> int \<Rightarrow> bool" where
  "nearest_even q a b \<longleftrightarrow>
     2 * \<bar>q * b - a\<bar> < \<bar>b\<bar> \<or> (2 * \<bar>q * b - a\<bar> = \<bar>b\<bar> \<and> even q)"

definition keywise_sum :: "int option \<Rightarrow> int option \<Rightarrow> int option" where
  "keywise_sum old new =
     (case new of None \<Rightarrow> old | Some n \<Rightarrow> Some (case old of None \<Rightarrow> n | Some m \<Rightarrow> m + n))"

definition db_hour2 :: "unit Data_Server" where
  "db_hour2 = snd (save_monitor_data 7205 ''ft8mon'' ''50.313''
                [mk_msg 7200 (-5) (Some ''KA1ABC'') (Some ''United States'') (Some ''05'')] db0)"

definition db_two_hours :: "unit Data_Server" where
  "db_two_hours = snd (save_monitor_data 7300 ''ft8mon'' ''50.313''
                [mk_msg 3600 (-7) (Some ''WB9XYZ'') (Some ''United States'') (Some ''05''),
                 mk_msg 7260 (-9) (Some ''OE3RSU'') (Some ''Austria'') (Some ''15'')] db_hour2)"

definition batch_three :: "unit Monitor_Message list" where
  "batch_three =
     [mk_msg 121 9 (Some ''KA1ABC'') (Some ''United States'') (Some ''05''),
      mk_msg 130 10 (Some ''WB9XYZ'') (Some ''United States'') (Some ''05''),
      mk_msg 145 11 (Some ''KA1ABC'') (Some ''United States'') (Some ''05'')]"

definition batch_two :: "unit Monitor_Message list" where
  "batch_two =
     [mk_msg 150 19 (Some ''OE3RSU'') (Some ''Austria'') (Some ''15''),
      mk_msg 170 21 (Some ''KA1ABC'') (Some ''United States'') (Some ''05'')]"

definition db_three :: "unit Data_Server" where
  "db_three = snd (save_monitor_data 150 ''ft8mon'' ''50.313'' batch_three db0)"

definition db_five :: "unit Data_Server" where
  "db_five = snd (save_monitor_data 180 ''ft8mon'' ''50.313'' batch_two db_three)"

text \<open>
  Two more batches for the minute 120 of \<open>db_three\<close>: the mean of the first is the tie 21.5
  and the merged mean 14.8, the merged mean of the second is the tie 8.5.
\<close>

definition batch_half :: "unit Monitor_Message list" where
  "batch_half =
     [mk_msg 150 21 (Some ''OE3RSU'') (Some ''Austria'') (Some ''15''),
      mk_msg 170 22 (Some ''KA1ABC'') (Some ''United States'') (Some ''05'')]"

definition batch_one :: "unit Monitor_Message list" where
  "batch_one = [mk_msg 150 4 (Some ''OE3RSU'') (Some ''Austria'') (Some ''15'')]"

definition db_half :: "unit Data_Server" where
  "db_half = snd (save_monitor_data 180 ''ft8mon'' ''50.313'' batch_half db_three)"

definition db_four :: "unit Data_Server" where
  "db_four = snd (save_monitor_data 180 ''ft8mon'' ''50.313'' batch_one db_three)"

definition group_half :: "unit minute_group" where
  "group_half = \<lparr>g_messages = batch_half, g_total = 2, g_snr = 43,
     g_countries = [(''Austria'', 1), (''United States'', 1)],
     g_cqs = [(''15'', 1), (''05'', 1)],
     g_callers = [(''OE3RSU'', 1), (''KA1ABC'', 1)]\<rparr>"

definition group_one :: "unit minute_group" where
  "group_one = \<lparr>g_messages = batch_one, g_total = 1, g_snr = 4,
     g_countries = [(''Austria'', 1)], g_cqs = [(''15'', 1)], g_callers = [(''OE3RSU'', 1)]\<rparr>"

definition group_two :: "unit minute_group" where
  "group_two = \<lparr>g_messages = batch_two, g_total = 2, g_snr = 40,
     g_countries = [(''Austria'', 1), (''United States'', 1)],
     g_cqs = [(''15'', 1), (''05'', 1)],
     g_callers = [(''OE3RSU'', 1), (''KA1ABC'', 1)]\<rparr>"

definition bucket_three :: "unit Minutes_Record" where
  "bucket_three = \<lparr>mr_ctime = 120, mr_monitor = ''ft8mon'', mr_band = ''50.313'',
        mr_messages = batch_three, mr_total = 3, mr_snr = 10,
        mr_countries = [(''United States'', 3)], mr_cqs = [(''05'', 3)],
        mr_callers = [(''KA1ABC'', 2), (''WB9XYZ'', 1)]\<rparr>"

text \<open>
  What the grouping loop maintains for every minute group: the key is a whole minute, the
  group is not empty, its total is the number of its messages, and no counter map has a key
  twice.
\<close>

definition group_ok :: "int \<times> 'f minute_group \<Rightarrow> bool" where
  "group_ok x \<longleftrightarrow>
     fst x mod 60 = 0 \<and> g_messages (snd x) \<noteq> [] \<and>
     g_total (snd x) = int (length (g_messages (snd x))) \<and>
     distinct (map fst (g_countries (snd x))) \<and> distinct (map fst (g_cqs (snd x))) \<and>
     distinct (map fst (g_callers (snd x)))"

section \<open>Regular expressions and tokens\<close>

lemma dead_not_nullable: "dead r \<Longrightarrow> \<not> nullable r"
  by (induction r) auto

lemma dead_deriv: "dead r \<Longrightarrow> dead (deriv c r)"
  by (induction r) (auto simp: dead_not_nullable)

lemma dead_nomatch: "dead r \<Longrightarrow> \<not> fullmatch r s"
  by (induction s arbitrary: r) (auto simp: dead_not_nullable dead_deriv)

lemma deriv_not_alpha: "\<not> alpha r c \<Longrightarrow> dead (deriv c r)"
  by (induction r) auto

lemma alpha_deriv: "alpha (deriv d r) c \<Longrightarrow> alpha r c"
  by (induction r) (auto split: if_splits)

lemma fullmatch_alpha: "fullmatch r s \<Longrightarrow> c \<in> set s \<Longrightarrow> alpha r c"
proof (induction s arbitrary: r)
  case Nil
  then show ?case by simp
next
  case (Cons d s)
  from Cons.prems(1) have m: "fullmatch (deriv d r) s" by simp
  show ?case
  proof (cases "c = d")
    case True
    show ?thesis
    proof (rule ccontr)
      assume "\<not> alpha r c"
      then have "dead (deriv d r)" using True deriv_not_alpha by simp
      then show False using m dead_nomatch by blast
    qed
  next
    case False
    then have "c \<in> set s" using Cons.prems(2) by simp
    then have "alpha (deriv d r) c" using Cons.IH m by blast
    then show ?thesis by (rule alpha_deriv)
  qed
qed

lemma alpha_full_callsign: "alpha re_full_callsign c \<Longrightarrow> callsign_char c"
  by (auto simp: re_full_callsign_def Opt_def Plus_def alnum_def slash_def callsign_char_def
      eval_nat_numeral)

lemma full_callsign_nonempty: "\<not> fullmatch re_full_callsign []"
  by (simp add: re_full_callsign_def Opt_def Plus_def alnum_def slash_def eval_nat_numeral)

lemma split_from_tokens:
  "t \<in> set (split_from cur s) \<Longrightarrow> \<forall>c\<in>set cur. \<not> isspace c \<Longrightarrow>
     t \<noteq> [] \<and> (\<forall>c\<in>set t. \<not> isspace c)"
proof (induction s arbitrary: cur)
  case Nil
  then show ?case by (auto split: if_splits)
next
  case (Cons d s)
  show ?case
  proof (cases "isspace d")
    case True
    then show ?thesis using Cons.prems Cons.IH [of "[]"] by (auto split: if_splits)
  next
    case False
    then show ?thesis using Cons.prems Cons.IH [of "cur @ [d]"] by auto
  qed
qed

lemma split_tokens: "t \<in> set (split s) \<Longrightarrow> t \<noteq> [] \<and> (\<forall>c\<in>set t. \<not> isspace c)"
  using split_from_tokens [of t "[]" s] by (simp add: split_def)

lemma isspace_newline: "isspace (CHR 0x0A)"
  by (simp add: isspace_def)

lemma match_anchored_token:
  assumes "t \<in> set (split s)"
  shows "match_anchored r t \<longleftrightarrow> fullmatch r t"
proof -
  have "t \<noteq> []" "\<forall>c\<in>set t. \<not> isspace c" using assms split_tokens by blast+
  then have "last t \<noteq> CHR 0x0A" using isspace_newline by (metis last_in_set)
  then show ?thesis by (simp add: match_anchored_def)
qed

lemma callsign_token_kept:
  assumes "t \<in> set (split s)" "match_anchored re_full_callsign t"
  shows "\<not> startswith t ''a''" "t \<noteq> ''?''" "t \<notin> set [''CQ'', ''QRZ'', ''DE'']"
proof -
  have fm: "fullmatch re_full_callsign t" using assms match_anchored_token by blast
  then have cc: "\<forall>c\<in>set t. callsign_char c"
    using fullmatch_alpha alpha_full_callsign by blast
  have ne: "t \<noteq> []" using fm full_callsign_nonempty by auto
  have na: "\<not> callsign_char (CHR ''a'')" "\<not> callsign_char (CHR ''?'')"
    by (simp_all add: callsign_char_def isupper_AZ_def isdigit_def)
  show "\<not> startswith t ''a''" using cc ne na by (cases t) (auto simp: startswith_def)
  show "t \<noteq> ''?''" using cc na by auto
  have "\<not> fullmatch re_full_callsign ''CQ''" "\<not> fullmatch re_full_callsign ''QRZ''"
    "\<not> fullmatch re_full_callsign ''DE''"
    by code_simp+
  then show "t \<notin> set [''CQ'', ''QRZ'', ''DE'']" using fm by auto
qed

lemma ERROR_set_caller: "ERROR (set_caller self c pm) = ERROR pm"
  by (simp add: set_caller_def Let_def split: option.splits)

lemma caller_set_caller: "caller (set_caller self c pm) = Some c"
  by (simp add: set_caller_def Let_def split: option.splits)

lemma mtype_set_caller: "mtype (set_caller self c pm) = mtype pm"
  by (simp add: set_caller_def Let_def split: option.splits)

lemma parse_call_tail_error:
  assumes "ERROR pm = None" "no_identity pm" "ERROR (parse_call_tail self msg pm l) \<noteq> None"
  shows "no_identity (parse_call_tail self msg pm l)"
  using assms
  by (auto simp: parse_call_tail_def unknown_message_def no_identity_def ERROR_set_caller Let_def
      split: list.splits if_splits)

lemma parse_call_error:
  assumes "ERROR pm = None" "no_identity pm" "ERROR (parse_call self msg pm kw l) \<noteq> None"
  shows "no_identity (parse_call self msg pm kw l)"
proof -
  let ?pm1 = "pm\<lparr>mtype := kw\<rparr>"
  have a: "ERROR ?pm1 = None" "no_identity ?pm1" using assms by (simp_all add: no_identity_def)
  have u: "no_identity (unknown_message msg ?pm1)" using a by (simp add: unknown_message_def no_identity_def)
  show ?thesis
    using assms(3) u parse_call_tail_error [OF a]
    by (auto simp: parse_call_def Let_def split: list.splits if_splits)
qed

lemma parse_reply_error: "ERROR (parse_reply self pm l) = ERROR pm"
  by (auto simp: parse_reply_def ERROR_set_caller Let_def split: list.splits)

text \<open>
  Claim C10.  Whenever the classifier returns a result whose error reason is not null,
  the caller, the country, both zones, the continent, the coordinates, the UTC offset,
  the grid and the peer of that result are all null.
\<close>

theorem error_carries_no_identity:
  "ERROR (parse_wsjtx_decode_msg self msg) \<noteq> None \<longrightarrow>
     caller (parse_wsjtx_decode_msg self msg) = None \<and>
     pm_country (parse_wsjtx_decode_msg self msg) = None \<and>
     zone_cq (parse_wsjtx_decode_msg self msg) = None \<and>
     zone_itu (parse_wsjtx_decode_msg self msg) = None \<and>
     pm_continent (parse_wsjtx_decode_msg self msg) = None \<and>
     pm_lat (parse_wsjtx_decode_msg self msg) = None \<and>
     pm_lon (parse_wsjtx_decode_msg self msg) = None \<and>
     pm_gmtoff (parse_wsjtx_decode_msg self msg) = None \<and>
     grid (parse_wsjtx_decode_msg self msg) = None \<and>
     peer (parse_wsjtx_decode_msg self msg) = None"
proof
  assume err: "ERROR (parse_wsjtx_decode_msg self msg) \<noteq> None"
  let ?pm = "pm_init msg :: 'a parsed_msg"
  have i: "ERROR ?pm = None" "no_identity ?pm" by (simp_all add: pm_init_def no_identity_def)
  have u: "\<And>m. no_identity (unknown_message m ?pm)"
    by (simp add: unknown_message_def no_identity_def pm_init_def)
  have e: "no_identity (?pm\<lparr>ERROR := Some ''empty message''\<rparr>)"
    by (simp add: no_identity_def pm_init_def)
  have "no_identity (parse_wsjtx_decode_msg self msg)"
  proof (cases msg)
    case None
    then show ?thesis using e by (simp add: parse_wsjtx_decode_msg_def)
  next
    case (Some m)
    show ?thesis
      using err u e i parse_call_error [OF i] 
      unfolding parse_wsjtx_decode_msg_def Some
      by (auto simp: Let_def parse_reply_error simp del: set_simps split: list.splits if_splits)
  qed
  then show "caller (parse_wsjtx_decode_msg self msg) = None \<and>
     pm_country (parse_wsjtx_decode_msg self msg) = None \<and>
     zone_cq (parse_wsjtx_decode_msg self msg) = None \<and>
     zone_itu (parse_wsjtx_decode_msg self msg) = None \<and>
     pm_continent (parse_wsjtx_decode_msg self msg) = None \<and>
     pm_lat (parse_wsjtx_decode_msg self msg) = None \<and>
     pm_lon (parse_wsjtx_decode_msg self msg) = None \<and>
     pm_gmtoff (parse_wsjtx_decode_msg self msg) = None \<and>
     grid (parse_wsjtx_decode_msg self msg) = None \<and>
     peer (parse_wsjtx_decode_msg self msg) = None"
    by (simp add: no_identity_def)
qed

theorem error_carries_no_identity_witness:
  "ERROR (parse_wsjtx_decode_msg (CTY_init :: unit CTY) (Some ''CQ 123'')) \<noteq> None \<and>
   caller (parse_wsjtx_decode_msg (CTY_init :: unit CTY) (Some ''CQ 123'')) = None \<and>
   grid (parse_wsjtx_decode_msg (CTY_init :: unit CTY) (Some ''CQ 123'')) = None \<and>
   peer (parse_wsjtx_decode_msg (CTY_init :: unit CTY) (Some ''CQ 123'')) = None"
proof -
  have h: "ERROR (parse_wsjtx_decode_msg (CTY_init :: unit CTY) (Some ''CQ 123'')) \<noteq> None"
    by code_simp
  show ?thesis
    using h error_carries_no_identity [of "CTY_init :: unit CTY" "Some ''CQ 123''"] by blast
qed

section \<open>Replies\<close>

lemma strip_marginal_two:
  assumes "\<not> startswith p ''a''" "p \<noteq> ''?''"
  shows "\<exists>rest'. strip_marginal (c # p # rest) = c # p # rest'"
proof (cases "rest = []")
  case True
  then show ?thesis using assms by (simp add: strip_marginal_def)
next
  case False
  then show ?thesis by (simp add: strip_marginal_def)
qed

lemma parse_reply_two:
  assumes "match_anchored re_full_callsign c" "match_anchored re_full_callsign p"
  shows "mtype (parse_reply self pm (c # p # l2)) = ''REPLAY'' \<and>
         caller (parse_reply self pm (c # p # l2)) = Some c \<and>
         peer (parse_reply self pm (c # p # l2)) = Some p \<and>
         ERROR (parse_reply self pm (c # p # l2)) = ERROR pm"
  using assms
  by (auto simp: parse_reply_def Let_def caller_set_caller ERROR_set_caller split: list.splits)

text \<open>
  Claim C4, as the code has it.  For every text without a semicolon whose first two
  tokens (of \<^verbatim>\<open>split()\<close>) both match the full-callsign grammar, the classifier reports
  no error, the message type \<^verbatim>\<open>'REPLAY'\<close> (the literal the code uses for a reply), the
  first token as caller and the second as peer.  In particular
  \<^verbatim>\<open>"KA1ABC WB9XYZ RR73"\<close> gives that type, caller KA1ABC, peer WB9XYZ and no grid.  A
  token that matches the grammar is never one of CQ, QRZ and DE, so that condition of the
  claim needs no hypothesis.
\<close>

theorem reply_classification:
  "(CHR '';'' \<notin> set msg \<and> split msg = c # p # rest \<and>
    match_anchored re_full_callsign c \<and> match_anchored re_full_callsign p \<longrightarrow>
      mtype (parse_wsjtx_decode_msg self (Some msg)) = ''REPLAY'' \<and>
      caller (parse_wsjtx_decode_msg self (Some msg)) = Some c \<and>
      peer (parse_wsjtx_decode_msg self (Some msg)) = Some p \<and>
      ERROR (parse_wsjtx_decode_msg self (Some msg)) = None) \<and>
   mtype (parse_wsjtx_decode_msg self (Some ''KA1ABC WB9XYZ RR73'')) = ''REPLAY'' \<and>
   caller (parse_wsjtx_decode_msg self (Some ''KA1ABC WB9XYZ RR73'')) = Some ''KA1ABC'' \<and>
   peer (parse_wsjtx_decode_msg self (Some ''KA1ABC WB9XYZ RR73'')) = Some ''WB9XYZ'' \<and>
   grid (parse_wsjtx_decode_msg self (Some ''KA1ABC WB9XYZ RR73'')) = None"
proof -
  have gen: "mtype (parse_wsjtx_decode_msg self (Some m)) = ''REPLAY'' \<and>
      caller (parse_wsjtx_decode_msg self (Some m)) = Some a \<and>
      peer (parse_wsjtx_decode_msg self (Some m)) = Some b \<and>
      ERROR (parse_wsjtx_decode_msg self (Some m)) = None \<and>
      (\<exists>r'. parse_wsjtx_decode_msg self (Some m) = parse_reply self (pm_init (Some m)) (a # b # r')
          \<and> (r' = r \<or> r' = butlast r))"
    if h: "CHR '';'' \<notin> set m" "split m = a # b # r"
      "match_anchored re_full_callsign a" "match_anchored re_full_callsign b" for m a b r
  proof -
    have ta: "a \<in> set (split m)" and tb: "b \<in> set (split m)" using h(2) by simp_all
    have ka: "a \<notin> set [''CQ'', ''QRZ'', ''DE'']" using callsign_token_kept(3) [OF ta h(3)] .
    have kb: "\<not> startswith b ''a''" "b \<noteq> ''?''"
      using callsign_token_kept(1,2) [OF tb h(4)] by blast+
    have sm: "strip_marginal (a # b # r) = a # b # (if r \<noteq> [] \<and> (startswith (last r) ''a'' \<or> last r = ''?'') then butlast r else r)"
      using kb by (simp add: strip_marginal_def)
    define r' where "r' = (if r \<noteq> [] \<and> (startswith (last r) ''a'' \<or> last r = ''?'') then butlast r else r)"
    have ne: "m \<noteq> []" using h(2) by (auto simp: split_def)
    have eq: "parse_wsjtx_decode_msg self (Some m) = parse_reply self (pm_init (Some m)) (a # b # r')"
      using h(1) h(2) ne ka sm unfolding parse_wsjtx_decode_msg_def r'_def
      by (simp add: Let_def del: set_simps)
    have e0: "ERROR (pm_init (Some m) :: 'a parsed_msg) = None" by (simp add: pm_init_def)
    have "r' = r \<or> r' = butlast r" by (simp add: r'_def)
    then show ?thesis using eq parse_reply_two [OF h(3) h(4), of self "pm_init (Some m)" r'] e0
      by auto
  qed
  have s: "split ''KA1ABC WB9XYZ RR73'' = [''KA1ABC'', ''WB9XYZ'', ''RR73'']"
    by (simp add: split_def isspace_def)
  have m1: "match_anchored re_full_callsign ''KA1ABC''" by code_simp
  have m2: "match_anchored re_full_callsign ''WB9XYZ''" by code_simp
  have ns: "CHR '';'' \<notin> set ''KA1ABC WB9XYZ RR73''" by simp
  from gen [OF ns s m1 m2]
  obtain r' where r': "parse_wsjtx_decode_msg self (Some ''KA1ABC WB9XYZ RR73'') =
       parse_reply self (pm_init (Some ''KA1ABC WB9XYZ RR73'')) (''KA1ABC'' # ''WB9XYZ'' # r')"
    "r' = [''RR73''] \<or> r' = butlast [''RR73'']" by blast
  have g0: "grid (set_caller self ''KA1ABC'' (pm_init (Some ''KA1ABC WB9XYZ RR73''))) = None"
    by (simp add: set_caller_def pm_init_def Let_def split: option.splits)
  have "grid (parse_reply self (pm_init (Some ''KA1ABC WB9XYZ RR73'')) (''KA1ABC'' # ''WB9XYZ'' # r')) = None"
    using r'(2) m1 m2 g0 by (auto simp: parse_reply_def Let_def)
  then have g: "grid (parse_wsjtx_decode_msg self (Some ''KA1ABC WB9XYZ RR73'')) = None"
    using r'(1) by simp
  show ?thesis using gen [OF ns s m1 m2] g gen by blast
qed

text \<open>
  The claim as stated fails: a text whose first two tokens are callsigns but which holds
  a semicolon is rejected before any token is read, and the type of a reply is never the
  string \<^verbatim>\<open>'REPLY'\<close>.
\<close>

theorem reply_classification_counterexample:
  "CHR '';'' \<in> set ''KA1ABC WB9XYZ ;'' \<and>
   split ''KA1ABC WB9XYZ ;'' = [''KA1ABC'', ''WB9XYZ'', '';''] \<and>
   match_anchored re_full_callsign ''KA1ABC'' \<and> match_anchored re_full_callsign ''WB9XYZ'' \<and>
   ''KA1ABC'' \<notin> set [''CQ'', ''QRZ'', ''DE''] \<and>
   mtype (parse_wsjtx_decode_msg (CTY_init :: unit CTY) (Some ''KA1ABC WB9XYZ ;'')) = ''UNKNOWN'' \<and>
   caller (parse_wsjtx_decode_msg (CTY_init :: unit CTY) (Some ''KA1ABC WB9XYZ ;'')) = None \<and>
   peer (parse_wsjtx_decode_msg (CTY_init :: unit CTY) (Some ''KA1ABC WB9XYZ ;'')) = None \<and>
   mtype (parse_wsjtx_decode_msg (CTY_init :: unit CTY) (Some ''KA1ABC WB9XYZ RR73'')) \<noteq> ''REPLY''"
  by code_simp

theorem reply_classification_witness:
  "CHR '';'' \<notin> set ''KA1ABC WB9XYZ a1'' \<and>
   split ''KA1ABC WB9XYZ a1'' = [''KA1ABC'', ''WB9XYZ'', ''a1''] \<and>
   match_anchored re_full_callsign ''KA1ABC'' \<and> match_anchored re_full_callsign ''WB9XYZ'' \<and>
   mtype (parse_wsjtx_decode_msg (CTY_init :: unit CTY) (Some ''KA1ABC WB9XYZ a1'')) = ''REPLAY'' \<and>
   caller (parse_wsjtx_decode_msg (CTY_init :: unit CTY) (Some ''KA1ABC WB9XYZ a1'')) = Some ''KA1ABC'' \<and>
   peer (parse_wsjtx_decode_msg (CTY_init :: unit CTY) (Some ''KA1ABC WB9XYZ a1'')) = Some ''WB9XYZ''"
proof -
  have h: "CHR '';'' \<notin> set ''KA1ABC WB9XYZ a1'' \<and>
   split ''KA1ABC WB9XYZ a1'' = [''KA1ABC'', ''WB9XYZ'', ''a1''] \<and>
   match_anchored re_full_callsign ''KA1ABC'' \<and> match_anchored re_full_callsign ''WB9XYZ''"
    by code_simp
  show ?thesis
    using h reply_classification [of "''KA1ABC WB9XYZ a1''" "''KA1ABC''" "''WB9XYZ''" "[''a1'']" "CTY_init :: unit CTY"]
    by blast
qed

section \<open>The resolver\<close>

lemma prefix_scan_Some:
  "prefix_scan tbl cs (rev [0..<m]) = Some e \<longleftrightarrow>
     (\<exists>n<m. map_of tbl (take (n + 1) cs) = Some e \<and>
        (\<forall>k. n < k \<and> k < m \<longrightarrow> map_of tbl (take (k + 1) cs) = None))"
proof (induction m)
  case 0
  then show ?case by simp
next
  case (Suc m)
  show ?case
  proof (cases "map_of tbl (take (m + 1) cs)")
    case None
    have "(\<exists>n<Suc m. map_of tbl (take (n + 1) cs) = Some e \<and>
        (\<forall>k. n < k \<and> k < Suc m \<longrightarrow> map_of tbl (take (k + 1) cs) = None))
      \<longleftrightarrow> (\<exists>n<m. map_of tbl (take (n + 1) cs) = Some e \<and>
        (\<forall>k. n < k \<and> k < m \<longrightarrow> map_of tbl (take (k + 1) cs) = None))"
      using None by (metis less_Suc_eq option.distinct(1) Suc_eq_plus1)
    then show ?thesis using None Suc by simp
  next
    case (Some e')
    have "(\<exists>n<Suc m. map_of tbl (take (n + 1) cs) = Some e \<and>
        (\<forall>k. n < k \<and> k < Suc m \<longrightarrow> map_of tbl (take (k + 1) cs) = None)) \<longleftrightarrow> e' = e"
    proof
      assume "\<exists>n<Suc m. map_of tbl (take (n + 1) cs) = Some e \<and>
        (\<forall>k. n < k \<and> k < Suc m \<longrightarrow> map_of tbl (take (k + 1) cs) = None)"
      then obtain n where n: "n < Suc m" "map_of tbl (take (n + 1) cs) = Some e"
        "\<forall>k. n < k \<and> k < Suc m \<longrightarrow> map_of tbl (take (k + 1) cs) = None" by blast
      have "n = m"
      proof (rule ccontr)
        assume "n \<noteq> m"
        then have "n < m" using n(1) by simp
        then have "map_of tbl (take (m + 1) cs) = None" using n(3) by simp
        then show False using Some by simp
      qed
      then show "e' = e" using n(2) Some by simp
    next
      assume "e' = e"
      then have "map_of tbl (take (m + 1) cs) = Some e \<and>
        (\<forall>k. m < k \<and> k < Suc m \<longrightarrow> map_of tbl (take (k + 1) cs) = None)" using Some by auto
      then show "\<exists>n<Suc m. map_of tbl (take (n + 1) cs) = Some e \<and>
        (\<forall>k. n < k \<and> k < Suc m \<longrightarrow> map_of tbl (take (k + 1) cs) = None)" by blast
    qed
    then show ?thesis using Some by simp
  qed
qed

lemma map_of_keys: "map_of tbl k = Some e \<Longrightarrow> k \<in> set (map fst tbl)"
  by (metis map_of_eq_None_iff option.distinct(1) set_map)

lemma lookup_longest:
  assumes inv: "cty_inv self" and ex: "map_of (exact_callsign self) cs = None"
  shows "callsign_lookup self cs = Some e \<longleftrightarrow>
     (\<exists>p. p = take (length p) cs \<and> map_of (prefix self) p = Some e \<and>
        (\<forall>q. q = take (length q) cs \<and> q \<in> set (map fst (prefix self)) \<longrightarrow> length q \<le> length p))"
    (is "?L \<longleftrightarrow> ?R")
proof
  let ?m = "prf_max self" and ?tbl = "prefix self"
  assume ?L
  then have "prefix_scan ?tbl cs (rev [0..<?m]) = Some e"
    using ex by (simp add: callsign_lookup_def)
  then obtain n where n: "n < ?m" "map_of ?tbl (take (n + 1) cs) = Some e"
    "\<forall>k. n < k \<and> k < ?m \<longrightarrow> map_of ?tbl (take (k + 1) cs) = None"
    using prefix_scan_Some by blast
  let ?p = "take (n + 1) cs"
  have p1: "?p = take (length ?p) cs" by (simp add: min_def)
  have "length q \<le> length ?p" if q: "q = take (length q) cs" "q \<in> set (map fst ?tbl)" for q
  proof (rule ccontr)
    assume "\<not> length q \<le> length ?p"
    then have lt: "length ?p < length q" using not_le by blast
    have qb: "q \<noteq> [] \<and> length q \<le> ?m" using inv q(2) by (auto simp: cty_inv_def)
    have lq: "length q \<le> length cs" using q(1) by (metis length_take min.cobounded1)
    have "n + 1 < length q" using lt lq by (auto simp: min_def split: if_splits)
    then have "n < length q - 1" "length q - 1 < ?m" using qb by auto
    then have "map_of ?tbl (take ((length q - 1) + 1) cs) = None" using n(3) by blast
    moreover have "take ((length q - 1) + 1) cs = q" using qb q(1) by (simp add: Suc_leI)
    ultimately have "map_of ?tbl q = None" by simp
    then show False using q(2) by (simp add: map_of_eq_None_iff)
  qed
  then show ?R using p1 n(2) by blast
next
  let ?m = "prf_max self" and ?tbl = "prefix self"
  assume ?R
  then obtain p where p: "p = take (length p) cs" "map_of ?tbl p = Some e"
    "\<forall>q. q = take (length q) cs \<and> q \<in> set (map fst ?tbl) \<longrightarrow> length q \<le> length p" by blast
  have pk: "p \<in> set (map fst ?tbl)" using p(2) by (rule map_of_keys)
  then have pb: "p \<noteq> []" "length p \<le> ?m" using inv by (auto simp: cty_inv_def)
  define S where "S = {k. k < ?m \<and> map_of ?tbl (take (k + 1) cs) \<noteq> None}"
  have "take ((length p - 1) + 1) cs = p" using pb(1) p(1) by (simp add: Suc_leI)
  moreover have "length p - 1 < ?m" using pb by (cases p) auto
  ultimately have inS: "length p - 1 \<in> S" using p(2) by (simp add: S_def)
  have fin: "finite S" by (simp add: S_def)
  define n where "n = Max S"
  have nS: "n \<in> S" using inS fin unfolding n_def by (metis Max_in empty_iff)
  have nmax: "\<forall>k \<in> S. k \<le> n" using fin unfolding n_def by simp
  obtain e' where e': "map_of ?tbl (take (n + 1) cs) = Some e'" using nS by (auto simp: S_def)
  have above: "\<forall>k. n < k \<and> k < ?m \<longrightarrow> map_of ?tbl (take (k + 1) cs) = None"
    using nmax by (force simp: S_def)
  have "n < ?m" using nS by (simp add: S_def)
  then have scan: "prefix_scan ?tbl cs (rev [0..<?m]) = Some e'"
    using e' above prefix_scan_Some by blast
  let ?p' = "take (n + 1) cs"
  have pp: "?p' = take (length ?p') cs" by (simp add: min_def)
  have "?p' \<in> set (map fst ?tbl)" using e' by (rule map_of_keys)
  then have le1: "length ?p' \<le> length p" using p(3) pp by blast
  have "length p - 1 \<le> n" using inS nmax by blast
  then have "length p \<le> n + 1" by simp
  moreover have "length p \<le> length cs" using p(1) by (metis length_take min.cobounded1)
  ultimately have le2: "length p \<le> length ?p'" by simp
  have "?p' = p" using pp le1 le2 p(1) by (metis le_antisym)
  then have "e' = e" using e' p(2) by simp
  then show ?L using scan ex by (simp add: callsign_lookup_def)
qed

lemma re_callsign_match_nonempty:
  "re_callsign_match s = Some (f, cs, a, b) \<Longrightarrow> cs \<noteq> []"
  by (auto simp: re_callsign_match_def Let_def split: prod.splits if_splits)

lemma add_alias_inv:
  assumes "cty_inv self" "add_alias cname c_data self pfx = Inr self'"
  shows "cty_inv self'"
proof -
  obtain f cs a b where m: "re_callsign_match pfx = Some (f, cs, a, b)"
    using assms(2) by (auto simp: add_alias_def split: option.splits)
  have ne: "cs \<noteq> []" using m by (rule re_callsign_match_nonempty)
  show ?thesis
    using assms ne m
    by (fastforce simp: add_alias_def cty_inv_def Let_def split: if_splits)
qed

lemma add_aliases_inv:
  "cty_inv self \<Longrightarrow> add_aliases cname c_data self pfxs = Inr self' \<Longrightarrow> cty_inv self'"
proof (induction pfxs arbitrary: self)
  case Nil
  then show ?case by simp
next
  case (Cons pfx pfxs)
  then show ?case by (auto split: sum.splits dest: add_alias_inv)
qed

lemma parse_alias_line_inv:
  "cty_inv self \<Longrightarrow> parse_alias_line self cname line_text = Inr self' \<Longrightarrow> cty_inv self'"
  by (auto simp: parse_alias_line_def split: option.splits dest: add_aliases_inv)

lemma cty_inv_countries: "cty_inv (self\<lparr>countries := c\<rparr>) = cty_inv self"
  by (simp add: cty_inv_def)

lemma read_lines_inv:
  "cty_inv self \<Longrightarrow> read_lines float self cur al f = Inr self' \<Longrightarrow> cty_inv self'"
proof (induction f arbitrary: self cur al)
  case Nil
  then show ?case by simp
next
  case (Cons line0 f)
  show ?case
  proof (cases cur)
    case None
    then show ?thesis
      using Cons.prems Cons.IH [of "self\<lparr>countries := c\<rparr>" for c]
      by (auto simp: Let_def cty_inv_countries split: if_splits sum.splits prod.splits)
  next
    case (Some cname)
    then show ?thesis
      using Cons.prems Cons.IH
      by (auto simp: Let_def split: if_splits sum.splits dest: parse_alias_line_inv)
  qed
qed

lemma CTY_new_inv: "CTY_new float f = Inr self \<Longrightarrow> cty_inv self"
  using read_lines_inv [of CTY_init float None "[]" f self]
  by (simp add: CTY_new_def cty_inv_def CTY_init_def)

lemma prefix_scan_None:
  "prefix_scan tbl cs (rev [0..<m]) = None \<longleftrightarrow> (\<forall>n<m. map_of tbl (take (n + 1) cs) = None)"
proof (induction m)
  case 0
  then show ?case by simp
next
  case (Suc m)
  then show ?case by (auto simp: less_Suc_eq split: option.splits)
qed



text \<open>
  Claim C3.  On tables built by \<^verbatim>\<open>parse_alias_line\<close> (\<open>cty_inv\<close>), \<^verbatim>\<open>callsign_lookup\<close>
  returns the entry of the exact table when the full callsign is there; otherwise it
  returns the entry of the longest prefix of the callsign that is a key of the prefix
  table, and null exactly when no prefix of length 1 or more is a key.  With the prefix
  keys K, KH6 and KH6Z, the callsign KH6ZZZ resolves to the entry of KH6Z.
\<close>

theorem callsign_lookup_longest_prefix:
  assumes "cty_inv self"
  shows "(\<forall>e. map_of (exact_callsign self) callsign = Some e \<longrightarrow>
            callsign_lookup self callsign = Some e) \<and>
         (map_of (exact_callsign self) callsign = None \<longrightarrow>
            (\<forall>e. callsign_lookup self callsign = Some e \<longleftrightarrow>
               (\<exists>p. p = take (length p) callsign \<and> map_of (prefix self) p = Some e \<and>
                  (\<forall>q. q = take (length q) callsign \<and> q \<in> set (map fst (prefix self))
                       \<longrightarrow> length q \<le> length p))) \<and>
            (callsign_lookup self callsign = None \<longleftrightarrow>
               (\<forall>n\<ge>1. map_of (prefix self) (take n callsign) = None))) \<and>
         (set (map fst (prefix self)) = {''K'', ''KH6'', ''KH6Z''} \<and>
          map_of (exact_callsign self) ''KH6ZZZ'' = None \<longrightarrow>
            callsign_lookup self ''KH6ZZZ'' = map_of (prefix self) ''KH6Z'' \<and>
            map_of (prefix self) ''KH6Z'' \<noteq> None)"
proof (intro conjI impI allI)
  fix e
  assume "map_of (exact_callsign self) callsign = Some e"
  then show "callsign_lookup self callsign = Some e" by (simp add: callsign_lookup_def)
next
  fix e
  assume "map_of (exact_callsign self) callsign = None"
  then show "callsign_lookup self callsign = Some e \<longleftrightarrow>
               (\<exists>p. p = take (length p) callsign \<and> map_of (prefix self) p = Some e \<and>
                  (\<forall>q. q = take (length q) callsign \<and> q \<in> set (map fst (prefix self))
                       \<longrightarrow> length q \<le> length p))"
    using lookup_longest [OF assms] by blast
next
  assume ex: "map_of (exact_callsign self) callsign = None"
  let ?m = "prf_max self" and ?tbl = "prefix self"
  have l: "callsign_lookup self callsign = None \<longleftrightarrow>
     (\<forall>n<?m. map_of ?tbl (take (n + 1) callsign) = None)"
    using ex prefix_scan_None [of ?tbl callsign ?m] by (simp add: callsign_lookup_def)
  have "map_of ?tbl (take n callsign) = None"
    if a: "\<forall>n<?m. map_of ?tbl (take (n + 1) callsign) = None" and n: "1 \<le> n" for n
  proof (rule ccontr)
    assume "map_of ?tbl (take n callsign) \<noteq> None"
    then obtain e where e: "map_of ?tbl (take n callsign) = Some e" by blast
    let ?q = "take n callsign"
    have "?q \<in> set (map fst ?tbl)" using e by (rule map_of_keys)
    then have "?q \<noteq> [] \<and> length ?q \<le> ?m" using assms unfolding cty_inv_def by blast
    then have qb: "?q \<noteq> []" "length ?q \<le> ?m" by blast+
    have "length ?q - 1 < ?m" using qb by (cases ?q) auto
    then have "map_of ?tbl (take ((length ?q - 1) + 1) callsign) = None" using a by blast
    moreover have "take ((length ?q - 1) + 1) callsign = ?q"
      using qb(1) by (auto simp: min_def Suc_leI)
    ultimately show False using e by simp
  qed
  moreover have "\<forall>n<?m. map_of ?tbl (take (n + 1) callsign) = None"
    if "\<forall>n\<ge>1. map_of ?tbl (take n callsign) = None"
    using that by simp
  ultimately show "callsign_lookup self callsign = None \<longleftrightarrow>
               (\<forall>n\<ge>1. map_of ?tbl (take n callsign) = None)"
    using l by blast
next
  assume h: "set (map fst (prefix self)) = {''K'', ''KH6'', ''KH6Z''} \<and>
          map_of (exact_callsign self) ''KH6ZZZ'' = None"
  then have keys: "set (map fst (prefix self)) = {''K'', ''KH6'', ''KH6Z''}"
    and ex: "map_of (exact_callsign self) ''KH6ZZZ'' = None" by blast+
  have "''KH6Z'' \<in> set (map fst (prefix self))" unfolding keys by simp
  then have "map_of (prefix self) ''KH6Z'' \<noteq> None" by (simp add: map_of_eq_None_iff)
  then obtain e where e: "map_of (prefix self) ''KH6Z'' = Some e" by blast
  have len: "length q \<le> length ''KH6Z''" if "q \<in> set (map fst (prefix self))" for q
  proof -
    have "q = ''K'' \<or> q = ''KH6'' \<or> q = ''KH6Z''" using that unfolding keys by blast
    then show ?thesis by auto
  qed
  have pre: "''KH6Z'' = take (length ''KH6Z'') ''KH6ZZZ''" by simp
  have "callsign_lookup self ''KH6ZZZ'' = Some e"
    using lookup_longest [OF assms ex, of e] e len pre by blast
  then show "callsign_lookup self ''KH6ZZZ'' = map_of (prefix self) ''KH6Z''" using e by simp
  show "map_of (prefix self) ''KH6Z'' \<noteq> None" using e by simp
qed

lemma example_cty_eval:
  "(case CTY_new Some example_lines of
      Inl e \<Rightarrow> False
    | Inr self \<Rightarrow>
        map fst (prefix self) = [''K'', ''KH6'', ''KH6Z'', ''OE''] \<and>
        map_of (prefix self) ''KH6Z'' = Some example_kh6z \<and>
        exact_callsign self = [(''OE3RSU'', example_oe3rsu)])"
  by code_simp

lemma example_cty_built: "CTY_new Some example_lines = Inr example_cty"
  using example_cty_eval unfolding example_cty_def
  by (cases "CTY_new Some example_lines :: py_error + string CTY") simp_all

lemma example_cty_tables:
  "map fst (prefix example_cty) = [''K'', ''KH6'', ''KH6Z'', ''OE''] \<and>
   map_of (prefix example_cty) ''KH6Z'' = Some example_kh6z \<and>
   exact_callsign example_cty = [(''OE3RSU'', example_oe3rsu)]"
  using example_cty_eval unfolding example_cty_def
  by (cases "CTY_new Some example_lines :: py_error + string CTY") simp_all

theorem callsign_lookup_longest_prefix_witness:
  "cty_inv example_cty \<and>
   callsign_lookup example_cty ''OE3RSU'' = Some example_oe3rsu \<and>
   map_of (prefix example_cty) ''OE'' \<noteq> None \<and>
   callsign_lookup example_cty ''KH6ZZZ'' = Some example_kh6z \<and>
   callsign_lookup example_cty ''XX1XX'' = None"
proof -
  have inv: "cty_inv example_cty" using example_cty_built by (rule CTY_new_inv)
  note t = callsign_lookup_longest_prefix [OF inv]
  have e1: "map_of (exact_callsign example_cty) ''OE3RSU'' = Some example_oe3rsu"
    using example_cty_tables by simp
  have e2: "map_of (exact_callsign example_cty) ''KH6ZZZ'' = None"
    using example_cty_tables by simp
  have e3: "map_of (exact_callsign example_cty) ''XX1XX'' = None"
    using example_cty_tables by simp
  have keys: "set (map fst (prefix example_cty)) = set [''K'', ''KH6'', ''KH6Z'', ''OE'']"
    using example_cty_tables by simp
  have oe: "map_of (prefix example_cty) ''OE'' \<noteq> None"
    unfolding map_of_eq_None_iff set_map [symmetric] keys by simp
  have len: "length q \<le> length ''KH6Z''"
    if q: "q = take (length q) ''KH6ZZZ''" "q \<in> set (map fst (prefix example_cty))" for q
  proof -
    have "q = ''K'' \<or> q = ''KH6'' \<or> q = ''KH6Z'' \<or> q = ''OE''"
      using q(2) unfolding keys by simp
    then show ?thesis by auto
  qed
  have pre: "''KH6Z'' = take (length ''KH6Z'') ''KH6ZZZ''" by simp
  have kz: "map_of (prefix example_cty) ''KH6Z'' = Some example_kh6z"
    using example_cty_tables by blast
  have k: "callsign_lookup example_cty ''KH6ZZZ'' = Some example_kh6z"
    using t [of "''KH6ZZZ''"] e2 kz len pre by blast
  have "map_of (prefix example_cty) (take n ''XX1XX'') = None" if "1 \<le> n" for n
  proof -
    have "n \<noteq> 0" using that by simp
    then obtain k where n: "n = Suc k" by (cases n) auto
    have "take n ''XX1XX'' \<notin> set [''K'', ''KH6'', ''KH6Z'', ''OE'']"
      unfolding n by simp
    then show ?thesis unfolding map_of_eq_None_iff set_map [symmetric] keys by simp
  qed
  then have x: "callsign_lookup example_cty ''XX1XX'' = None"
    using t [of "''XX1XX''"] e3 by blast
  show ?thesis using inv t [of "''OE3RSU''"] e1 oe k x by blast
qed

section \<open>The aggregation engine\<close>

text \<open>
  Rounding.  \<open>round_half_even\<close> returns the integer that \<open>nearest_even\<close> describes, and no
  other integer has that property.
\<close>

lemma rhe_char:
  assumes "0 < d"
  shows "2 * \<bar>round_half_even n d * d - n\<bar> \<le> d \<and>
         (2 * \<bar>round_half_even n d * d - n\<bar> = d \<longrightarrow> even (round_half_even n d))"
proof -
  define q r where "q = n div d" and "r = n mod d"
  have n: "n = q * d + r" by (simp add: q_def r_def)
  have r: "0 \<le> r" "r < d" using assms by (simp_all add: r_def)
  have a: "q * d - n = - r" using n by simp
  have b: "(q + 1) * d - n = d - r" using n by (simp add: algebra_simps)
  consider (lo) "2 * r < d" | (hi) "2 * r > d" | (tie) "2 * r = d" by linarith
  then show ?thesis
  proof cases
    case lo
    then have "round_half_even n d = q" by (simp add: round_half_even_def Let_def q_def r_def)
    then show ?thesis using a r lo by simp
  next
    case hi
    then have "round_half_even n d = q + 1" by (simp add: round_half_even_def Let_def q_def r_def)
    then show ?thesis using b r hi by simp
  next
    case tie
    show ?thesis
    proof (cases "even q")
      case True
      then have "round_half_even n d = q" using tie by (simp add: round_half_even_def Let_def q_def r_def)
      then show ?thesis using a r tie True by simp
    next
      case False
      then have "round_half_even n d = q + 1" using tie by (simp add: round_half_even_def Let_def q_def r_def)
      then show ?thesis using b r tie False by simp
    qed
  qed
qed

lemma rhe_unique:
  assumes "0 < d" "2 * \<bar>p * d - n\<bar> \<le> d" "2 * \<bar>p * d - n\<bar> = d \<longrightarrow> even p"
  shows "round_half_even n d = p"
proof -
  define q r t where "q = n div d" and "r = n mod d" and "t = p - q"
  have n: "n = q * d + r" by (simp add: q_def r_def)
  have r: "0 \<le> r" "r < d" using assms(1) by (simp_all add: r_def)
  have e: "p * d - n = t * d - r" using n by (simp add: t_def algebra_simps)
  have t01: "t = 0 \<or> t = 1"
  proof (rule ccontr)
    assume "\<not> (t = 0 \<or> t = 1)"
    then consider "t \<le> - 1" | "2 \<le> t" by linarith
    then show False
    proof cases
      case 1
      then have "t * d \<le> - 1 * d" using assms(1) by (intro mult_right_mono) simp_all
      then have "t * d - r \<le> - d" using r by linarith
      then have "2 * \<bar>t * d - r\<bar> \<ge> 2 * d" by simp
      then show False using assms(1,2) e by simp
    next
      case 2
      then have "2 * d \<le> t * d" using assms(1) by (intro mult_right_mono) simp_all
      then have "t * d - r > d" using r by linarith
      then have "2 * \<bar>t * d - r\<bar> > 2 * d" by simp
      then show False using assms(1,2) e by simp
    qed
  qed
  then show ?thesis
  proof
    assume t0: "t = 0"
    then have p: "p = q" by (simp add: t_def)
    have "2 * r \<le> d" using assms(2) e t0 r by simp
    moreover have "even q" if "2 * r = d" using assms(3) e t0 r that p by simp
    ultimately show ?thesis
      using p by (auto simp: round_half_even_def Let_def q_def r_def)
  next
    assume t1: "t = 1"
    then have p: "p = q + 1" by (simp add: t_def)
    have f: "p * d - n = d - r" using e t1 by simp
    have "2 * (d - r) \<le> d" using assms(2) f r by simp
    then have h: "d \<le> 2 * r" by simp
    moreover have "odd q" if "2 * r = d"
    proof -
      have "2 * \<bar>p * d - n\<bar> = d" using f r that by simp
      then have "even p" using assms(3) by simp
      then show ?thesis using p by simp
    qed
    ultimately show ?thesis
      using p by (auto simp: round_half_even_def Let_def q_def r_def)
  qed
qed

lemma nearest_even_iff:
  assumes "b \<noteq> 0"
  shows "nearest_even q a b \<longleftrightarrow> q = round_half_even (if b < 0 then - a else a) \<bar>b\<bar>"
proof -
  let ?n = "if b < 0 then - a else a"
  have d: "0 < \<bar>b\<bar>" using assms by simp
  have e: "\<bar>q * b - a\<bar> = \<bar>q * \<bar>b\<bar> - ?n\<bar>" for q
  proof (cases "b < 0")
    case True
    then have "q * \<bar>b\<bar> - ?n = - (q * b - a)" by simp
    then show ?thesis by simp
  next
    case False
    then show ?thesis by simp
  qed
  show ?thesis
  proof
    assume "nearest_even q a b"
    then have "2 * \<bar>q * \<bar>b\<bar> - ?n\<bar> \<le> \<bar>b\<bar>" "2 * \<bar>q * \<bar>b\<bar> - ?n\<bar> = \<bar>b\<bar> \<longrightarrow> even q"
      unfolding nearest_even_def e by auto
    then show "q = round_half_even ?n \<bar>b\<bar>" using rhe_unique [OF d] by metis
  next
    assume q: "q = round_half_even ?n \<bar>b\<bar>"
    show "nearest_even q a b"
      using rhe_char [OF d, of ?n] unfolding nearest_even_def e q by linarith
  qed
qed

text \<open>
  Rounding the quotient to a multiple of \<open>1 / g\<close> first does not change the integer it
  rounds to, when \<open>g\<close> is even and larger than the divisor.
\<close>

lemma double_rounding:
  assumes "0 < d" "d < g" "even g"
  shows "round_half_even (round_half_even (n * g) d) g = round_half_even n d"
proof -
  define q m where "q = round_half_even n d" and "m = round_half_even (n * g) d"
  have g0: "0 < g" using assms by simp
  have A: "2 * \<bar>q * d - n\<bar> \<le> d" "2 * \<bar>q * d - n\<bar> = d \<longrightarrow> even q"
    using rhe_char [OF assms(1), of n] by (simp_all add: q_def)
  have B: "2 * \<bar>m * d - n * g\<bar> \<le> d"
    using rhe_char [OF assms(1), of "n * g"] by (simp add: m_def)
  define X Y where "X = q * d - n" and "Y = n * g - m * d"
  have id: "(q * g - m) * d = g * X + Y" by (simp add: X_def Y_def algebra_simps)
  have "\<bar>q * g - m\<bar> * d = \<bar>g * X + Y\<bar>" using id assms(1) by (metis abs_mult abs_of_pos)
  also have "\<dots> \<le> g * \<bar>X\<bar> + \<bar>Y\<bar>"
    using g0 by (metis abs_mult abs_of_pos abs_triangle_ineq)
  finally have tri: "\<bar>q * g - m\<bar> * d \<le> g * \<bar>X\<bar> + \<bar>Y\<bar>" .
  have Y: "2 * \<bar>Y\<bar> \<le> d" using B by (simp add: Y_def abs_minus_commute)
  have X: "2 * \<bar>X\<bar> \<le> d" using A(1) by (simp add: X_def)
  have gX: "g * (2 * \<bar>X\<bar>) \<le> g * d" using X g0 by (intro mult_left_mono) simp_all
  have "2 * \<bar>q * g - m\<bar> * d \<le> g * d + d" using tri gX Y by (simp add: algebra_simps)
  then have "(2 * \<bar>q * g - m\<bar>) * d \<le> (g + 1) * d" by (simp add: algebra_simps)
  then have le1: "2 * \<bar>q * g - m\<bar> \<le> g + 1" using assms(1) by (simp add: mult_le_cancel_right)
  have le: "2 * \<bar>q * g - m\<bar> \<le> g"
  proof (rule ccontr)
    assume "\<not> 2 * \<bar>q * g - m\<bar> \<le> g"
    then have "2 * \<bar>q * g - m\<bar> = g + 1" using le1 by linarith
    then have "even (g + 1)" by (metis dvd_triv_left)
    then show False using assms(3) by simp
  qed
  have ev: "even q" if tie: "2 * \<bar>q * g - m\<bar> = g"
  proof (rule ccontr)
    assume "odd q"
    then have "2 * \<bar>X\<bar> \<noteq> d" using A(2) by (auto simp: X_def)
    then have X1: "2 * \<bar>X\<bar> \<le> d - 1" using X by linarith
    have "g * (2 * \<bar>X\<bar>) \<le> g * (d - 1)" using X1 g0 by (intro mult_left_mono) simp_all
    then have "2 * \<bar>q * g - m\<bar> * d \<le> g * (d - 1) + d" using tri Y by (simp add: algebra_simps)
    also have "\<dots> < g * d" using assms(2) by (simp add: algebra_simps)
    finally have "(2 * \<bar>q * g - m\<bar>) * d < g * d" by (simp add: algebra_simps)
    then have "2 * \<bar>q * g - m\<bar> < g" using assms(1) by (simp add: mult_less_cancel_right)
    then show False using tie by simp
  qed
  have "round_half_even m g = q" using g0 le ev by (intro rhe_unique) auto
  then show ?thesis by (simp add: q_def m_def)
qed


text \<open>
  Hence \<^verbatim>\<open>round(a / b)\<close> is the integer nearest to the exact quotient, a tie going to the
  even one, as long as both operands are below \<open>2 ^ 52\<close> in magnitude: the double that
  the division returns then has its last place at \<open>2 ^ e\<close> with \<open>1 / 2 ^ e\<close> even and larger
  than \<open>\<bar>b\<bar>\<close>.
\<close>

lemma bit_length_pos: "0 < n \<Longrightarrow> 0 < bit_length n"
  by (subst bit_length.simps) simp

lemma bit_length_upper: "n < 2 ^ bit_length n"
proof (induction n rule: bit_length.induct)
  case (1 n)
  show ?case
  proof (cases "n \<le> 0")
    case True
    then show ?thesis by (subst bit_length.simps) simp
  next
    case False
    then have "n div 2 < 2 ^ bit_length (n div 2)" using 1 by simp
    then have "n < 2 * 2 ^ bit_length (n div 2)" by linarith
    then show ?thesis using False by (subst bit_length.simps) simp
  qed
qed

lemma bit_length_le: "n < 2 ^ j \<Longrightarrow> bit_length n \<le> j"
proof (induction n arbitrary: j rule: bit_length.induct)
  case (1 n)
  show ?case
  proof (cases "n \<le> 0")
    case True
    then show ?thesis by (subst bit_length.simps) simp
  next
    case False
    then have "j \<noteq> 0" using "1.prems" by (cases j) auto
    then obtain i where j: "j = Suc i" by (cases j) auto
    have "n div 2 < 2 ^ i" using "1.prems" j by simp
    then have "bit_length (n div 2) \<le> i" using "1.IH" False by simp
    then show ?thesis using False j by (subst bit_length.simps) simp
  qed
qed

lemma py_round_div_zero: "py_round_div a 0 = Inl ZeroDivisionError"
  by (simp add: py_round_div_def)

lemma py_round_div_small:
  assumes "\<bar>a\<bar> < 2 ^ 52" "\<bar>b\<bar> < 2 ^ 52" "b \<noteq> 0"
  shows "\<exists>q. py_round_div a b = Inr q \<and> nearest_even q a b"
proof (cases "a = 0")
  case True
  then show ?thesis using assms(3) by (simp add: py_round_div_def nearest_even_def)
next
  case False
  define n d s where "n = \<bar>a\<bar>" and "d = \<bar>b\<bar>"
    and "s = (if (a < 0) \<noteq> (b < 0) then - 1 else 1 :: int)"
  define k0 where "k0 = int (bit_length n) - int (bit_length d)"
  define k where "k = (if n * 2 ^ nat (- k0) < d * 2 ^ nat k0 then k0 - 1 else k0)"
  define e where "e = max (k - 52) (- 1074)"
  define g where "g = (2::int) ^ nat (- e)"
  have n: "0 < n" "n < 2 ^ 52" using False assms(1) by (simp_all add: n_def)
  have d: "0 < d" "d < 2 ^ 52" using assms(2,3) by (simp_all add: d_def)
  have bn: "bit_length n \<le> 52" using n(2) by (rule bit_length_le)
  have bd: "bit_length d \<le> 52" using d(2) by (rule bit_length_le)
  have bp: "0 < bit_length d" using d(1) by (rule bit_length_pos)
  have "k \<le> k0" by (simp add: k_def)
  then have el: "e \<le> - int (bit_length d)" using bn bd by (simp add: e_def k0_def)
  then have eneg: "e < 0" using bp by simp
  have "bit_length d \<le> nat (- e)" using el by simp
  then have "(2::int) ^ bit_length d \<le> 2 ^ nat (- e)" by (rule power_increasing) simp
  then have gd: "d < g" using bit_length_upper [of d] unfolding g_def by linarith
  have "0 < nat (- e)" using eneg by simp
  then have ge: "even g" by (simp add: g_def)
  have "py_round_div a b =
      (if 0 \<le> e then
         (if 2 ^ 1024 \<le> round_half_even (n * 2 ^ nat (- e)) (d * 2 ^ nat e) * 2 ^ nat e
          then Inl OverflowError
          else Inr (s * (round_half_even (n * 2 ^ nat (- e)) (d * 2 ^ nat e) * 2 ^ nat e)))
       else Inr (s * round_half_even (round_half_even (n * 2 ^ nat (- e)) (d * 2 ^ nat e))
                       (2 ^ nat (- e))))"
    unfolding py_round_div_def Let_def n_def d_def s_def k0_def k_def e_def
    using False assms(3) by (simp only: if_False)
  moreover have "\<not> 0 \<le> e" "nat e = 0" using eneg by simp_all
  ultimately have res: "py_round_div a b = Inr (s * round_half_even (round_half_even (n * g) d) g)"
    by (simp only: if_False g_def power_0 mult_1_right)
  have dr: "round_half_even (round_half_even (n * g) d) g = round_half_even n d"
    using d(1) gd ge by (rule double_rounding)
  define Q where "Q = round_half_even n d"
  have sq: "s * Q = round_half_even (if b < 0 then - a else a) \<bar>b\<bar>"
  proof -
    have neg: "round_half_even (- n) d = - round_half_even n d"
      using rhe_unique [OF d(1), of "- Q" "- n"] rhe_char [OF d(1), of n]
      by (simp add: Q_def abs_minus_commute algebra_simps)
    show ?thesis using neg False assms(3) by (auto simp: s_def Q_def n_def d_def)
  qed
  have "nearest_even (s * Q) a b" using sq nearest_even_iff [OF assms(3)] by simp
  then show ?thesis using res dr by (simp add: Q_def)
qed

text \<open>Grouping, the tables and the minutes phase.\<close>

lemma map_of_dict_set: "map_of (dict_set k v d) k' = (if k' = k then Some v else map_of d k')"
  by (induction d) auto

lemma add_counts_lookup:
  "distinct (map fst items) \<Longrightarrow>
     map_of (add_counts items d) k = keywise_sum (map_of d k) (map_of items k)"
proof (induction items arbitrary: d)
  case Nil
  then show ?case by (simp add: keywise_sum_def)
next
  case (Cons item items)
  obtain k' n where item: "item = (k', n)" by (cases item)
  have d: "distinct (map fst items)" and nk: "k' \<notin> fst ` set items"
    using Cons.prems item by auto
  have nk': "map_of items k' = None" using nk by (simp add: map_of_eq_None_iff)
  show ?case
    using Cons.IH [OF d] nk'
    by (auto simp: item map_of_dict_set keywise_sum_def split: option.splits)
qed

lemma group_no_caller:
  "\<forall>m\<in>set data. msg_caller m = None \<Longrightarrow>
     foldl (\<lambda>st msg. group_message msg st) st data = st"
  by (induction data arbitrary: st) (auto simp: group_message_def split: prod.splits)

lemma fetch_empty_no_row:
  assumes "fetch_in_minutes self monitor band (now - now mod 60) (now - now mod 60) = []"
  shows "\<not> list_ex (\<lambda>row. mr_ctime row = now - now mod 60 \<and> mr_monitor row = monitor \<and>
                         mr_band row = band) (tb_minutes self)"
proof -
  have "(now - now mod 60) mod 60 = 0" by presburger
  then have "filter (\<lambda>row. now - now mod 60 \<le> mr_ctime row \<and> mr_ctime row \<le> now - now mod 60 \<and>
                    mr_monitor row = monitor \<and> mr_band row = band) (tb_minutes self) = []"
    using assms by (simp add: fetch_in_minutes_def db_read_minutes_def)
  then show ?thesis by (auto simp: filter_empty_conv list_ex_iff)
qed

lemma tb_minutes_upsert_hour: "tb_minutes (db_upsert_hour monitor band c self) = tb_minutes self"
  by (simp add: db_upsert_hour_def Let_def)

lemma tb_minutes_hours_idle:
  "tb_minutes (snd (save_hours_table monitor band t [] self)) = tb_minutes self"
  by (simp add: save_hours_table_def Let_def tb_minutes_upsert_hour)

lemma hours_idle_ok: "fst (save_hours_table monitor band t [] self) = None"
  by (simp add: save_hours_table_def Let_def)

text \<open>
  Claim C9.  When no message of the batch has a caller, \<^verbatim>\<open>save_monitor_data\<close> succeeds;
  if no minute bucket is stored for the current minute of the monitor and band, it adds
  the idle bucket (total 0, mean 0, no messages, empty counter maps) for that minute to
  the minutes table, and if one is stored it leaves the minutes table as it is.
\<close>

theorem idle_minute_bucket:
  assumes "\<forall>m\<in>set data. msg_caller m = None"
  shows "(fetch_in_minutes self monitor band (now - now mod 60) (now - now mod 60) = [] \<longrightarrow>
            tb_minutes (snd (save_monitor_data now monitor band data self)) =
              tb_minutes self @
                [\<lparr>mr_ctime = now - now mod 60, mr_monitor = monitor, mr_band = band,
                  mr_messages = [], mr_total = 0, mr_snr = 0, mr_countries = [], mr_cqs = [],
                  mr_callers = []\<rparr>]) \<and>
         (fetch_in_minutes self monitor band (now - now mod 60) (now - now mod 60) \<noteq> [] \<longrightarrow>
            tb_minutes (snd (save_monitor_data now monitor band data self)) = tb_minutes self) \<and>
         fst (save_monitor_data now monitor band data self) = None"
proof -
  let ?t = "now - now mod 60"
  have g: "group_messages data = ([], 0, 0)"
    using assms by (simp add: group_messages_def group_no_caller)
  show ?thesis
  proof (cases "fetch_in_minutes self monitor band ?t ?t = []")
    case True
    have "\<not> list_ex (\<lambda>row. mr_ctime row = ?t \<and> mr_monitor row = monitor \<and>
                         mr_band row = band) (tb_minutes self)"
      using True by (rule fetch_empty_no_row)
    then have u: "tb_minutes (db_upsert_minute monitor band (idle_minute monitor band ?t) self) =
        tb_minutes self @ [idle_minute monitor band ?t]"
      by (simp add: db_upsert_minute_def idle_minute_def Let_def)
    show ?thesis
      using True g u
      by (simp add: save_monitor_data_def Let_def tb_minutes_hours_idle hours_idle_ok
          idle_minute_def)
  next
    case False
    then show ?thesis
      using g by (simp add: save_monitor_data_def Let_def tb_minutes_hours_idle hours_idle_ok)
  qed
qed

lemma set_dict_set: "set (dict_set k v d) \<subseteq> insert (k, v) (set d)"
  by (induction k v d rule: dict_set.induct) (auto split: if_splits)

lemma keys_dict_set:
  "map fst (dict_set k v d) = (if k \<in> fst ` set d then map fst d else map fst d @ [k])"
  by (induction k v d rule: dict_set.induct) (auto split: if_splits)

lemma distinct_dict_set: "distinct (map fst d) \<Longrightarrow> distinct (map fst (dict_set k v d))"
  by (simp add: keys_dict_set)

lemma distinct_count_one: "distinct (map fst d) \<Longrightarrow> distinct (map fst (count_one k d))"
  by (simp add: count_one_def distinct_dict_set)

lemma distinct_count_opt: "distinct (map fst d) \<Longrightarrow> distinct (map fst (count_opt k d))"
  by (cases k) (simp_all add: count_opt_def distinct_count_one)

lemma group_message_ok:
  assumes "\<forall>x\<in>set minutes. group_ok x"
  shows "\<forall>x\<in>set (fst (group_message msg (minutes, mb, me))). group_ok x"
proof (cases "msg_caller msg")
  case None
  then show ?thesis using assms by (simp add: group_message_def)
next
  case (Some c)
  let ?mt = "gtime msg - gtime msg mod 60"
  have m: "?mt mod 60 = 0" by presburger
  show ?thesis
  proof (cases "map_of minutes ?mt")
    case None
    have "group_ok (?mt, \<lparr>g_messages = [msg], g_total = 1, g_snr = msg_snr msg,
                                g_countries = count_opt (msg_country msg) [],
                                g_cqs = count_opt (msg_cq msg) [],
                                g_callers = count_one c []\<rparr>)"
      using m by (simp add: group_ok_def distinct_count_one distinct_count_opt)
    then show ?thesis using assms Some None by (simp add: group_message_def Let_def)
  next
    case (Some d)
    have "(?mt, d) \<in> set minutes" using Some by (rule map_of_SomeD)
    then have d: "group_ok (?mt, d)" using assms by blast
    let ?d = "d\<lparr>g_messages := g_messages d @ [msg], g_total := g_total d + 1,
                            g_snr := g_snr d + msg_snr msg,
                            g_callers := count_one c (g_callers d),
                            g_countries := count_opt (msg_country msg) (g_countries d),
                            g_cqs := count_opt (msg_cq msg) (g_cqs d)\<rparr>"
    have "group_ok (?mt, ?d)"
      using d by (simp add: group_ok_def distinct_count_one distinct_count_opt)
    moreover have "set (dict_set ?mt ?d minutes) \<subseteq> insert (?mt, ?d) (set minutes)"
      by (rule set_dict_set)
    ultimately have "\<forall>x\<in>set (dict_set ?mt ?d minutes). group_ok x" using assms by blast
    then show ?thesis using \<open>msg_caller msg = Some c\<close> Some by (simp add: group_message_def Let_def)
  qed
qed

lemma group_fold_ok:
  "\<forall>x\<in>set (fst st). group_ok x \<Longrightarrow>
     \<forall>x\<in>set (fst (foldl (\<lambda>st msg. group_message msg st) st data)). group_ok x"
proof (induction data arbitrary: st)
  case Nil
  then show ?case by simp
next
  case (Cons msg data)
  obtain minutes mb me where st: "st = (minutes, mb, me)" by (cases st)
  have "\<forall>x\<in>set (fst (group_message msg st)). group_ok x"
    using Cons.prems group_message_ok [of minutes msg mb me] by (simp add: st)
  then show ?case using Cons.IH by simp
qed

lemma group_messages_ok: "\<forall>x\<in>set (fst (group_messages data)). group_ok x"
  unfolding group_messages_def by (rule group_fold_ok) simp

lemma tb_minutes_save_hour:
  "save_hour monitor band hr_db r_hour c self = Inr self' \<Longrightarrow> tb_minutes self' = tb_minutes self"
  by (auto simp: save_hour_def tb_minutes_upsert_hour split: option.splits sum.splits)

lemma tb_minutes_save_hours:
  "tb_minutes (snd (save_hours monitor band hr_db items self)) = tb_minutes self"
proof (induction items arbitrary: self)
  case Nil
  then show ?case by simp
next
  case (Cons item items)
  obtain r_hour c where item: "item = (r_hour, c)" by (cases item)
  show ?case
    using Cons.IH by (auto simp: item split: sum.splits dest: tb_minutes_save_hour)
qed

lemma tb_minutes_save_hours_table:
  "tb_minutes (snd (save_hours_table monitor band t minutes self)) = tb_minutes self"
  by (auto simp: save_hours_table_def Let_def tb_minutes_upsert_hour tb_minutes_save_hours
      split: sum.splits)

lemma fetch_minutes_tb:
  "tb_minutes self' = tb_minutes self \<Longrightarrow>
     fetch_in_minutes self' monitor band b e = fetch_in_minutes self monitor band b e"
  by (simp add: fetch_in_minutes_def db_read_minutes_def)

lemma filter_replace:
  assumes "\<And>row. S row \<longleftrightarrow> P row" "P data"
  shows "filter P (map (\<lambda>row. if S row then data else row) rows) =
           map (\<lambda>row. data) (filter P rows)"
  using assms by (induction rows) auto

lemma fetch_after_upsert:
  assumes "fetch_in_minutes self monitor band mt mt = [old]" "mt mod 60 = 0"
    and "mr_ctime new = mt" "mr_monitor new = monitor" "mr_band new = band"
  shows "fetch_in_minutes (db_upsert_minute monitor band new self) monitor band mt mt = [new]"
proof -
  let ?P = "\<lambda>row. mt \<le> mr_ctime row \<and> mr_ctime row \<le> mt \<and>
                    mr_monitor row = monitor \<and> mr_band row = band"
  let ?S = "\<lambda>row. mr_ctime row = mr_ctime new \<and> mr_monitor row = mr_monitor new \<and>
                         mr_band row = mr_band new"
  have f: "filter ?P (tb_minutes self) = [old]"
    using assms(1,2) by (simp add: fetch_in_minutes_def db_read_minutes_def)
  have eq: "\<And>row. ?S row \<longleftrightarrow> ?P row" using assms(3,4,5) by auto
  have "old \<in> set (filter ?P (tb_minutes self))" using f by simp
  then have ex: "list_ex ?S (tb_minutes self)" using eq by (auto simp: list_ex_iff)
  have pn: "?P new" using assms(3,4,5) by simp
  have "filter ?P (map (\<lambda>row. if ?S row then new else row) (tb_minutes self)) =
          map (\<lambda>row. new) (filter ?P (tb_minutes self))"
    using eq pn by (rule filter_replace)
  then show ?thesis
    using ex f assms(2) by (simp add: fetch_in_minutes_def db_read_minutes_def db_upsert_minute_def Let_def)
qed

lemma fetch_row_key:
  assumes "fetch_in_minutes self monitor band mt mt = [old]" "mt mod 60 = 0"
  shows "mr_ctime old = mt \<and> mr_monitor old = monitor \<and> mr_band old = band"
proof -
  let ?P = "\<lambda>row. mt \<le> mr_ctime row \<and> mr_ctime row \<le> mt \<and>
                    mr_monitor row = monitor \<and> mr_band row = band"
  have "filter ?P (tb_minutes self) = [old]"
    using assms by (simp add: fetch_in_minutes_def db_read_minutes_def)
  then have "old \<in> set (filter ?P (tb_minutes self))" by simp
  then show ?thesis by auto
qed

lemma group_message_distinct:
  assumes "distinct (map fst minutes)"
  shows "distinct (map fst (fst (group_message msg (minutes, mb, me))))"
proof (cases "msg_caller msg")
  case None
  then show ?thesis using assms by (simp add: group_message_def)
next
  case (Some c)
  show ?thesis
  proof (cases "map_of minutes (gtime msg - gtime msg mod 60)")
    case None
    then have "gtime msg - gtime msg mod 60 \<notin> fst ` set minutes"
      by (simp add: map_of_eq_None_iff)
    then show ?thesis using assms Some None by (simp add: group_message_def Let_def)
  next
    case (Some d)
    then show ?thesis
      using assms \<open>msg_caller msg = Some c\<close>
      by (simp add: group_message_def Let_def distinct_dict_set)
  qed
qed

lemma group_fold_distinct:
  "distinct (map fst (fst st)) \<Longrightarrow>
     distinct (map fst (fst (foldl (\<lambda>st msg. group_message msg st) st data)))"
proof (induction data arbitrary: st)
  case Nil
  then show ?case by simp
next
  case (Cons msg data)
  obtain minutes mb me where st: "st = (minutes, mb, me)" by (cases st)
  have "distinct (map fst (fst (group_message msg st)))"
    using Cons.prems group_message_distinct [of minutes msg mb me] by (simp add: st)
  then show ?case using Cons.IH by simp
qed

lemma group_messages_distinct: "distinct (map fst (fst (group_messages data)))"
  unfolding group_messages_def by (rule group_fold_distinct) simp

lemma upsert_other_minute:
  assumes "mr_ctime data \<noteq> mt" "mt mod 60 = 0"
  shows "fetch_in_minutes (db_upsert_minute monitor band data self) monitor band mt mt =
           fetch_in_minutes self monitor band mt mt"
proof -
  let ?P = "\<lambda>row. mt \<le> mr_ctime row \<and> mr_ctime row \<le> mt \<and>
                    mr_monitor row = monitor \<and> mr_band row = band"
  let ?S = "\<lambda>row. mr_ctime row = mr_ctime data \<and> mr_monitor row = mr_monitor data \<and>
                         mr_band row = mr_band data"
  have a: "filter ?P (map (\<lambda>row. if ?S row then data else row) rows) = filter ?P rows" for rows
    using assms(1) by (induction rows) auto
  have b: "filter ?P (tb_minutes self @ [data]) = filter ?P (tb_minutes self)"
    using assms(1) by auto
  show ?thesis
  proof (cases "list_ex ?S (tb_minutes self)")
    case True
    then have "tb_minutes (db_upsert_minute monitor band data self) =
        map (\<lambda>row. if ?S row then data else row) (tb_minutes self)"
      by (simp add: db_upsert_minute_def Let_def)
    then show ?thesis
      using a assms(2) by (simp add: fetch_in_minutes_def db_read_minutes_def)
  next
    case False
    then have "tb_minutes (db_upsert_minute monitor band data self) = tb_minutes self @ [data]"
      by (simp add: db_upsert_minute_def Let_def)
    then show ?thesis
      using b assms(2) by (simp add: fetch_in_minutes_def db_read_minutes_def)
  qed
qed

lemma merge_minute_key:
  "merge_minute dbrec r = Inr new \<Longrightarrow>
     mr_ctime new = mr_ctime dbrec \<and> mr_monitor new = mr_monitor dbrec \<and> mr_band new = mr_band dbrec"
  by (auto simp: merge_minute_def split: sum.splits)

lemma fetch_head_key:
  assumes "fetch_in_minutes self monitor band mt mt = row # rows" "mt mod 60 = 0"
  shows "mr_ctime row = mt \<and> mr_monitor row = monitor \<and> mr_band row = band"
proof -
  let ?P = "\<lambda>row. mt \<le> mr_ctime row \<and> mr_ctime row \<le> mt \<and>
                    mr_monitor row = monitor \<and> mr_band row = band"
  have "filter ?P (tb_minutes self) = row # rows"
    using assms by (simp add: fetch_in_minutes_def db_read_minutes_def)
  then have "row \<in> set (filter ?P (tb_minutes self))" by simp
  then show ?thesis by auto
qed

lemma save_minute_other:
  assumes "save_minute monitor band mt1 r1 self = Inr (r', self1)" "mt1 \<noteq> mt"
    "mt1 mod 60 = 0" "mt mod 60 = 0"
  shows "fetch_in_minutes self1 monitor band mt mt = fetch_in_minutes self monitor band mt mt"
proof (cases "fetch_in_minutes self monitor band mt1 mt1")
  case Nil
  then show ?thesis
    using assms by (auto simp: save_minute_def Let_def upsert_other_minute split: sum.splits)
next
  case (Cons dbrec rows)
  then obtain snr new where n: "merge_minute dbrec (r1\<lparr>g_snr := snr\<rparr>) = Inr new"
    "self1 = db_upsert_minute monitor band new self"
    using assms(1) by (auto simp: save_minute_def Let_def split: sum.splits)
  have "mr_ctime new = mt1" using merge_minute_key [OF n(1)] fetch_head_key [OF Cons assms(3)] by simp
  then show ?thesis using n(2) assms(2,4) by (simp add: upsert_other_minute)
qed

lemma save_minutes_other:
  "save_minutes monitor band items self = Inr (items', self') \<Longrightarrow> mt \<notin> fst ` set items \<Longrightarrow>
     \<forall>x\<in>set items. fst x mod 60 = 0 \<Longrightarrow> mt mod 60 = 0 \<Longrightarrow>
     fetch_in_minutes self' monitor band mt mt = fetch_in_minutes self monitor band mt mt"
proof (induction items arbitrary: self items')
  case Nil
  then show ?case by simp
next
  case (Cons item items)
  obtain mt1 r1 where item: "item = (mt1, r1)" by (cases item)
  from Cons.prems(1) item obtain r' self1 rs where
    s: "save_minute monitor band mt1 r1 self = Inr (r', self1)"
       "save_minutes monitor band items self1 = Inr (rs, self')"
    by (auto split: sum.splits prod.splits)
  have a: "mt1 \<noteq> mt" "mt1 mod 60 = 0" using Cons.prems(2,3) item by auto
  have "fetch_in_minutes self1 monitor band mt mt = fetch_in_minutes self monitor band mt mt"
    using save_minute_other [OF s(1) a Cons.prems(4)] .
  moreover have "fetch_in_minutes self' monitor band mt mt = fetch_in_minutes self1 monitor band mt mt"
    using Cons.IH [OF s(2)] Cons.prems(2,3,4) by simp
  ultimately show ?case by simp
qed

lemma save_minute_merges:
  assumes "save_minute monitor band mt r0 self = Inr (r', self1)"
    "fetch_in_minutes self monitor band mt mt = [old]" "mt mod 60 = 0"
  shows "\<exists>snr new. py_round_div (g_snr r0) (g_total r0) = Inr snr \<and>
           merge_minute old (r0\<lparr>g_snr := snr\<rparr>) = Inr new \<and>
           fetch_in_minutes self1 monitor band mt mt = [new]"
proof -
  from assms(1,2) obtain snr new where
    n: "py_round_div (g_snr r0) (g_total r0) = Inr snr"
       "merge_minute old (r0\<lparr>g_snr := snr\<rparr>) = Inr new"
       "self1 = db_upsert_minute monitor band new self"
    by (auto simp: save_minute_def Let_def split: sum.splits)
  have k: "mr_ctime new = mt" "mr_monitor new = monitor" "mr_band new = band"
    using merge_minute_key [OF n(2)] fetch_row_key [OF assms(2,3)] by simp_all
  show ?thesis using n fetch_after_upsert [OF assms(2,3) k] by simp
qed

lemma save_minutes_merges:
  "save_minutes monitor band items self = Inr (items', self') \<Longrightarrow> distinct (map fst items) \<Longrightarrow>
     \<forall>x\<in>set items. fst x mod 60 = 0 \<Longrightarrow> (mt, r0) \<in> set items \<Longrightarrow>
     fetch_in_minutes self monitor band mt mt = [old] \<Longrightarrow>
     \<exists>snr new. py_round_div (g_snr r0) (g_total r0) = Inr snr \<and>
           merge_minute old (r0\<lparr>g_snr := snr\<rparr>) = Inr new \<and>
           fetch_in_minutes self' monitor band mt mt = [new]"
proof (induction items arbitrary: self items')
  case Nil
  then show ?case by simp
next
  case (Cons item items)
  obtain mt1 r1 where item: "item = (mt1, r1)" by (cases item)
  from Cons.prems(1) item obtain r' self1 rs where
    s: "save_minute monitor band mt1 r1 self = Inr (r', self1)"
       "save_minutes monitor band items self1 = Inr (rs, self')"
    by (auto split: sum.splits prod.splits)
  have m60: "mt mod 60 = 0" using Cons.prems(3,4) by auto
  have m1: "mt1 mod 60 = 0" using Cons.prems(3) item by simp
  have all: "\<forall>x\<in>set items. fst x mod 60 = 0" using Cons.prems(3) by simp
  show ?case
  proof (cases "mt1 = mt")
    case True
    then have r: "r1 = r0" and notin: "mt \<notin> fst ` set items"
      using Cons.prems(2,4) item by (auto simp: image_iff)
    from save_minute_merges [OF s(1) [unfolded True r] Cons.prems(5) m60] obtain snr new where
      n: "py_round_div (g_snr r0) (g_total r0) = Inr snr"
         "merge_minute old (r0\<lparr>g_snr := snr\<rparr>) = Inr new"
         "fetch_in_minutes self1 monitor band mt mt = [new]" by blast
    have "fetch_in_minutes self' monitor band mt mt = fetch_in_minutes self1 monitor band mt mt"
      using save_minutes_other [OF s(2) notin all m60] .
    then show ?thesis using n by simp
  next
    case False
    then have "(mt, r0) \<in> set items" using Cons.prems(4) item by simp
    moreover have "fetch_in_minutes self1 monitor band mt mt = [old]"
      using save_minute_other [OF s(1) False m1 m60] Cons.prems(5) by simp
    moreover have "distinct (map fst items)" using Cons.prems(2) by simp
    ultimately show ?thesis using Cons.IH [OF s(2)] all by blast
  qed
qed

text \<open>
  Claim C7.  Let a call of \<^verbatim>\<open>save_monitor_data\<close> succeed, let \<open>r\<close> be the group of its batch
  for the minute \<open>mt\<close>, with the sum \<open>g_snr r\<close> of the SNR values of its \<open>g_total r\<close> messages,
  and let \<open>old\<close> be the bucket stored for that minute; let the sums and totals be below
  \<open>2 ^ 52\<close> in magnitude.  Then the bucket stored afterwards has the total \<open>old + new\<close>, the
  mean SNR \<open>round((old_mean * old_total + new_mean * new_total) / (old_total + new_total))\<close>
  where \<open>new_mean\<close> is the rounded mean of the group and both roundings are to the nearest
  integer of the exact quotient, a tie going to the even one, the concatenated message
  list, and in each counter map the key-wise sum; totals 3 and 2 with means 10 and 20
  give total 5 and mean 14.
\<close>

theorem minute_merge:
  assumes "fst (save_monitor_data now monitor band data self) = None"
    and "(mt, r) \<in> set (fst (group_messages data))"
    and "fetch_in_minutes self monitor band mt mt = [old]"
    and "\<bar>mr_snr old * mr_total old\<bar> + \<bar>g_snr r\<bar> + g_total r < 2 ^ 52"
    and "\<bar>mr_total old + g_total r\<bar> < 2 ^ 52"
  shows "\<exists>new new_mean.
           fetch_in_minutes (snd (save_monitor_data now monitor band data self))
             monitor band mt mt = [new] \<and>
           nearest_even new_mean (g_snr r) (g_total r) \<and>
           mr_total new = mr_total old + g_total r \<and>
           nearest_even (mr_snr new) (mr_snr old * mr_total old + new_mean * g_total r)
             (mr_total old + g_total r) \<and>
           mr_messages new = mr_messages old @ g_messages r \<and>
           (\<forall>k. map_of (mr_countries new) k =
                  keywise_sum (map_of (mr_countries old) k) (map_of (g_countries r) k)) \<and>
           (\<forall>k. map_of (mr_cqs new) k =
                  keywise_sum (map_of (mr_cqs old) k) (map_of (g_cqs r) k)) \<and>
           (\<forall>k. map_of (mr_callers new) k =
                  keywise_sum (map_of (mr_callers old) k) (map_of (g_callers r) k)) \<and>
           (mr_total old = 3 \<and> mr_snr old = 10 \<and> g_total r = 2 \<and> new_mean = 20 \<longrightarrow>
              mr_total new = 5 \<and> mr_snr new = 14)"
proof -
  obtain minutes mb me where g: "group_messages data = (minutes, mb, me)"
    by (cases "group_messages data")
  have mem: "(mt, r) \<in> set minutes" using assms(2) g by simp
  then have ne: "length minutes \<noteq> 0" by auto
  have ok: "\<forall>x\<in>set minutes. group_ok x" using group_messages_ok [of data] g by simp
  have dist: "distinct (map fst minutes)" using group_messages_distinct [of data] g by simp
  have m60: "\<forall>x\<in>set minutes. fst x mod 60 = 0" using ok by (simp add: group_ok_def)
  have rok: "group_ok (mt, r)" using ok mem by blast
  obtain minutes' self1 where
    s: "save_minutes monitor band minutes self = Inr (minutes', self1)"
       "save_monitor_data now monitor band data self = save_hours_table monitor band mb minutes' self1"
    using assms(1) g ne
    by (cases "save_minutes monitor band minutes self")
       (auto simp: save_monitor_data_def split: prod.splits)
  from save_minutes_merges [OF s(1) dist m60 mem assms(3)] obtain snr new where
    n: "py_round_div (g_snr r) (g_total r) = Inr snr"
       "merge_minute old (r\<lparr>g_snr := snr\<rparr>) = Inr new"
       "fetch_in_minutes self1 monitor band mt mt = [new]" by blast
  have f: "fetch_in_minutes (snd (save_monitor_data now monitor band data self)) monitor band mt mt = [new]"
    using n(3) s(2)
      fetch_minutes_tb [OF tb_minutes_save_hours_table, of monitor band mb minutes' self1 monitor band mt mt]
    by simp
  have d: "distinct (map fst (g_countries r))" "distinct (map fst (g_cqs r))"
    "distinct (map fst (g_callers r))"
    using rok by (simp_all add: group_ok_def)
  have t: "0 < g_total r" using rok by (simp add: group_ok_def)
  have b1: "\<bar>g_snr r\<bar> < 2 ^ 52" "\<bar>g_total r\<bar> < 2 ^ 52" using assms(4) t by linarith+
  have m1: "nearest_even snr (g_snr r) (g_total r)"
    using py_round_div_small [OF b1] t n(1) by auto
  let ?N = "mr_snr old * mr_total old + snr * g_total r"
  let ?D = "mr_total old + g_total r"
  obtain q where
    q: "py_round_div ?N ?D = Inr q"
       "new = old\<lparr>mr_messages := mr_messages old @ g_messages r, mr_snr := q,
                  mr_total := ?D,
                  mr_countries := add_counts (g_countries r) (mr_countries old),
                  mr_cqs := add_counts (g_cqs r) (mr_cqs old),
                  mr_callers := add_counts (g_callers r) (mr_callers old)\<rparr>"
    using n(2) by (auto simp: merge_minute_def split: sum.splits)
  have D0: "?D \<noteq> 0" using q(1) by (auto simp: py_round_div_zero)
  have tri: "2 * \<bar>X - S\<bar> \<le> T \<Longrightarrow> 0 < T \<Longrightarrow> \<bar>X\<bar> \<le> \<bar>S\<bar> + T" for X S T :: int
    by (auto simp: abs_if split: if_splits)
  have "2 * \<bar>snr * g_total r - g_snr r\<bar> \<le> g_total r" using m1 t by (auto simp: nearest_even_def)
  then have "\<bar>snr * g_total r\<bar> \<le> \<bar>g_snr r\<bar> + g_total r" using t by (rule tri)
  then have b2: "\<bar>?N\<bar> < 2 ^ 52" using assms(4) by linarith
  have m2: "nearest_even q ?N ?D"
    using py_round_div_small [OF b2 assms(5) D0] q(1) by auto
  have e: "nearest_even x (10 * 3 + 20 * 2) (3 + 2) \<Longrightarrow> x = 14" for x
    by (simp add: nearest_even_iff round_half_even_def)
  have ex: "mr_total old = 3 \<and> mr_snr old = 10 \<and> g_total r = 2 \<and> snr = 20 \<longrightarrow>
              mr_total new = 5 \<and> mr_snr new = 14"
    using m2 e q(2) by auto
  have c: "\<forall>k. map_of (mr_countries new) k =
                  keywise_sum (map_of (mr_countries old) k) (map_of (g_countries r) k)"
    "\<forall>k. map_of (mr_cqs new) k = keywise_sum (map_of (mr_cqs old) k) (map_of (g_cqs r) k)"
    "\<forall>k. map_of (mr_callers new) k =
                  keywise_sum (map_of (mr_callers old) k) (map_of (g_callers r) k)"
    using d by (simp_all add: q(2) add_counts_lookup)
  have p: "mr_total new = ?D" "mr_snr new = q" "mr_messages new = mr_messages old @ g_messages r"
    by (simp_all add: q(2))
  show ?thesis
    using f m1 m2 c ex p by (intro exI [of _ new] exI [of _ snr]) simp
qed

text \<open>
  Claim C2 fails on the code.  After a first batch in the hour 7200 and a second batch
  with one message in the hour 3600 and one in the hour 7200, the hour bucket 7200 has the
  total 1 while its two minute buckets sum to 2: the hours phase reads only the hour of
  the earliest minute (\<^verbatim>\<open>m_end = m_begin\<close>, line 188) and overwrites the other.
\<close>

theorem hour_total_diverges:
  "fst (save_monitor_data 7205 ''ft8mon'' ''50.313''
          [mk_msg 7200 (-5) (Some ''KA1ABC'') (Some ''United States'') (Some ''05'')] db0) = None \<and>
   fst (save_monitor_data 7300 ''ft8mon'' ''50.313''
          [mk_msg 3600 (-7) (Some ''WB9XYZ'') (Some ''United States'') (Some ''05''),
           mk_msg 7260 (-9) (Some ''OE3RSU'') (Some ''Austria'') (Some ''15'')] db_hour2) = None \<and>
   hour_total db_hour2 ''ft8mon'' ''50.313'' 7200 = 1 \<and>
   minutes_total db_hour2 ''ft8mon'' ''50.313'' 7200 = 1 \<and>
   hour_total db_two_hours ''ft8mon'' ''50.313'' 7200 = 1 \<and>
   minutes_total db_two_hours ''ft8mon'' ''50.313'' 7200 = 2"
  by code_simp

theorem idle_minute_bucket_witness:
  "msg_caller (mk_msg 3600 (-5) None None None) = None \<and>
   fetch_in_minutes db0 ''ft8mon'' ''50.313'' (100 - 100 mod 60) (100 - 100 mod 60) = [] \<and>
   tb_minutes (snd (save_monitor_data 100 ''ft8mon'' ''50.313'' [mk_msg 3600 (-5) None None None] db0)) =
     [\<lparr>mr_ctime = 60, mr_monitor = ''ft8mon'', mr_band = ''50.313'',
       mr_messages = [], mr_total = 0, mr_snr = 0, mr_countries = [], mr_cqs = [],
       mr_callers = []\<rparr>] \<and>
   fetch_in_minutes db_three ''ft8mon'' ''50.313'' (150 - 150 mod 60) (150 - 150 mod 60) \<noteq> [] \<and>
   tb_minutes (snd (save_monitor_data 150 ''ft8mon'' ''50.313'' [mk_msg 3600 (-5) None None None] db_three)) =
     tb_minutes db_three"
proof -
  have h: "\<forall>m\<in>set [mk_msg 3600 (-5) None None None]. msg_caller m = None"
    by (simp add: mk_msg_def)
  have f1: "fetch_in_minutes db0 ''ft8mon'' ''50.313'' (100 - 100 mod 60) (100 - 100 mod 60) = []"
    by (simp add: fetch_in_minutes_def db_read_minutes_def db0_def)
  have f2: "fetch_in_minutes db_three ''ft8mon'' ''50.313'' (150 - 150 mod 60) (150 - 150 mod 60) \<noteq> []"
    by code_simp
  have t0: "tb_minutes db0 = []" by (simp add: db0_def)
  have c: "msg_caller (mk_msg 3600 (-5) None None None) = None" by (simp add: mk_msg_def)
  show ?thesis
    using c f1 f2 t0
      idle_minute_bucket [OF h, of db0 "''ft8mon''" "''50.313''" 100]
      idle_minute_bucket [OF h, of db_three "''ft8mon''" "''50.313''" 150]
    by simp
qed

theorem minute_merge_witness:
  "fst (save_monitor_data 180 ''ft8mon'' ''50.313'' batch_two db_three) = None \<and>
   (120, group_two) \<in> set (fst (group_messages batch_two)) \<and>
   fetch_in_minutes db_three ''ft8mon'' ''50.313'' 120 120 = [bucket_three] \<and>
   \<bar>mr_snr bucket_three * mr_total bucket_three\<bar> + \<bar>g_snr group_two\<bar> + g_total group_two < 2 ^ 52 \<and>
   \<bar>mr_total bucket_three + g_total group_two\<bar> < 2 ^ 52 \<and>
   (\<exists>new. fetch_in_minutes db_five ''ft8mon'' ''50.313'' 120 120 = [new] \<and>
      mr_total new = 5 \<and> mr_snr new = 14 \<and>
      mr_messages new = batch_three @ batch_two \<and>
      map_of (mr_countries new) ''United States'' = Some 4 \<and>
      map_of (mr_countries new) ''Austria'' = Some 1 \<and>
      map_of (mr_callers new) ''KA1ABC'' = Some 3) \<and>
   fst (save_monitor_data 180 ''ft8mon'' ''50.313'' batch_half db_three) = None \<and>
   (120, group_half) \<in> set (fst (group_messages batch_half)) \<and>
   \<bar>mr_snr bucket_three * mr_total bucket_three\<bar> + \<bar>g_snr group_half\<bar> + g_total group_half < 2 ^ 52 \<and>
   \<bar>mr_total bucket_three + g_total group_half\<bar> < 2 ^ 52 \<and>
   (\<exists>new. fetch_in_minutes db_half ''ft8mon'' ''50.313'' 120 120 = [new] \<and>
      mr_total new = 5 \<and> mr_snr new = 15) \<and>
   fst (save_monitor_data 180 ''ft8mon'' ''50.313'' batch_one db_three) = None \<and>
   (120, group_one) \<in> set (fst (group_messages batch_one)) \<and>
   \<bar>mr_snr bucket_three * mr_total bucket_three\<bar> + \<bar>g_snr group_one\<bar> + g_total group_one < 2 ^ 52 \<and>
   \<bar>mr_total bucket_three + g_total group_one\<bar> < 2 ^ 52 \<and>
   (\<exists>new. fetch_in_minutes db_four ''ft8mon'' ''50.313'' 120 120 = [new] \<and>
      mr_total new = 4 \<and> mr_snr new = 8)"
proof -
  have h3: "fetch_in_minutes db_three ''ft8mon'' ''50.313'' 120 120 = [bucket_three]"
    by code_simp
  have a1: "fst (save_monitor_data 180 ''ft8mon'' ''50.313'' batch_two db_three) = None"
    by code_simp
  have a2: "(120, group_two) \<in> set (fst (group_messages batch_two))"
    by code_simp
  have a4: "\<bar>mr_snr bucket_three * mr_total bucket_three\<bar> + \<bar>g_snr group_two\<bar> + g_total group_two < 2 ^ 52"
    by (simp add: bucket_three_def group_two_def)
  have a5: "\<bar>mr_total bucket_three + g_total group_two\<bar> < 2 ^ 52"
    by (simp add: bucket_three_def group_two_def)
  have b1: "fst (save_monitor_data 180 ''ft8mon'' ''50.313'' batch_half db_three) = None"
    by code_simp
  have b2: "(120, group_half) \<in> set (fst (group_messages batch_half))"
    by code_simp
  have b4: "\<bar>mr_snr bucket_three * mr_total bucket_three\<bar> + \<bar>g_snr group_half\<bar> + g_total group_half < 2 ^ 52"
    by (simp add: bucket_three_def group_half_def)
  have b5: "\<bar>mr_total bucket_three + g_total group_half\<bar> < 2 ^ 52"
    by (simp add: bucket_three_def group_half_def)
  have c1: "fst (save_monitor_data 180 ''ft8mon'' ''50.313'' batch_one db_three) = None"
    by code_simp
  have c2: "(120, group_one) \<in> set (fst (group_messages batch_one))"
    by code_simp
  have c4: "\<bar>mr_snr bucket_three * mr_total bucket_three\<bar> + \<bar>g_snr group_one\<bar> + g_total group_one < 2 ^ 52"
    by (simp add: bucket_three_def group_one_def)
  have c5: "\<bar>mr_total bucket_three + g_total group_one\<bar> < 2 ^ 52"
    by (simp add: bucket_three_def group_one_def)
  have A: "\<exists>new. fetch_in_minutes db_five ''ft8mon'' ''50.313'' 120 120 = [new] \<and>
      mr_total new = 5 \<and> mr_snr new = 14 \<and>
      mr_messages new = batch_three @ batch_two \<and>
      map_of (mr_countries new) ''United States'' = Some 4 \<and>
      map_of (mr_countries new) ''Austria'' = Some 1 \<and>
      map_of (mr_callers new) ''KA1ABC'' = Some 3"
  proof -
    from minute_merge [OF a1 a2 h3 a4 a5] obtain new new_mean where
      n: "fetch_in_minutes (snd (save_monitor_data 180 ''ft8mon'' ''50.313'' batch_two db_three))
            ''ft8mon'' ''50.313'' 120 120 = [new]"
         "nearest_even new_mean (g_snr group_two) (g_total group_two)"
         "mr_messages new = mr_messages bucket_three @ g_messages group_two"
         "\<forall>k. map_of (mr_countries new) k =
              keywise_sum (map_of (mr_countries bucket_three) k) (map_of (g_countries group_two) k)"
         "\<forall>k. map_of (mr_callers new) k =
              keywise_sum (map_of (mr_callers bucket_three) k) (map_of (g_callers group_two) k)"
         "mr_total bucket_three = 3 \<and> mr_snr bucket_three = 10 \<and> g_total group_two = 2 \<and>
              new_mean = 20 \<longrightarrow> mr_total new = 5 \<and> mr_snr new = 14"
      by blast
    have r: "new_mean = 20"
      using n(2) by (simp add: group_two_def nearest_even_iff round_half_even_def)
    have t: "mr_total new = 5 \<and> mr_snr new = 14"
      using n(6) r by (simp add: bucket_three_def group_two_def)
    have c: "map_of (mr_countries new) ''United States'' = Some 4"
      "map_of (mr_countries new) ''Austria'' = Some 1"
      "map_of (mr_callers new) ''KA1ABC'' = Some 3"
      using n(4,5) by (simp_all add: bucket_three_def group_two_def keywise_sum_def)
    have m: "mr_messages new = batch_three @ batch_two"
      using n(3) by (simp add: bucket_three_def group_two_def)
    have f: "fetch_in_minutes db_five ''ft8mon'' ''50.313'' 120 120 = [new]"
      using n(1) by (simp add: db_five_def)
    show ?thesis using f t c m by blast
  qed
  have B: "\<exists>new. fetch_in_minutes db_half ''ft8mon'' ''50.313'' 120 120 = [new] \<and>
      mr_total new = 5 \<and> mr_snr new = 15"
  proof -
    from minute_merge [OF b1 b2 h3 b4 b5] obtain new new_mean where
      n: "fetch_in_minutes (snd (save_monitor_data 180 ''ft8mon'' ''50.313'' batch_half db_three))
            ''ft8mon'' ''50.313'' 120 120 = [new]"
         "nearest_even new_mean (g_snr group_half) (g_total group_half)"
         "mr_total new = mr_total bucket_three + g_total group_half"
         "nearest_even (mr_snr new)
            (mr_snr bucket_three * mr_total bucket_three + new_mean * g_total group_half)
            (mr_total bucket_three + g_total group_half)"
      by blast
    have r: "new_mean = 22"
      using n(2) by (simp add: group_half_def nearest_even_iff round_half_even_def)
    have t: "mr_total new = 5" using n(3) by (simp add: bucket_three_def group_half_def)
    have q: "mr_snr new = 15"
      using n(4) r by (simp add: bucket_three_def group_half_def nearest_even_iff round_half_even_def)
    have f: "fetch_in_minutes db_half ''ft8mon'' ''50.313'' 120 120 = [new]"
      using n(1) by (simp add: db_half_def)
    show ?thesis using f t q by blast
  qed
  have C: "\<exists>new. fetch_in_minutes db_four ''ft8mon'' ''50.313'' 120 120 = [new] \<and>
      mr_total new = 4 \<and> mr_snr new = 8"
  proof -
    from minute_merge [OF c1 c2 h3 c4 c5] obtain new new_mean where
      n: "fetch_in_minutes (snd (save_monitor_data 180 ''ft8mon'' ''50.313'' batch_one db_three))
            ''ft8mon'' ''50.313'' 120 120 = [new]"
         "nearest_even new_mean (g_snr group_one) (g_total group_one)"
         "mr_total new = mr_total bucket_three + g_total group_one"
         "nearest_even (mr_snr new)
            (mr_snr bucket_three * mr_total bucket_three + new_mean * g_total group_one)
            (mr_total bucket_three + g_total group_one)"
      by blast
    have r: "new_mean = 4"
      using n(2) by (simp add: group_one_def nearest_even_iff round_half_even_def)
    have t: "mr_total new = 4" using n(3) by (simp add: bucket_three_def group_one_def)
    have q: "mr_snr new = 8"
      using n(4) r by (simp add: bucket_three_def group_one_def nearest_even_iff round_half_even_def)
    have f: "fetch_in_minutes db_four ''ft8mon'' ''50.313'' 120 120 = [new]"
      using n(1) by (simp add: db_four_def)
    show ?thesis using f t q by blast
  qed
  show ?thesis using a1 a2 h3 a4 a5 A b1 b2 b4 b5 B c1 c2 c4 c5 C by blast
qed

section \<open>The telegram codec\<close>

lemma dm1: "(r::nat) < 64 \<Longrightarrow> (p * 64 + r) div 64 = p \<and> (p * 64 + r) mod 64 = r"
  by simp

lemma dm3:
  assumes "(x::nat) < 64" "(y::nat) < 64"
  shows "(p * 4096 + x * 64 + y) div 4096 = p"
    and "(p * 4096 + x * 64 + y) div 64 mod 64 = x"
    and "(p * 4096 + x * 64 + y) mod 64 = y"
proof -
  have e: "p * 4096 + x * 64 + y = (p * 64 + x) * 64 + y" by simp
  have "x * 64 + y < 4096" using assms by simp
  then show "(p * 4096 + x * 64 + y) div 4096 = p" by simp
  show "(p * 4096 + x * 64 + y) div 64 mod 64 = x"
    by (simp only: e dm1 [OF assms(2)] dm1 [OF assms(1)])
  show "(p * 4096 + x * 64 + y) mod 64 = y"
    by (simp only: e dm1 [OF assms(2)])
qed

lemma dm4:
  assumes "(x::nat) < 64" "(y::nat) < 64" "(z::nat) < 64"
  shows "(p * 262144 + x * 4096 + y * 64 + z) div 262144 = p"
    and "(p * 262144 + x * 4096 + y * 64 + z) div 4096 mod 64 = x"
    and "(p * 262144 + x * 4096 + y * 64 + z) div 64 mod 64 = y"
    and "(p * 262144 + x * 4096 + y * 64 + z) mod 64 = z"
proof -
  have e2: "p * 262144 + x * 4096 + y * 64 + z = ((p * 64 + x) * 64 + y) * 64 + z" by simp
  have e3: "p * 262144 + x * 4096 + y * 64 + z = (p * 64 + x) * 4096 + y * 64 + z" by simp
  have b2: "x * 4096 + y * 64 + z < 262144" using assms by simp
  have "(p * 262144 + (x * 4096 + y * 64 + z)) div 262144 = p" using b2 by simp
  then show "(p * 262144 + x * 4096 + y * 64 + z) div 262144 = p" by (simp add: add.assoc)
  show "(p * 262144 + x * 4096 + y * 64 + z) div 4096 mod 64 = x"
    by (simp only: e3 dm3(1) [OF assms(2,3)] dm1 [OF assms(1)])
  show "(p * 262144 + x * 4096 + y * 64 + z) div 64 mod 64 = y"
    by (simp only: e2 dm1 [OF assms(3)] dm1 [OF assms(2)])
  show "(p * 262144 + x * 4096 + y * 64 + z) mod 64 = z"
    by (simp only: e2 dm1 [OF assms(3)])
qed

lemma enc1: "unat (b0 :: byte) < 0x80 \<Longrightarrow> utf8_encode_char (unat b0) = Inr [b0]"
  by (simp add: utf8_encode_char_def)

lemma cont_cbits: "cont b \<Longrightarrow> cbits b < 64 \<and> 128 + cbits b = unat b"
  by (auto simp: cont_def cbits_def)

lemma enc2:
  assumes "0xC2 \<le> unat (b0 :: byte)" "unat b0 \<le> 0xDF" "cont b1"
  shows "utf8_encode_char ((unat b0 - 0xC0) * 64 + cbits b1) = Inr [b0, b1]"
proof -
  define p where "p = unat b0 - 0xC0"
  have p: "2 \<le> p" "p \<le> 31" "192 + p = unat b0" using assms(1,2) by (simp_all add: p_def)
  note x = cont_cbits [OF assms(3)]
  let ?c = "p * 64 + cbits b1"
  have r: "128 \<le> ?c" "?c < 2048" using p x by auto
  have d: "?c div 64 = p" "?c mod 64 = cbits b1" using dm1 [of "cbits b1" p] x by simp_all
  have "utf8_encode_char ?c = Inr [word_of_nat (192 + p), word_of_nat (128 + cbits b1)]"
    using r unfolding utf8_encode_char_def d by auto
  then show ?thesis using p(3) x by (simp add: p_def)
qed

lemma enc3:
  assumes "0xE0 \<le> unat (b0 :: byte)" "unat b0 \<le> 0xEF" "cont b1" "cont b2"
    and "0x800 \<le> (unat b0 - 0xE0) * 4096 + cbits b1 * 64 + cbits b2"
    and "\<not> (0xD800 \<le> (unat b0 - 0xE0) * 4096 + cbits b1 * 64 + cbits b2 \<and>
            (unat b0 - 0xE0) * 4096 + cbits b1 * 64 + cbits b2 \<le> 0xDFFF)"
  shows "utf8_encode_char ((unat b0 - 0xE0) * 4096 + cbits b1 * 64 + cbits b2) = Inr [b0, b1, b2]"
proof -
  define p where "p = unat b0 - 0xE0"
  have p: "p \<le> 15" "224 + p = unat b0" using assms(1,2) by (simp_all add: p_def)
  note x = cont_cbits [OF assms(3)] and y = cont_cbits [OF assms(4)]
  let ?c = "p * 4096 + cbits b1 * 64 + cbits b2"
  have r: "2048 \<le> ?c" "\<not> (55296 \<le> ?c \<and> ?c \<le> 57343)"
    using assms(5,6) by (simp_all add: p_def)
  have r2: "?c < 65536" using p x y by auto
  have d: "?c div 4096 = p" "?c div 64 mod 64 = cbits b1" "?c mod 64 = cbits b2"
    using dm3 [of "cbits b1" "cbits b2" p] x y by simp_all
  have "utf8_encode_char ?c =
      Inr [word_of_nat (224 + p), word_of_nat (128 + cbits b1), word_of_nat (128 + cbits b2)]"
    using r r2 unfolding utf8_encode_char_def d by auto
  then show ?thesis using p(2) x y by (simp add: p_def)
qed

lemma enc4:
  assumes "0xF0 \<le> unat (b0 :: byte)" "unat b0 \<le> 0xF4" "cont b1" "cont b2" "cont b3"
    and "0x10000 \<le> (unat b0 - 0xF0) * 262144 + cbits b1 * 4096 + cbits b2 * 64 + cbits b3"
    and "(unat b0 - 0xF0) * 262144 + cbits b1 * 4096 + cbits b2 * 64 + cbits b3 < 0x110000"
  shows "utf8_encode_char ((unat b0 - 0xF0) * 262144 + cbits b1 * 4096 + cbits b2 * 64 + cbits b3)
           = Inr [b0, b1, b2, b3]"
proof -
  define p where "p = unat b0 - 0xF0"
  have p: "p \<le> 4" "240 + p = unat b0" using assms(1,2) by (simp_all add: p_def)
  note x = cont_cbits [OF assms(3)] and y = cont_cbits [OF assms(4)] and z = cont_cbits [OF assms(5)]
  let ?c = "p * 262144 + cbits b1 * 4096 + cbits b2 * 64 + cbits b3"
  have r: "65536 \<le> ?c" "?c < 1114112"
    using assms(6,7) by (simp_all add: p_def)
  have d: "?c div 262144 = p" "?c div 4096 mod 64 = cbits b1"
    "?c div 64 mod 64 = cbits b2" "?c mod 64 = cbits b3"
    using dm4 [of "cbits b1" "cbits b2" "cbits b3" p] x y z by simp_all
  have "utf8_encode_char ?c =
      Inr [word_of_nat (240 + p), word_of_nat (128 + cbits b1), word_of_nat (128 + cbits b2),
           word_of_nat (128 + cbits b3)]"
    using r unfolding utf8_encode_char_def d by auto
  then show ?thesis using p(2) x y z by (simp add: p_def)
qed


lemma utf8_encode_decode: "utf8_decode bs = Inr cs \<Longrightarrow> utf8_encode cs = Inr bs"
proof (induction bs arbitrary: cs rule: utf8_decode.induct)
  case 1
  then show ?case by simp
next
  case (2 b0 bs)
  consider (a) "unat b0 < 0x80"
    | (b) "\<not> unat b0 < 0x80" "0xC2 \<le> unat b0 \<and> unat b0 \<le> 0xDF"
    | (c) "\<not> unat b0 < 0x80" "\<not> (0xC2 \<le> unat b0 \<and> unat b0 \<le> 0xDF)" "0xE0 \<le> unat b0 \<and> unat b0 \<le> 0xEF"
    | (d) "\<not> unat b0 < 0x80" "\<not> (0xC2 \<le> unat b0 \<and> unat b0 \<le> 0xDF)"
          "\<not> (0xE0 \<le> unat b0 \<and> unat b0 \<le> 0xEF)" "0xF0 \<le> unat b0 \<and> unat b0 \<le> 0xF4"
    | (e) "\<not> unat b0 < 0x80" "\<not> (0xC2 \<le> unat b0 \<and> unat b0 \<le> 0xDF)"
          "\<not> (0xE0 \<le> unat b0 \<and> unat b0 \<le> 0xEF)" "\<not> (0xF0 \<le> unat b0 \<and> unat b0 \<le> 0xF4)"
    by blast
  then show ?case
  proof cases
    case a
    then obtain r where r: "utf8_decode bs = Inr r" "cs = unat b0 # r"
      using "2.prems" by (auto split: sum.splits)
    have "utf8_encode r = Inr bs" using "2.IH"(1) [OF a r(1)] .
    then show ?thesis using r(2) enc1 [OF a] by simp
  next
    case b
    then obtain b1 r1 r where r: "bs = b1 # r1" "cont b1" "utf8_decode r1 = Inr r"
      "cs = ((unat b0 - 0xC0) * 64 + cbits b1) # r"
      using "2.prems" by (auto split: sum.splits list.splits if_splits)
    have "utf8_encode r = Inr r1" using "2.IH"(2) b r(1,2,3) by blast
    then show ?thesis using r enc2 [of b0 b1] b(2) by simp
  next
    case c
    then obtain b1 b2 r2 r where r: "bs = b1 # b2 # r2" "cont b1" "cont b2"
      "0x800 \<le> (unat b0 - 0xE0) * 4096 + cbits b1 * 64 + cbits b2"
      "\<not> (0xD800 \<le> (unat b0 - 0xE0) * 4096 + cbits b1 * 64 + cbits b2 \<and>
            (unat b0 - 0xE0) * 4096 + cbits b1 * 64 + cbits b2 \<le> 0xDFFF)"
      "utf8_decode r2 = Inr r"
      "cs = ((unat b0 - 0xE0) * 4096 + cbits b1 * 64 + cbits b2) # r"
      using "2.prems" by (auto simp: Let_def split: sum.splits list.splits if_splits)
    have "utf8_encode r = Inr r2"
      using "2.IH"(3) c r(1,2,3,4,5,6) by blast
    then show ?thesis using r enc3 [of b0 b1 b2] c(3) by simp
  next
    case d
    then obtain b1 b2 b3 r3 r where r: "bs = b1 # b2 # b3 # r3" "cont b1" "cont b2" "cont b3"
      "0x10000 \<le> (unat b0 - 0xF0) * 262144 + cbits b1 * 4096 + cbits b2 * 64 + cbits b3"
      "(unat b0 - 0xF0) * 262144 + cbits b1 * 4096 + cbits b2 * 64 + cbits b3 < 0x110000"
      "utf8_decode r3 = Inr r"
      "cs = ((unat b0 - 0xF0) * 262144 + cbits b1 * 4096 + cbits b2 * 64 + cbits b3) # r"
      using "2.prems" by (auto simp: Let_def split: sum.splits list.splits if_splits)
    have "utf8_encode r = Inr r3"
      using "2.IH"(4) d r(1,2,3,4,5,6,7) by blast
    then show ?thesis using r enc4 [of b0 b1 b2 b3] d(4) by simp
  next
    case e
    then have "utf8_decode (b0 # bs) = Inl UnicodeDecodeError"
      by (simp only: utf8_decode.simps if_False)
    then show ?thesis using "2.prems" by simp
  qed
qed

lemma unpack_length: "unpack f bs = Inr v \<Longrightarrow> length bs = calcsize f"
  by (auto simp: unpack_def Let_def split: if_splits)

lemma calcsize_pos: "0 < calcsize f"
  by (cases f) auto

lemma take_take_le: "n \<le> m \<Longrightarrow> take n (take m b) = take n b"
  by (simp add: min_def)

lemma struct_local:
  assumes "unpack f (take len b) = Inr v"
  shows "\<exists>n. 0 < n \<and> n \<le> length b \<and> drop len b = drop n b \<and>
           (\<forall>m. n \<le> m \<longrightarrow> unpack f (take len (take m b)) = Inr v \<and>
                 drop len (take m b) = drop n (take m b))"
proof -
  have l: "length (take len b) = calcsize f" using assms by (rule unpack_length)
  show ?thesis
  proof (cases "len \<le> length b")
    case True
    then have "len = calcsize f" using l by simp
    then have "0 < len" using calcsize_pos by simp
    then show ?thesis using True assms by (auto simp: take_take_le intro!: exI [of _ len])
  next
    case False
    then have lb: "length b = calcsize f" "take len b = b" using l by simp_all
    have "0 < length b" using lb calcsize_pos by simp
    moreover have "\<forall>m. length b \<le> m \<longrightarrow> take m b = b" by simp
    ultimately show ?thesis using False assms lb by (auto intro!: exI [of _ "length b"])
  qed
qed

lemma utf8_local:
  assumes "UTF8_String_deserialize b = Inr v"
  shows "\<exists>n. UTF8_String_serialization_size v = Inr n \<and> 0 < n \<and> n \<le> length b \<and>
           (\<forall>m. n \<le> m \<longrightarrow> UTF8_String_deserialize (take m b) = Inr v)"
proof -
  obtain len where u: "unpack Fmt_L (take 4 b) = Inr (PInt len)"
    using assms by (auto simp: UTF8_String_deserialize_def split: sum.splits pyval.splits)
  have l4: "4 \<le> length b" using unpack_length [OF u] by simp
  have t4: "take 4 (take m b) = take 4 b" if "4 \<le> m" for m using that by (simp add: take_take_le)
  show ?thesis
  proof (cases "len = 0xFFFFFFFF")
    case True
    then have v: "v = None" using assms u by (simp add: UTF8_String_deserialize_def)
    have "UTF8_String_deserialize (take m b) = Inr None" if "4 \<le> m" for m
      using u True t4 [OF that] by (simp add: UTF8_String_deserialize_def)
    then show ?thesis using v l4 by (auto simp: UTF8_String_serialization_size_def)
  next
    case False
    let ?raw = "take (nat len) (drop 4 b)"
    from assms u False obtain s where s: "length ?raw = nat len" "utf8_decode ?raw = Inr s" "v = Some s"
      by (auto simp: UTF8_String_deserialize_def Let_def split: if_splits sum.splits)
    have enc: "utf8_encode s = Inr ?raw" using s(2) by (rule utf8_encode_decode)
    have sz: "UTF8_String_serialization_size v = Inr (4 + nat len)"
      using enc s by (simp add: UTF8_String_serialization_size_def)
    have lb: "4 + nat len \<le> length b" using s(1) l4 by simp
    have "UTF8_String_deserialize (take m b) = Inr v" if m: "4 + nat len \<le> m" for m
    proof -
      have "take (nat len) (drop 4 (take m b)) = ?raw"
        using m by (simp add: drop_take take_take_le)
      then show ?thesis
        using u False s t4 [of m] m by (simp add: UTF8_String_deserialize_def Let_def)
    qed
    then show ?thesis using sz lb by auto
  qed
qed

lemma QDateTime_new_2: "QDateTime_new d t 2 (Some off) = Inl (ValueError ''Offset required when timespec=2'')"
  by (simp add: QDateTime_new_def)

lemma qdatetime_local:
  assumes "QDateTime_deserialize b = Inr v"
  shows "QDateTime_serialization_size v = 13 \<and> 13 \<le> length b \<and>
           (\<forall>m. 13 \<le> m \<longrightarrow> QDateTime_deserialize (take m b) = Inr v)"
proof -
  have l: "length (take 13 b) = 13"
    using assms by (auto simp: QDateTime_deserialize_def Let_def split: if_splits)
  then have lb: "13 \<le> length b" by simp
  from assms l obtain d t ts where
    u: "unpack Fmt_q (take 8 (take 13 b)) = Inr (PInt d)"
       "unpack Fmt_L (take 4 (drop 8 (take 13 b))) = Inr (PInt t)"
       "unpack Fmt_B (drop 12 (take 13 b)) = Inr (PInt ts)"
    by (auto simp: QDateTime_deserialize_def Let_def split: if_splits sum.splits pyval.splits)
  have ts: "ts \<noteq> 2"
  proof
    assume "ts = 2"
    then show False
      using assms l u
      by (auto simp: QDateTime_deserialize_def Let_def QDateTime_new_2 split: sum.splits pyval.splits)
  qed
  have v: "QDateTime_new d t ts None = Inr v"
    using assms l u ts by (simp add: QDateTime_deserialize_def Let_def)
  then have sz: "QDateTime_serialization_size v = 13"
    by (auto simp: QDateTime_new_def QDateTime_serialization_size_def split: if_splits)
  have "QDateTime_deserialize (take m b) = Inr v" if "13 \<le> m" for m
  proof -
    have "take 13 (take m b) = take 13 b" using that by (simp add: take_take_le)
    then show ?thesis using l u ts v by (simp add: QDateTime_deserialize_def Let_def)
  qed
  then show ?thesis using sz lb by blast
qed

lemma qcolor_local:
  assumes "QColor_deserialize b = Inr v"
  shows "11 \<le> length b \<and> (\<forall>m. 11 \<le> m \<longrightarrow> QColor_deserialize (take m b) = Inr v)"
proof -
  have l: "length (take 11 b) = 11"
    using assms by (auto simp: QColor_deserialize_def Let_def split: if_splits)
  then have lb: "11 \<le> length b" by simp
  have "QColor_deserialize (take m b) = Inr v" if "11 \<le> m" for m
  proof -
    have "take 11 (take m b) = take 11 b" using that by (simp add: take_take_le)
    then show ?thesis using assms by (simp add: QColor_deserialize_def)
  qed
  then show ?thesis using lb by blast
qed

lemma optional_quint_local:
  assumes "Optional_Quint_deserialize b len = Inr v" "b \<noteq> []"
  shows "Optional_Quint_serialization_size v = Inr (length b)"
proof -
  from assms obtain f w where f: "Optional_Quint_formats len = Some f" "unpack f b = Inr w"
    "v = \<lparr>oq_value = w, oq_size = Some len\<rparr>"
    by (auto simp: Optional_Quint_deserialize_def split: option.splits sum.splits)
  have "calcsize f = len" using f(1) by (auto simp: Optional_Quint_formats_def split: if_splits)
  then have "length b = len" using unpack_length [OF f(2)] by simp
  moreover have "w \<noteq> PNone" using f(2) by (auto simp: unpack_def Let_def split: if_splits)
  ultimately show ?thesis using f(3) by (simp add: Optional_Quint_serialization_size_def)
qed

lemma read_field_local:
  assumes "read_field f len b = Inr (v, b')" "b \<noteq> []"
  shows "\<exists>n. 0 < n \<and> n \<le> length b \<and> b' = drop n b \<and>
           (\<forall>m. n \<le> m \<longrightarrow> read_field f len (take m b) = Inr (v, drop n (take m b)))"
proof (cases f)
  case (Struct sf)
  then have u: "unpack sf (take len b) = Inr v" "b' = drop len b"
    using assms(1) by (auto simp: read_field_def split: sum.splits)
  from struct_local [OF u(1)] obtain n where n: "0 < n" "n \<le> length b" "drop len b = drop n b"
    "\<forall>m. n \<le> m \<longrightarrow> unpack sf (take len (take m b)) = Inr v \<and>
                 drop len (take m b) = drop n (take m b)" by blast
  show ?thesis
    using n u(2) Struct by (intro exI [of _ n]) (simp add: read_field_def)
next
  case Cls_UTF8_String
  then obtain w k where w: "UTF8_String_deserialize b = Inr w"
    "UTF8_String_serialization_size w = Inr k" "v = opt_str w" "b' = drop k b"
    using assms(1) by (auto simp: read_field_def split: sum.splits)
  from utf8_local [OF w(1)] w(2) have k: "0 < k" "k \<le> length b"
    "\<forall>m. k \<le> m \<longrightarrow> UTF8_String_deserialize (take m b) = Inr w" by auto
  show ?thesis
    using k w Cls_UTF8_String by (intro exI [of _ k]) (simp add: read_field_def)
next
  case Cls_Optional_Quint
  then obtain w k where w: "Optional_Quint_deserialize b len = Inr w"
    "Optional_Quint_serialization_size w = Inr k" "v = oq_value w" "b' = drop k b"
    using assms(1) by (auto simp: read_field_def split: sum.splits)
  have k: "k = length b" using optional_quint_local [OF w(1) assms(2)] w(2) by simp
  have "0 < length b" using assms(2) by simp
  then show ?thesis
    using k w Cls_Optional_Quint by (intro exI [of _ "length b"]) (simp add: read_field_def)
next
  case Cls_QDateTime
  then have w: "QDateTime_deserialize b = Inr v" "b' = drop (QDateTime_serialization_size v) b"
    using assms(1) by (auto simp: read_field_def split: sum.splits)
  note q = qdatetime_local [OF w(1)]
  show ?thesis
    using q w Cls_QDateTime by (intro exI [of _ 13]) (simp add: read_field_def)
next
  case Cls_QColor
  then have w: "QColor_deserialize b = Inr v" "b' = drop 11 b"
    using assms(1) by (auto simp: read_field_def split: sum.splits)
  note q = qcolor_local [OF w(1)]
  show ?thesis
    using q w Cls_QColor by (intro exI [of _ 11]) (simp add: read_field_def)
qed

lemma deserialize_loop_empty: "deserialize_loop fs [] = Inr (null_fields fs, [])"
  by (induction fs) (auto simp: null_fields_def)

lemma deserialize_loop_append:
  "deserialize_loop (fs1 @ fs2) b =
     (case deserialize_loop fs1 b of
        Inl e \<Rightarrow> Inl e
      | Inr (kw1, r1) \<Rightarrow>
          (case deserialize_loop fs2 r1 of
             Inl e \<Rightarrow> Inl e
           | Inr (kw2, r2) \<Rightarrow> Inr (kw1 @ kw2, r2)))"
proof (induction fs1 arbitrary: b)
  case Nil
  then show ?case by (simp split: sum.splits prod.splits)
next
  case (Cons fld fs1)
  obtain name f len where fld: "fld = (name, f, len)" by (cases fld)
  show ?case
  proof (cases "b = []")
    case True
    then show ?thesis using Cons.IH [of "[]"] by (simp add: fld split: sum.splits prod.splits)
  next
    case False
    show ?thesis
    proof (cases "read_field f len b")
      case (Inl e)
      then show ?thesis using False by (simp add: fld)
    next
      case (Inr p)
      obtain v b1 where p: "p = (v, b1)" by (cases p)
      show ?thesis
        using False Inr p Cons.IH [of b1] by (simp add: fld split: sum.splits prod.splits)
    qed
  qed
qed

lemma deserialize_loop_length:
  "deserialize_loop fs b = Inr (kw, r) \<Longrightarrow> length kw = length fs"
  by (induction fs arbitrary: b kw) (auto split: sum.splits prod.splits if_splits)

lemma deserialize_loop_nonempty:
  "b \<noteq> [] \<Longrightarrow>
     deserialize_loop ((name, f, len) # fs) b =
       (case read_field f len b of
          Inl e \<Rightarrow> Inl e
        | Inr (v, b1) \<Rightarrow>
            (case deserialize_loop fs b1 of
               Inl e \<Rightarrow> Inl e
             | Inr (kw, b') \<Rightarrow> Inr ((name, v) # kw, b')))"
  by simp

lemma deserialize_loop_local:
  "deserialize_loop fs b = Inr (kw, r) \<Longrightarrow>
     \<exists>n. n \<le> length b \<and> r = drop n b \<and>
       (\<forall>m. n \<le> m \<longrightarrow> deserialize_loop fs (take m b) = Inr (kw, drop n (take m b)))"
proof (induction fs arbitrary: b kw)
  case Nil
  then show ?case by (intro exI [of _ 0]) simp
next
  case (Cons fld fs)
  obtain name f len where fld: "fld = (name, f, len)" by (cases fld)
  show ?case
  proof (cases "b = []")
    case True
    then have "deserialize_loop (fld # fs) (take m b) = Inr (kw, r)" for m
      using Cons.prems by simp
    moreover have "r = []" using Cons.prems True by (simp add: deserialize_loop_empty)
    ultimately show ?thesis using True by (intro exI [of _ 0]) simp
  next
    case False
    from Cons.prems False fld obtain v b1 kw' where
      s: "read_field f len b = Inr (v, b1)" "deserialize_loop fs b1 = Inr (kw', r)"
         "kw = (name, v) # kw'"
      by (auto split: sum.splits prod.splits)
    from read_field_local [OF s(1) False] obtain n1 where
      n1: "0 < n1" "n1 \<le> length b" "b1 = drop n1 b"
          "\<forall>m. n1 \<le> m \<longrightarrow> read_field f len (take m b) = Inr (v, drop n1 (take m b))"
      by blast
    from Cons.IH [OF s(2)] obtain n2 where
      n2: "n2 \<le> length b1" "r = drop n2 b1"
          "\<forall>m. n2 \<le> m \<longrightarrow> deserialize_loop fs (take m b1) = Inr (kw', drop n2 (take m b1))"
      by blast
    have le: "n1 + n2 \<le> length b" using n1(2,3) n2(1) by simp
    have r: "r = drop (n1 + n2) b" using n1(3) n2(2) by (simp add: add.commute)
    have "deserialize_loop (fld # fs) (take m b) = Inr (kw, drop (n1 + n2) (take m b))"
      if m: "n1 + n2 \<le> m" for m
    proof -
      have ne: "take m b \<noteq> []" using m n1(1) False by (cases m) auto
      have rf: "read_field f len (take m b) = Inr (v, drop n1 (take m b))" using n1(4) m by simp
      have d: "drop n1 (take m b) = take (m - n1) b1" using n1(3) by (simp add: drop_take)
      have "deserialize_loop fs (take (m - n1) b1) = Inr (kw', drop n2 (take (m - n1) b1))"
        using n2(3) m by simp
      moreover have "drop n2 (take (m - n1) b1) = drop (n1 + n2) (take m b)"
        using d by (metis add.commute drop_drop)
      ultimately have t: "deserialize_loop fs (drop n1 (take m b)) =
          Inr (kw', drop (n1 + n2) (take m b))"
        using d by simp
      show ?thesis
        unfolding fld deserialize_loop_nonempty [OF ne] rf using t s(3) by simp
    qed
    then show ?thesis using le r by blast
  qed
qed

text \<open>
  Claim C5.  Let a buffer decode without error under a format, and let it be cut at the
  boundary after the first \<open>k\<close> fields (\<open>fs1\<close>), that is where the loop stands after
  reading them.  Then the cut buffer decodes without error too: its first \<open>k\<close> fields are
  those of the whole buffer and every later field (\<open>fs2\<close>) is null.
\<close>

theorem truncation_tolerance:
  assumes "deserialize (fs1 @ fs2) b = Inr kw"
  shows "\<exists>rest. deserialize_loop fs1 b = Inr (take (length fs1) kw, rest) \<and>
           deserialize (fs1 @ fs2) (take (length b - length rest) b) =
             Inr (take (length fs1) kw @ map (\<lambda>(name, f). (name, PNone)) fs2)"
proof -
  from assms obtain kw1 r1 kw2 r2 where
    a: "deserialize_loop fs1 b = Inr (kw1, r1)" "deserialize_loop fs2 r1 = Inr (kw2, r2)"
       "kw = kw1 @ kw2"
    by (auto simp: deserialize_def deserialize_loop_append split: sum.splits prod.splits)
  have k: "take (length fs1) kw = kw1" using deserialize_loop_length [OF a(1)] a(3) by simp
  from deserialize_loop_local [OF a(1)] obtain n where
    n: "n \<le> length b" "r1 = drop n b"
       "\<forall>m. n \<le> m \<longrightarrow> deserialize_loop fs1 (take m b) = Inr (kw1, drop n (take m b))"
    by blast
  have "length b - length r1 = n" using n(1,2) by simp
  moreover have "deserialize_loop fs1 (take n b) = Inr (kw1, [])" using n(3) by simp
  ultimately have "deserialize (fs1 @ fs2) (take (length b - length r1) b) = Inr (kw1 @ null_fields fs2)"
    by (simp add: deserialize_def deserialize_loop_append deserialize_loop_empty)
  then show ?thesis using a(1) k by (auto simp: null_fields_def)
qed

lemma be_bytes_numeral:
  "be_bytes (numeral k) n = word_of_nat (n div 256 ^ pred_numeral k) # be_bytes (pred_numeral k) n"
  by (simp add: numeral_eq_Suc)

lemma be_bytes_1: "be_bytes 1 n = [word_of_nat n]"
  by simp

lemmas codec_eval = be_bytes_numeral be_bytes_1
  UTF8_String_serialize_def UTF8_String_deserialize_def UTF8_String_serialization_size_def
  utf8_encode_char_def pack_def unpack_def be_nat_def pack_s_def Let_def cont_def cbits_def
  QDateTime_deserialize_def QDateTime_new_def read_field_def deserialize_def
  WSJTX_Telegram_format_def WSJTX_Clear_format_def quint8_def quint32_def qutf8_def
  opt_quint8_def opt_str_def Optional_Quint_deserialize_def Optional_Quint_formats_def
  Optional_Quint_serialization_size_def Optional_Quint_serialize_def Optional_Quint_new_def
  pystr_def clearmsg_def WSJTX_Telegram_new_def WSJTX_Telegram_defaults_def class_type_def
  magic_def schema_version_number_def from_bytes_def type_registry_def as_bytes_def
  serialize_field_def

theorem truncation_tolerance_witness:
  "deserialize (WSJTX_Telegram_format @ [(''window'', opt_quint8)]) (clearmsg @ [0x01]) =
     Inr [(''magic'', PInt 0xadbccbda), (''version_number'', PInt 3), (''type'', PInt 3),
          (''id'', PStr (pystr ''WSJT-X - TS590S-klbg'')), (''window'', PInt 1)] \<and>
   deserialize_loop WSJTX_Telegram_format (clearmsg @ [0x01]) =
     Inr ([(''magic'', PInt 0xadbccbda), (''version_number'', PInt 3), (''type'', PInt 3),
           (''id'', PStr (pystr ''WSJT-X - TS590S-klbg''))], [0x01]) \<and>
   take (length (clearmsg @ [0x01]) - length [0x01 :: byte]) (clearmsg @ [0x01]) = clearmsg \<and>
   deserialize (WSJTX_Telegram_format @ [(''window'', opt_quint8)]) clearmsg =
     Inr [(''magic'', PInt 0xadbccbda), (''version_number'', PInt 3), (''type'', PInt 3),
          (''id'', PStr (pystr ''WSJT-X - TS590S-klbg'')), (''window'', PNone)]"
proof -
  let ?kw = "[(''magic'', PInt 0xadbccbda), (''version_number'', PInt 3), (''type'', PInt 3),
          (''id'', PStr (pystr ''WSJT-X - TS590S-klbg'')), (''window'', PInt 1)]"
  have d: "deserialize (WSJTX_Telegram_format @ [(''window'', opt_quint8)]) (clearmsg @ [0x01]) = Inr ?kw"
    by (simp add: codec_eval)
  have l: "deserialize_loop WSJTX_Telegram_format (clearmsg @ [0x01]) =
     Inr ([(''magic'', PInt 0xadbccbda), (''version_number'', PInt 3), (''type'', PInt 3),
           (''id'', PStr (pystr ''WSJT-X - TS590S-klbg''))], [0x01])"
    by (simp add: codec_eval)
  have t: "take (length (clearmsg @ [0x01]) - length [0x01 :: byte]) (clearmsg @ [0x01]) = clearmsg"
    by simp
  have f: "length WSJTX_Telegram_format = 4" by (simp add: WSJTX_Telegram_format_def)
  from truncation_tolerance [OF d] l t f show ?thesis using d by simp
qed

text \<open>
  Claim C8 fails on the code.  The one-character string U+00E9 has the two UTF-8 bytes
  C3 A9; \<^verbatim>\<open>serialize\<close> writes the length 1 and the single byte C3, which does not decode,
  while \<^verbatim>\<open>serialization_size\<close> counts 4 + 2 bytes.  Null and empty strings are encoded
  as the claim says.
\<close>

theorem utf8_string_roundtrip_fails:
  "utf8_encode [0xE9] = Inr [0xC3, 0xA9] \<and>
   UTF8_String_serialize (Some [0xE9]) = Inr [0x00, 0x00, 0x00, 0x01, 0xC3] \<and>
   UTF8_String_deserialize [0x00, 0x00, 0x00, 0x01, 0xC3] = Inl UnicodeDecodeError \<and>
   UTF8_String_serialization_size (Some [0xE9]) = Inr 6 \<and>
   UTF8_String_serialize None = Inr [0xFF, 0xFF, 0xFF, 0xFF] \<and>
   UTF8_String_serialize (Some []) = Inr [0x00, 0x00, 0x00, 0x00] \<and>
   UTF8_String_deserialize [0xFF, 0xFF, 0xFF, 0xFF] = Inr None \<and>
   UTF8_String_deserialize [0x00, 0x00, 0x00, 0x00] = Inr (Some [])"
  by (simp add: codec_eval)

text \<open>
  Claim C6 fails on the code.  A date-time with the time specifier 2 and its four offset
  bytes is rejected by the constructor with the ValueError of line 426, whatever the
  offset; with another specifier the first 13 bytes are read.
\<close>

theorem qdatetime_with_offset_rejected:
  "QDateTime_deserialize
     [0x00, 0x00, 0x00, 0x00, 0x00, 0x25, 0x89, 0x60, 0x02, 0x93, 0x2E, 0x00, 0x02,
      0x00, 0x00, 0x0E, 0x10] = Inl (ValueError ''Offset required when timespec=2'') \<and>
   QDateTime_deserialize
     [0x00, 0x00, 0x00, 0x00, 0x00, 0x25, 0x89, 0x60, 0x02, 0x93, 0x2E, 0x00, 0x01,
      0x00, 0x00, 0x0E, 0x10] = Inr (PQDateTime 2460000 43200000 1 None) \<and>
   QDateTime_new 2460000 43200000 2 (Some 3600) = Inl (ValueError ''Offset required when timespec=2'') \<and>
   QDateTime_new 2460000 43200000 2 None = Inr (PQDateTime 2460000 43200000 2 None)"
  by (simp add: codec_eval)

text \<open>
  Claim C1 fails on the code.  A Clear telegram whose window is 1, built by the
  constructor or decoded from bytes, is not encoded: \<^verbatim>\<open>Optional_Quint(v).serialize()\<close>
  reads the attribute \<^verbatim>\<open>size\<close>, which only \<^verbatim>\<open>deserialize\<close> sets.
\<close>

theorem clear_window_not_encodable:
  "WSJTX_Telegram_new (Some 3) [(''window'', PInt 1)] =
     Inr \<lparr>tel_class = Some 3,
          tel_attrs = [(''magic'', PInt 0xadbccbda), (''version_number'', PInt 3),
                       (''type'', PInt 3), (''id'', PStr (pystr ''wsjt-server'')),
                       (''window'', PInt 1)]\<rparr> \<and>
   as_bytes \<lparr>tel_class = Some 3,
          tel_attrs = [(''magic'', PInt 0xadbccbda), (''version_number'', PInt 3),
                       (''type'', PInt 3), (''id'', PStr (pystr ''wsjt-server'')),
                       (''window'', PInt 1)]\<rparr> = Inl AttributeError \<and>
   from_bytes (clearmsg @ [0x01]) =
     Inr \<lparr>tel_class = Some 3,
          tel_attrs = [(''magic'', PInt 0xadbccbda), (''version_number'', PInt 3),
                       (''type'', PInt 3), (''id'', PStr (pystr ''WSJT-X - TS590S-klbg'')),
                       (''window'', PInt 1)]\<rparr> \<and>
   as_bytes \<lparr>tel_class = Some 3,
          tel_attrs = [(''magic'', PInt 0xadbccbda), (''version_number'', PInt 3),
                       (''type'', PInt 3), (''id'', PStr (pystr ''WSJT-X - TS590S-klbg'')),
                       (''window'', PInt 1)]\<rparr> = Inl AttributeError"
  by (simp add: codec_eval)

end
